(* ===== verification/Prelude.thy ===== *)
theory Prelude
  imports Main "HOL-Library.List_Lexorder" "HOL-Library.Char_ord"
    "HOL-Library.Product_Lexorder" "HOL-Library.Sublist"
begin

section \<open>Shared prelude\<close>

text \<open>
  What every component uses: results of fallible code as sums with a sequencing combinator for
  the question-mark operator of the source, traversal of a list by a fallible function, a
  repeated-element test for the \<^verbatim>\<open>BTreeSet::insert\<close> idiom, the selection of a greatest row
  for \<^verbatim>\<open>ORDER BY ... DESC LIMIT 1\<close>, and two interface locales: closed enumerations with a
  stable wire spelling, and normalisers that accept their own output.
\<close>

named_theorems res_intros \<open>introduction rules for successful results\<close>
named_theorems db_frame \<open>which tables an operation leaves alone\<close>

subsection \<open>Results\<close>

text \<open>\<^verbatim>\<open>Result<A, E>\<close> is the sum \<open>'e + 'a\<close>; \<open>Inl\<close> is the error.\<close>

definition bindr :: "'e + 'a \<Rightarrow> ('a \<Rightarrow> 'e + 'b) \<Rightarrow> 'e + 'b" where
  "bindr m f = (case m of Inl e \<Rightarrow> Inl e | Inr a \<Rightarrow> f a)"

fun mapr :: "('a \<Rightarrow> 'e + 'b) \<Rightarrow> 'a list \<Rightarrow> 'e + 'b list" where
  "mapr f [] = Inr []"
| "mapr f (x # xs) = bindr (f x) (\<lambda>y. bindr (mapr f xs) (\<lambda>ys. Inr (y # ys)))"

definition ok_or :: "'e \<Rightarrow> 'a option \<Rightarrow> 'e + 'a" where
  "ok_or e m = (case m of None \<Rightarrow> Inl e | Some a \<Rightarrow> Inr a)"

fun optr :: "('a \<Rightarrow> 'e + 'b) \<Rightarrow> 'a option \<Rightarrow> 'e + 'b option" where
  "optr f None = Inr None"
| "optr f (Some x) = bindr (f x) (\<lambda>y. Inr (Some y))"

fun is_ok :: "'e + 'a \<Rightarrow> bool" where
  "is_ok (Inl _) = False"
| "is_ok (Inr _) = True"

lemma bindr_Inl_simp [simp]: "bindr (Inl e) f = Inl e"
  by (simp add: bindr_def)

lemma bindr_Inr_simp [simp]: "bindr (Inr a) f = f a"
  by (simp add: bindr_def)

lemma bindr_eq_Inr [simp]: "bindr m f = Inr b \<longleftrightarrow> (\<exists>a. m = Inr a \<and> f a = Inr b)"
  by (cases m) simp_all

lemma bindr_eq_Inl: "bindr m f = Inl e \<longleftrightarrow> m = Inl e \<or> (\<exists>a. m = Inr a \<and> f a = Inl e)"
  by (cases m) simp_all

lemma bindr_split:
  "P (bindr m f) \<longleftrightarrow> (\<forall>e. m = Inl e \<longrightarrow> P (Inl e)) \<and> (\<forall>a. m = Inr a \<longrightarrow> P (f a))"
  by (cases m) simp_all

lemma bindr_cong [fundef_cong]:
  assumes "m = m'" and "\<And>a. m' = Inr a \<Longrightarrow> f a = f' a"
  shows "bindr m f = bindr m' f'"
  using assms by (cases m') simp_all

lemma is_ok_iff: "is_ok m \<longleftrightarrow> (\<exists>a. m = Inr a)"
  by (cases m) simp_all

lemma is_ok_bindr [simp]: "is_ok (bindr m f) \<longleftrightarrow> (\<exists>a. m = Inr a \<and> is_ok (f a))"
  by (cases m) simp_all

lemma ok_or_eq_Inr [simp]: "ok_or e m = Inr a \<longleftrightarrow> m = Some a"
  by (simp add: ok_or_def split: option.split)

lemma ok_or_simps [simp]: "ok_or e None = Inl e" "ok_or e (Some a) = Inr a"
  by (simp_all add: ok_or_def)

lemma mapr_cong [fundef_cong]:
  assumes "xs = ys" and "\<And>x. x \<in> set ys \<Longrightarrow> f x = g x"
  shows "mapr f xs = mapr g ys"
proof -
  have "(\<And>x. x \<in> set ys \<Longrightarrow> f x = g x) \<Longrightarrow> mapr f ys = mapr g ys"
    by (induction ys) simp_all
  then show ?thesis using assms by simp
qed

lemma mapr_Inr_list_all2: "mapr f xs = Inr ys \<longleftrightarrow> list_all2 (\<lambda>x y. f x = Inr y) xs ys"
  by (induction xs arbitrary: ys) (auto simp: list_all2_Cons1)

lemma mapr_id: "mapr f xs = Inr xs \<longleftrightarrow> (\<forall>x\<in>set xs. f x = Inr x)"
  by (induction xs) auto

lemma mapr_length: "mapr f xs = Inr ys \<Longrightarrow> length ys = length xs"
  by (simp add: mapr_Inr_list_all2 list_all2_lengthD)

lemma mapr_Inr_elem: "mapr f xs = Inr ys \<Longrightarrow> v \<in> set xs \<Longrightarrow> \<exists>y \<in> set ys. f v = Inr y"
  by (induction xs arbitrary: ys) auto

lemma mapr_Inr_image: "mapr f xs = Inr ys \<Longrightarrow> y \<in> set ys \<Longrightarrow> \<exists>v \<in> set xs. f v = Inr y"
  by (induction xs arbitrary: ys) auto

lemma mapr_const_nil: "\<forall>v \<in> set xs. f v = Inr [] \<Longrightarrow> bindr (mapr f xs) (\<lambda>cs. Inr (concat cs)) = Inr []"
  by (induction xs) (auto simp: bindr_def split: sum.splits)

subsection \<open>Lists\<close>

text \<open>\<^verbatim>\<open>iter().any(|p| !seen.insert(p))\<close> over a fresh set: some element occurs twice.\<close>

fun has_repeat :: "'a list \<Rightarrow> bool" where
  "has_repeat [] = False"
| "has_repeat (x # xs) = (x \<in> set xs \<or> has_repeat xs)"

lemma has_repeat_iff [simp]: "has_repeat xs \<longleftrightarrow> \<not> distinct xs"
  by (induction xs) auto

text \<open>The row an \<^verbatim>\<open>ORDER BY key DESC LIMIT 1\<close> query returns: the first row of greatest key.\<close>

fun max_row :: "('a \<Rightarrow> 'k::linorder) \<Rightarrow> 'a list \<Rightarrow> 'a option" where
  "max_row key [] = None"
| "max_row key (x # xs) =
     (case max_row key xs of None \<Rightarrow> Some x | Some y \<Rightarrow> if key x < key y then Some y else Some x)"

lemma max_row_None [simp]: "max_row key xs = None \<longleftrightarrow> xs = []"
  by (cases xs) (auto split: option.split)

lemma max_row_in: "max_row key xs = Some x \<Longrightarrow> x \<in> set xs"
  by (induction xs arbitrary: x) (auto split: option.splits if_splits)

lemma max_row_ge: "max_row key xs = Some x \<Longrightarrow> y \<in> set xs \<Longrightarrow> key y \<le> key x"
  by (induction xs arbitrary: x y) (fastforce split: option.splits if_splits)+

lemma max_row_append_greatest:
  assumes "\<And>y. y \<in> set xs \<Longrightarrow> key y < key x"
  shows "max_row key (xs @ [x]) = Some x"
  using assms by (induction xs) (auto split: option.splits)

lemma max_row_cong:
  assumes "\<And>x. x \<in> set xs \<Longrightarrow> key x = key' x"
  shows "max_row key xs = max_row key' xs"
  using assms by (induction xs) (auto split: option.splits dest: max_row_in)

lemma find_Some_in: "find P xs = Some x \<Longrightarrow> x \<in> set xs \<and> P x"
  by (induction xs) (auto split: if_splits)

lemma find_key: "distinct (map key xs) \<Longrightarrow> x \<in> set xs \<Longrightarrow> find (\<lambda>y. key y = key x) xs = Some x"
  by (induction xs) force+

lemma find_append: "find P (xs @ ys) = (case find P xs of None \<Rightarrow> find P ys | Some x \<Rightarrow> Some x)"
  by (induction xs) auto

lemma find_map_same:
  assumes "\<And>x. x \<in> set xs \<Longrightarrow> P (f x) = P x"
  shows "find P (map f xs) = map_option f (find P xs)"
  using assms by (induction xs) auto

lemma filter_map_same:
  assumes "\<And>x. x \<in> set xs \<Longrightarrow> P (f x) = P x"
  shows "filter P (map f xs) = map f (filter P xs)"
  using assms by (induction xs) auto

lemma prefix_snoc_self [simp]: "prefix xs (xs @ ys)"
  by simp

subsection \<open>Closed enumerations with a wire spelling\<close>

text \<open>
  A fieldless enumeration of the source with an \<^verbatim>\<open>ALL\<close> array and an \<^verbatim>\<open>as_str\<close> spelling. Parsing
  searches the array for the spelling, so completeness of the array and distinct spellings make
  parsing the inverse of printing.
\<close>

locale wire_enum =
  fixes all_values :: "'a list" and spelling :: "'a \<Rightarrow> string"
  assumes all_complete: "x \<in> set all_values"
    and spelling_distinct: "distinct (map spelling all_values)"
begin

lemma spelling_inj: "spelling x = spelling y \<longleftrightarrow> x = y"
  using spelling_distinct all_complete by (auto simp: distinct_map dest: inj_onD)

lemma find_spelling_iff: "find (\<lambda>v. spelling v = s) all_values = Some x \<longleftrightarrow> spelling x = s"
proof
  assume "find (\<lambda>v. spelling v = s) all_values = Some x"
  then show "spelling x = s" by (auto dest: find_Some_in)
next
  assume s: "spelling x = s"
  show "find (\<lambda>v. spelling v = s) all_values = Some x"
  proof (cases "find (\<lambda>v. spelling v = s) all_values")
    case None
    with s all_complete [of x] show ?thesis by (auto simp: find_None_iff)
  next
    case (Some y)
    then have "spelling y = s" by (auto dest: find_Some_in)
    with s Some show ?thesis by (metis spelling_inj)
  qed
qed

lemma find_spelling_self: "find (\<lambda>v. spelling v = spelling x) all_values = Some x"
  by (simp add: find_spelling_iff)

lemma find_spelling_None: "find (\<lambda>v. spelling v = s) all_values = None \<longleftrightarrow> s \<notin> range spelling"
  using all_complete by (auto simp: find_None_iff)

end

subsection \<open>Normalisers\<close>

text \<open>
  A fallible normaliser whose output it accepts unchanged: replaying a stored, already normalised
  request therefore validates and has the same identity.
\<close>

locale normaliser =
  fixes norm :: "'a \<Rightarrow> 'e + 'a"
  assumes norm_fixed: "norm x = Inr y \<Longrightarrow> norm y = Inr y"
begin

lemma norm_twice: "bindr (norm x) norm = norm x"
  by (cases "norm x") (simp_all add: norm_fixed)

lemma norm_image: "is_ok (norm x) \<Longrightarrow> \<exists>y. norm x = Inr y \<and> norm y = Inr y"
  by (auto simp: is_ok_iff norm_fixed)

lemma mapr_norm_fixed: "mapr norm xs = Inr ys \<Longrightarrow> mapr norm ys = Inr ys"
  by (induction xs arbitrary: ys) (auto simp: norm_fixed)

lemma optr_norm_fixed: "optr norm v = Inr w \<Longrightarrow> optr norm w = Inr w"
  by (cases v) (auto simp: norm_fixed)

end

end
