(* ===== verification/Text.thy ===== *)
theory Text
  imports Prelude
begin

section \<open>Rust strings\<close>

text \<open>
  A Rust \<^verbatim>\<open>String\<close> is its UTF-8 bytes, an Isabelle \<open>string\<close>: \<open>length\<close> is \<^verbatim>\<open>str::len\<close>, literals and
  concatenation are the same, and a slice at a byte offset is \<open>take\<close> or \<open>drop\<close>. Unicode scalar values
  are natural numbers; \<open>chars\<close> decodes the way \<^verbatim>\<open>core::str\<close> does and \<open>utf8\<close> encodes. The standard
  library operations the source uses follow: \<^verbatim>\<open>is_char_boundary\<close>, \<^verbatim>\<open>trim\<close>, \<^verbatim>\<open>char::is_control\<close>,
  \<^verbatim>\<open>char::is_whitespace\<close>, \<^verbatim>\<open>contains\<close>, \<^verbatim>\<open>strip_prefix\<close>, decimal formatting and parsing. The lemmas show that
  encoding round-trips, that cutting a valid string at a boundary leaves valid strings, and what
  trimming keeps.
\<close>

abbreviation byte_of :: "char \<Rightarrow> nat" where
  "byte_of c \<equiv> of_char c"

subsection \<open>UTF-8\<close>

definition scalar :: "nat \<Rightarrow> bool" where
  "scalar c \<longleftrightarrow> c < 0x110000 \<and> \<not> (0xD800 \<le> c \<and> c \<le> 0xDFFF)"

definition utf8_char :: "nat \<Rightarrow> string" where
  "utf8_char c =
     (if c < 0x80 then [char_of c]
      else if c < 0x800 then [char_of (0xC0 + c div 64), char_of (0x80 + c mod 64)]
      else if c < 0x10000 then
        [char_of (0xE0 + c div 4096), char_of (0x80 + c div 64 mod 64), char_of (0x80 + c mod 64)]
      else
        [char_of (0xF0 + c div 262144), char_of (0x80 + c div 4096 mod 64),
         char_of (0x80 + c div 64 mod 64), char_of (0x80 + c mod 64)])"

definition utf8 :: "nat list \<Rightarrow> string" where
  "utf8 cs = concat (map utf8_char cs)"

text \<open>A continuation byte has the form \<^verbatim>\<open>10xxxxxx\<close>.\<close>

definition continuation :: "char \<Rightarrow> bool" where
  "continuation b \<longleftrightarrow> 0x80 \<le> byte_of b \<and> byte_of b < 0xC0"

text \<open>\<^verbatim>\<open>str::chars\<close>: the leading byte gives the width, continuation bytes give six bits each.\<close>

fun chars :: "string \<Rightarrow> nat list" where
  "chars [] = []"
| "chars (a # s) =
     (let x = byte_of a in
      if x < 0x80 then x # chars s
      else if x < 0xE0 then
        (case s of b # s' \<Rightarrow> (x mod 32 * 64 + byte_of b mod 64) # chars s' | [] \<Rightarrow> [x])
      else if x < 0xF0 then
        (case s of b # c # s' \<Rightarrow>
           (x mod 16 * 4096 + byte_of b mod 64 * 64 + byte_of c mod 64) # chars s' | _ \<Rightarrow> [x])
      else
        (case s of b # c # d # s' \<Rightarrow>
           (x mod 8 * 262144 + byte_of b mod 64 * 4096 + byte_of c mod 64 * 64 + byte_of d mod 64)
             # chars s' | _ \<Rightarrow> [x]))"

lemmas chars_Cons = chars.simps(2) [unfolded Let_def]

declare chars.simps(2) [simp del]

definition valid_utf8 :: "string \<Rightarrow> bool" where
  "valid_utf8 s \<longleftrightarrow> (\<exists>cs. list_all scalar cs \<and> s = utf8 cs)"

definition is_char_boundary :: "string \<Rightarrow> nat \<Rightarrow> bool" where
  "is_char_boundary s i \<longleftrightarrow>
     i = 0 \<or> (if length s \<le> i then i = length s else \<not> continuation (s ! i))"

lemma utf8_Nil [simp]: "utf8 [] = []"
  by (simp add: utf8_def)

lemma utf8_Cons [simp]: "utf8 (c # cs) = utf8_char c @ utf8 cs"
  by (simp add: utf8_def)

lemma utf8_append [simp]: "utf8 (cs @ ds) = utf8 cs @ utf8 ds"
  by (simp add: utf8_def)

lemma byte_of_char_of: "n < 256 \<Longrightarrow> byte_of (char_of n) = n"
  by simp

lemma byte_less: "byte_of (c :: char) < 256"
  by simp

lemma code_point_cases:
  fixes c :: nat
  assumes "c < 0x200000"
  obtains (one) "c < 0x80" | (two) "0x80 \<le> c" "c < 0x800" "c div 64 < 32"
    | (three) "0x800 \<le> c" "c < 0x10000" "c div 4096 < 16"
    | (four) "0x10000 \<le> c" "c div 262144 < 8"
proof -
  have q: "c < 0x800 \<Longrightarrow> c div 64 < 32" "c < 0x10000 \<Longrightarrow> c div 4096 < 16" "c div 262144 < 8"
    using assms by (simp_all add: div_less_iff_less_mult)
  show ?thesis
    using that q by (meson not_le_imp_less)
qed

lemma scalar_bound: "scalar c \<Longrightarrow> c < 0x200000"
  by (simp add: scalar_def)

lemma lead_bits:
  "q < 32 \<Longrightarrow> (192 + q) mod 32 = (q::nat)" "q < 16 \<Longrightarrow> (224 + q) mod 16 = (q::nat)"
  "q < 8 \<Longrightarrow> (240 + q) mod 8 = (q::nat)" "(128 + m mod 64) mod 64 = (m::nat) mod 64"
  using mod_mult_self3 [of 6 32 q] mod_mult_self3 [of 14 16 q] mod_mult_self3 [of 30 8 q]
    mod_mult_self3 [of 2 64 "m mod 64"] by simp_all

lemma sextets:
  "(c::nat) div 64 * 64 + c mod 64 = c"
  "c div 4096 * 4096 + c div 64 mod 64 * 64 + c mod 64 = c"
  "c div 262144 * 262144 + c div 4096 mod 64 * 4096 + c div 64 mod 64 * 64 + c mod 64 = c"
proof -
  have d: "x div 64 * 64 + x mod 64 = x" for x :: nat by simp
  have e: "c div 4096 = c div 64 div 64" "c div 262144 = c div 64 div 64 div 64"
    by (simp_all add: div_mult2_eq [symmetric])
  show "c div 64 * 64 + c mod 64 = c" by simp
  show "c div 4096 * 4096 + c div 64 mod 64 * 64 + c mod 64 = c"
    unfolding e using d [of c] d [of "c div 64"] by linarith
  show "c div 262144 * 262144 + c div 4096 mod 64 * 4096 + c div 64 mod 64 * 64 + c mod 64 = c"
    unfolding e using d [of c] d [of "c div 64"] d [of "c div 64 div 64"] by linarith
qed

lemma utf8_char_simps:
  "c < 0x80 \<Longrightarrow> utf8_char c = [char_of c]"
  "0x80 \<le> c \<Longrightarrow> c < 0x800 \<Longrightarrow> utf8_char c = [char_of (0xC0 + c div 64), char_of (0x80 + c mod 64)]"
  "0x800 \<le> c \<Longrightarrow> c < 0x10000 \<Longrightarrow> utf8_char c =
     [char_of (0xE0 + c div 4096), char_of (0x80 + c div 64 mod 64), char_of (0x80 + c mod 64)]"
  "0x10000 \<le> c \<Longrightarrow> utf8_char c =
     [char_of (0xF0 + c div 262144), char_of (0x80 + c div 4096 mod 64),
      char_of (0x80 + c div 64 mod 64), char_of (0x80 + c mod 64)]"
  by (simp_all add: utf8_char_def)

lemma byte_lead:
  "q < 32 \<Longrightarrow> byte_of (char_of (0xC0 + q)) = 0xC0 + q" "q < 16 \<Longrightarrow> byte_of (char_of (0xE0 + q)) = 0xE0 + q"
  "q < 8 \<Longrightarrow> byte_of (char_of (0xF0 + q)) = 0xF0 + q" for q :: nat
  by simp_all

lemma byte_low: "byte_of (char_of (0x80 + c mod 64)) = 0x80 + c mod 64" for c :: nat
  using mod_less_divisor [of 64 c] by (subst byte_of_char_of) simp_all

lemma continuation_low [simp]: "continuation (char_of (0x80 + c mod 64))" for c :: nat
  using mod_less_divisor [of 64 c] by (simp add: continuation_def byte_low)

lemma not_continuation_lead [simp]:
  "c < 128 \<Longrightarrow> \<not> continuation (char_of c)"
  "q < 32 \<Longrightarrow> \<not> continuation (char_of (0xC0 + q))" "q < 16 \<Longrightarrow> \<not> continuation (char_of (0xE0 + q))"
  "q < 8 \<Longrightarrow> \<not> continuation (char_of (0xF0 + q))" for c q :: nat
  by (simp_all add: continuation_def)

lemma utf8_char_shape:
  assumes "scalar c"
  obtains b bs where "utf8_char c = b # bs" and "\<not> continuation b"
    and "\<forall>x \<in> set bs. continuation x" and "length bs < 4"
proof -
  have "\<exists>b bs. utf8_char c = b # bs \<and> \<not> continuation b \<and> (\<forall>x \<in> set bs. continuation x) \<and> length bs < 4"
    using scalar_bound [OF assms]
    by (cases c rule: code_point_cases) (simp_all add: utf8_char_simps)
  then show ?thesis using that by blast
qed

lemma chars_utf8_char:
  assumes "c < 0x200000"
  shows "chars (utf8_char c @ s) = c # chars s"
  using assms
  by (cases c rule: code_point_cases) (simp_all add: utf8_char_simps chars_Cons byte_lead byte_low lead_bits sextets)

text \<open>
  Decoding a byte sequence gives code points below \<open>0x200000\<close>, and these round-trip, whether or not the
  bytes were valid UTF-8.
\<close>

lemma chars_utf8_bounded: "list_all (\<lambda>c. c < 0x200000) cs \<Longrightarrow> chars (utf8 cs) = cs"
  by (induction cs) (simp_all add: chars_utf8_char)

lemma chars_utf8 [simp]: "list_all scalar cs \<Longrightarrow> chars (utf8 cs) = cs"
  by (rule chars_utf8_bounded) (auto simp: list_all_iff scalar_def)

lemma sextet_bounds: "(b::nat) mod 64 \<le> 63" "(b::nat) mod 32 \<le> 31" "(b::nat) mod 16 \<le> 15" "(b::nat) mod 8 \<le> 7"
  using mod_less_divisor [of 64 b] mod_less_divisor [of 32 b] mod_less_divisor [of 16 b]
    mod_less_divisor [of 8 b] by linarith+

lemma two_byte_bound: "(x::nat) mod 32 * 64 + b mod 64 < 0x200000"
  using sextet_bounds [of x] sextet_bounds [of b] by linarith

lemma three_byte_bound: "(x::nat) mod 16 * 4096 + b mod 64 * 64 + c mod 64 < 0x200000"
  using sextet_bounds [of x] sextet_bounds [of b] sextet_bounds [of c] by linarith

lemma four_byte_bound:
  "(x::nat) mod 8 * 262144 + b mod 64 * 4096 + c mod 64 * 64 + d mod 64 < 0x200000"
  using sextet_bounds [of x] sextet_bounds [of b] sextet_bounds [of c] sextet_bounds [of d]
  by linarith

lemma chars_step: "\<exists>c k. chars (a # s) = c # chars (drop k s) \<and> c < 0x200000"
proof -
  have a: "byte_of a < 0x200000" using byte_less [of a] by linarith
  consider "byte_of a < 0x80" | "0x80 \<le> byte_of a" "byte_of a < 0xE0"
    | "0xE0 \<le> byte_of a" "byte_of a < 0xF0" | "0xF0 \<le> byte_of a" by linarith
  then show ?thesis
  proof cases
    case 1
    then show ?thesis by (intro exI [of _ "byte_of a"] exI [of _ 0]) (simp add: chars_Cons)
  next
    case 2
    show ?thesis
    proof (cases s)
      case Nil
      with 2 a show ?thesis by (simp add: chars_Cons)
    next
      case (Cons b r)
      with 2 show ?thesis
        by (intro exI [of _ "byte_of a mod 32 * 64 + byte_of b mod 64"] exI [of _ 1])
          (simp add: chars_Cons two_byte_bound)
    qed
  next
    case 3
    consider "length s < 2" | b c r where "s = b # c # r" by (cases s; cases "tl s") auto
    then show ?thesis
    proof cases
      case 1
      with 3 a show ?thesis
        by (intro exI [of _ "byte_of a"] exI [of _ "length s"])
          (auto simp: chars_Cons less_Suc_eq numeral_2_eq_2 length_Suc_conv)
    next
      case (2 b c r)
      with 3 show ?thesis
        by (intro exI [of _ "byte_of a mod 16 * 4096 + byte_of b mod 64 * 64 + byte_of c mod 64"]
            exI [of _ 2]) (simp add: chars_Cons three_byte_bound)
    qed
  next
    case 4
    consider "length s < 3" | b c d r where "s = b # c # d # r"
      by (cases s; cases "tl s"; cases "tl (tl s)") auto
    then show ?thesis
    proof cases
      case 1
      with 4 a show ?thesis
        by (intro exI [of _ "byte_of a"] exI [of _ "length s"])
          (auto simp: chars_Cons less_Suc_eq numeral_3_eq_3 length_Suc_conv)
    next
      case (2 b c d r)
      with 4 show ?thesis
        by (intro exI [of _ "byte_of a mod 8 * 262144 + byte_of b mod 64 * 4096
              + byte_of c mod 64 * 64 + byte_of d mod 64"] exI [of _ 3])
          (simp add: chars_Cons four_byte_bound)
    qed
  qed
qed

lemma chars_bounded: "list_all (\<lambda>c. c < 0x200000) (chars s)"
proof (induction s rule: length_induct)
  case (1 s)
  show ?case
  proof (cases s)
    case (Cons a r)
    from chars_step [of a r] obtain c k where "chars (a # r) = c # chars (drop k r)" "c < 0x200000"
      by blast
    with 1 Cons show ?thesis by simp
  qed simp
qed

lemma chars_eq_Nil [simp]: "chars s = [] \<longleftrightarrow> s = []"
proof (cases s)
  case (Cons a r)
  with chars_step [of a r] show ?thesis by auto
qed simp

lemma chars_utf8_sub: "set ds \<subseteq> set (chars s) \<Longrightarrow> chars (utf8 ds) = ds"
  using chars_bounded [of s] by (intro chars_utf8_bounded) (auto simp: list_all_iff)

lemma utf8_chars: "valid_utf8 s \<Longrightarrow> utf8 (chars s) = s"
  by (auto simp: valid_utf8_def)

lemma valid_utf8_chars: "valid_utf8 s \<Longrightarrow> list_all scalar (chars s)"
  by (auto simp: valid_utf8_def)

lemma valid_utf8I: "list_all scalar cs \<Longrightarrow> valid_utf8 (utf8 cs)"
  by (auto simp: valid_utf8_def)

lemma valid_utf8_Nil [simp]: "valid_utf8 []"
  using valid_utf8I [of "[]"] by simp

lemma valid_utf8_append: "valid_utf8 s \<Longrightarrow> valid_utf8 t \<Longrightarrow> valid_utf8 (s @ t)"
  unfolding valid_utf8_def by (metis list_all_append utf8_append)

lemma utf8_take_boundary:
  assumes "list_all scalar cs" and "is_char_boundary (utf8 cs) i"
  shows "\<exists>k. take i (utf8 cs) = utf8 (take k cs) \<and> drop i (utf8 cs) = utf8 (drop k cs)"
  using assms
proof (induction cs arbitrary: i)
  case Nil
  then show ?case by (intro exI [of _ 0]) simp
next
  case (Cons c cs)
  then have c: "scalar c" and cs: "list_all scalar cs" by simp_all
  obtain b bs where shape: "utf8_char c = b # bs" "\<forall>x \<in> set bs. continuation x"
    using utf8_char_shape [OF c] by metis
  show ?case
  proof (cases "i < length (utf8_char c)")
    case True
    have "i = 0"
    proof (rule ccontr)
      assume "i \<noteq> 0"
      with True shape have "utf8 (c # cs) ! i \<in> set bs"
        by (auto simp: nth_append nth_Cons split: nat.split)
      with shape(2) Cons.prems(2) \<open>i \<noteq> 0\<close> True show False
        by (auto simp: is_char_boundary_def split: if_splits)
    qed
    then show ?thesis by (intro exI [of _ 0]) simp
  next
    case False
    let ?n = "length (utf8_char c)"
    have "is_char_boundary (utf8 cs) (i - ?n)"
      using Cons.prems(2) False by (auto simp: is_char_boundary_def nth_append split: if_splits)
    from Cons.IH [OF cs this] obtain k where
      "take (i - ?n) (utf8 cs) = utf8 (take k cs)" "drop (i - ?n) (utf8 cs) = utf8 (drop k cs)"
      by blast
    with False show ?thesis by (intro exI [of _ "Suc k"]) simp
  qed
qed

lemma valid_utf8_take:
  assumes "valid_utf8 s" and "is_char_boundary s i"
  shows "valid_utf8 (take i s)" and "valid_utf8 (drop i s)"
proof -
  from assms(1) obtain cs where cs: "list_all scalar cs" "s = utf8 cs"
    by (auto simp: valid_utf8_def)
  from utf8_take_boundary [OF cs(1)] assms(2) cs(2) obtain k where
    "take i s = utf8 (take k cs)" "drop i s = utf8 (drop k cs)" by blast
  moreover have "list_all scalar (take k cs)" and "list_all scalar (drop k cs)"
    using cs(1) by (auto simp: list_all_iff dest: in_set_takeD in_set_dropD)
  ultimately show "valid_utf8 (take i s)" and "valid_utf8 (drop i s)"
    by (simp_all add: valid_utf8I)
qed

subsection \<open>Shrinking an offset to a boundary\<close>

text \<open>The loop \<^verbatim>\<open>while !text.is_char_boundary(end) { end -= 1; }\<close>; it stops at zero at the latest.\<close>

fun boundary_down :: "string \<Rightarrow> nat \<Rightarrow> nat" where
  "boundary_down s 0 = 0"
| "boundary_down s (Suc i) = (if is_char_boundary s (Suc i) then Suc i else boundary_down s i)"

lemma is_char_boundary_0 [simp]: "is_char_boundary s 0"
  by (simp add: is_char_boundary_def)

lemma is_char_boundary_length [simp]: "is_char_boundary s (length s)"
  by (simp add: is_char_boundary_def)

lemma boundary_down_boundary [simp]: "is_char_boundary s (boundary_down s i)"
  by (induction i) simp_all

lemma boundary_down_le [simp]: "boundary_down s i \<le> i"
  by (induction i) (simp_all add: le_SucI)

lemma boundary_down_greatest: "is_char_boundary s j \<Longrightarrow> j \<le> i \<Longrightarrow> j \<le> boundary_down s i"
  by (induction i) (auto simp: le_Suc_eq)

lemma boundary_down_self [simp]: "is_char_boundary s i \<Longrightarrow> boundary_down s i = i"
  by (cases i) simp_all

text \<open>A scalar value is at most four bytes, so at most three bytes are given up.\<close>

lemma boundary_near:
  assumes "list_all scalar cs" and "i \<le> length (utf8 cs)"
  shows "\<exists>j \<le> i. i < j + 4 \<and> is_char_boundary (utf8 cs) j"
  using assms
proof (induction cs arbitrary: i)
  case Nil
  then show ?case by (intro exI [of _ i]) simp
next
  case (Cons c cs)
  then have c: "scalar c" and cs: "list_all scalar cs" by simp_all
  let ?n = "length (utf8_char c)"
  obtain b bs where "utf8_char c = b # bs" "length bs < 4" using utf8_char_shape [OF c] by metis
  then have n: "?n \<le> 4" by simp
  show ?case
  proof (cases "i < ?n")
    case True
    with n show ?thesis by (intro exI [of _ 0]) simp
  next
    case False
    with Cons.prems have "i - ?n \<le> length (utf8 cs)" by simp
    from Cons.IH [OF cs this] obtain j where
      j: "j \<le> i - ?n" "i - ?n < j + 4" "is_char_boundary (utf8 cs) j" by blast
    have "is_char_boundary (utf8 (c # cs)) (?n + j)"
    proof (cases "j = 0 \<and> cs \<noteq> []")
      case True
      then obtain d ds where ds: "cs = d # ds" by (cases cs) auto
      with cs have "scalar d" by simp
      then obtain b' bs' where "utf8_char d = b' # bs'" "\<not> continuation b'"
        using utf8_char_shape by metis
      with True ds show ?thesis by (simp add: is_char_boundary_def nth_append)
    next
      case False
      with j(3) show ?thesis by (auto simp: is_char_boundary_def nth_append split: if_splits)
    qed
    with j False show ?thesis by (intro exI [of _ "?n + j"]) auto
  qed
qed

lemma boundary_down_near:
  assumes "valid_utf8 s" and "i \<le> length s"
  shows "i < boundary_down s i + 4"
proof -
  from assms obtain j where "j \<le> i" "i < j + 4" "is_char_boundary s j"
    using boundary_near by (auto simp: valid_utf8_def)
  then show ?thesis using boundary_down_greatest [of s j i] by linarith
qed

subsection \<open>Character classes\<close>

definition is_control :: "nat \<Rightarrow> bool" where
  "is_control c \<longleftrightarrow> c < 0x20 \<or> (0x7F \<le> c \<and> c \<le> 0x9F)"

definition is_whitespace :: "nat \<Rightarrow> bool" where
  "is_whitespace c \<longleftrightarrow>
     (0x09 \<le> c \<and> c \<le> 0x0D) \<or> c = 0x20 \<or> c = 0x85 \<or> c = 0xA0 \<or> c = 0x1680
     \<or> (0x2000 \<le> c \<and> c \<le> 0x200A) \<or> c = 0x2028 \<or> c = 0x2029 \<or> c = 0x202F \<or> c = 0x205F
     \<or> c = 0x3000"

definition is_ascii_digit :: "char \<Rightarrow> bool" where
  "is_ascii_digit b \<longleftrightarrow> 0x30 \<le> byte_of b \<and> byte_of b \<le> 0x39"

definition is_ascii_alphanumeric :: "char \<Rightarrow> bool" where
  "is_ascii_alphanumeric b \<longleftrightarrow> is_ascii_digit b \<or> (0x41 \<le> byte_of b \<and> byte_of b \<le> 0x5A)
     \<or> (0x61 \<le> byte_of b \<and> byte_of b \<le> 0x7A)"

definition is_ascii_hexdigit :: "char \<Rightarrow> bool" where
  "is_ascii_hexdigit b \<longleftrightarrow> is_ascii_digit b \<or> (0x41 \<le> byte_of b \<and> byte_of b \<le> 0x46)
     \<or> (0x61 \<le> byte_of b \<and> byte_of b \<le> 0x66)"

definition is_ascii_uppercase :: "char \<Rightarrow> bool" where
  "is_ascii_uppercase b \<longleftrightarrow> 0x41 \<le> byte_of b \<and> byte_of b \<le> 0x5A"

definition is_ascii :: "string \<Rightarrow> bool" where
  "is_ascii s \<longleftrightarrow> list_all (\<lambda>b. byte_of b < 0x80) s"

lemma chars_ascii: "is_ascii s \<Longrightarrow> chars s = map byte_of s"
  by (induction s) (simp_all add: is_ascii_def chars_Cons)

lemma utf8_ascii: "is_ascii s \<Longrightarrow> utf8 (map byte_of s) = s"
  by (induction s) (simp_all add: is_ascii_def utf8_char_def)

lemma valid_utf8_ascii: "is_ascii s \<Longrightarrow> valid_utf8 s"
  unfolding valid_utf8_def
  by (rule exI [of _ "map byte_of s"])
    (auto simp: utf8_ascii, auto simp: is_ascii_def list_all_iff scalar_def)

subsection \<open>Trimming\<close>

definition trim_chars :: "nat list \<Rightarrow> nat list" where
  "trim_chars cs = rev (dropWhile is_whitespace (rev (dropWhile is_whitespace cs)))"

definition trim :: "string \<Rightarrow> string" where
  "trim s = utf8 (trim_chars (chars s))"

lemma dropWhile_idem [simp]: "dropWhile P (dropWhile P xs) = dropWhile P xs"
  by (induction xs) auto

lemma dropWhile_rev_keeps_head:
  assumes "xs = [] \<or> \<not> P (hd xs)"
  shows "dropWhile P (rev (dropWhile P (rev xs))) = rev (dropWhile P (rev xs))"
proof (cases xs)
  case (Cons a as)
  with assms have "\<not> P a" by simp
  then obtain k where "dropWhile P (rev (a # as)) = dropWhile P (rev as @ [a])"
    and "rev (dropWhile P (rev as @ [a])) = a # k"
    by (cases "\<forall>x \<in> set as. P x") (auto simp: dropWhile_append dropWhile_eq_Nil_conv)
  with Cons \<open>\<not> P a\<close> show ?thesis by simp
qed simp

lemma trim_chars_idem [simp]: "trim_chars (trim_chars cs) = trim_chars cs"
proof -
  let ?d = "dropWhile is_whitespace cs"
  have "?d = [] \<or> \<not> is_whitespace (hd ?d)" using hd_dropWhile [of is_whitespace cs] by blast
  then have "dropWhile is_whitespace (trim_chars cs) = trim_chars cs"
    unfolding trim_chars_def by (rule dropWhile_rev_keeps_head)
  then show ?thesis by (simp add: trim_chars_def)
qed

lemma trim_chars_subset: "set (trim_chars cs) \<subseteq> set cs"
  by (auto simp: trim_chars_def dest!: set_dropWhileD)

lemma trim_chars_length: "length (trim_chars cs) \<le> length cs"
  using length_dropWhile_le [of is_whitespace "rev (dropWhile is_whitespace cs)"]
    length_dropWhile_le [of is_whitespace cs]
  by (simp add: trim_chars_def)

lemma trim_chars_scalar: "list_all scalar cs \<Longrightarrow> list_all scalar (trim_chars cs)"
  using trim_chars_subset [of cs] by (auto simp: list_all_iff)

lemma chars_trim [simp]: "chars (trim s) = trim_chars (chars s)"
  unfolding trim_def by (rule chars_utf8_sub [OF trim_chars_subset])

lemma valid_trim: "valid_utf8 s \<Longrightarrow> valid_utf8 (trim s)"
  unfolding trim_def by (intro valid_utf8I trim_chars_scalar valid_utf8_chars)

lemma trim_idem [simp]: "trim (trim s) = trim s"
  by (simp add: trim_def [of "trim s"]) (simp add: trim_def)

lemma trim_chars_blank: "trim_chars cs = [] \<longleftrightarrow> (\<forall>c \<in> set cs. is_whitespace c)"
  by (auto simp: trim_chars_def dropWhile_eq_Nil_conv dest: set_dropWhileD)
    (metis dropWhile_eq_Nil_conv dropWhile_eq_self_iff hd_dropWhile hd_in_set)

subsection \<open>Searching and formatting\<close>

fun str_contains :: "string \<Rightarrow> string \<Rightarrow> bool" where
  "str_contains [] p = (p = [])"
| "str_contains (a # s) p = (take (length p) (a # s) = p \<or> str_contains s p)"

definition starts_with :: "string \<Rightarrow> string \<Rightarrow> bool" where
  "starts_with s p \<longleftrightarrow> take (length p) s = p"

definition strip_prefix :: "string \<Rightarrow> string \<Rightarrow> string option" where
  "strip_prefix p s = (if starts_with s p then Some (drop (length p) s) else None)"

fun show_nat :: "nat \<Rightarrow> string" where
  "show_nat n = (if n < 10 then [char_of (48 + n)] else show_nat (n div 10) @ [char_of (48 + n mod 10)])"

declare show_nat.simps [simp del]

definition join :: "string \<Rightarrow> string list \<Rightarrow> string" where
  "join sep xs = (case xs of [] \<Rightarrow> [] | y # ys \<Rightarrow> y @ concat (map (\<lambda>z. sep @ z) ys))"

lemma starts_with_prefix: "starts_with s p \<longleftrightarrow> prefix p s"
  by (auto simp: starts_with_def prefix_def) (metis append_take_drop_id)

lemma strip_prefix_Some: "strip_prefix p s = Some t \<longleftrightarrow> s = p @ t"
  by (auto simp: strip_prefix_def starts_with_def) (metis append_take_drop_id)

lemma str_contains_sublist: "str_contains s p \<longleftrightarrow> sublist p s"
  by (induction s)
    (auto simp: sublist_Cons_right starts_with_prefix [symmetric] starts_with_def)

lemma show_nat_digits: "\<forall>b \<in> set (show_nat n). is_ascii_digit b"
proof (induction n rule: show_nat.induct)
  case (1 n)
  have "48 + n mod 10 < 256" using mod_less_divisor [of 10 n] by linarith
  with 1 show ?case by (subst show_nat.simps) (auto simp: is_ascii_digit_def)
qed

lemma show_nat_length: "n < 10 ^ k \<Longrightarrow> 0 < k \<Longrightarrow> length (show_nat n) \<le> k"
proof (induction k arbitrary: n)
  case (Suc k)
  show ?case
  proof (cases "n < 10")
    case False
    then have "k \<noteq> 0" using Suc.prems(1) by (intro notI) simp
    moreover have "n div 10 < 10 ^ k" using Suc.prems by (simp add: div_less_iff_less_mult)
    ultimately show ?thesis using Suc.IH [of "n div 10"] False by (subst show_nat.simps) simp
  qed (subst show_nat.simps, simp)
qed simp

text \<open>\<^verbatim>\<open>trim_start_matches\<close>: the prefix is removed as often as it repeats.\<close>

function trim_start_matches :: "string \<Rightarrow> string \<Rightarrow> string" where
  "trim_start_matches p s =
     (if p \<noteq> [] \<and> starts_with s p then trim_start_matches p (drop (length p) s) else s)"
  by pat_completeness auto
termination
  by (relation "measure (\<lambda>(p, s). length s)") (auto simp: starts_with_prefix prefix_def)

declare trim_start_matches.simps [simp del]

definition split_once :: "char \<Rightarrow> string \<Rightarrow> (string \<times> string) option" where
  "split_once c s =
     (if c \<in> set s then Some (takeWhile (\<lambda>b. b \<noteq> c) s, tl (dropWhile (\<lambda>b. b \<noteq> c) s)) else None)"

text \<open>\<^verbatim>\<open>str::parse::<i64>\<close>: an optional sign, at least one digit, and a value in range.\<close>

definition parse_digits :: "string \<Rightarrow> int option" where
  "parse_digits s =
     (if s \<noteq> [] \<and> list_all is_ascii_digit s
      then Some (foldl (\<lambda>n b. 10 * n + (int (byte_of b) - 48)) 0 s) else None)"

definition parse_i64 :: "string \<Rightarrow> int option" where
  "parse_i64 s =
     (let v = (case s of
         c # r \<Rightarrow> if c = CHR ''-'' then map_option uminus (parse_digits r)
                  else if c = CHR ''+'' then parse_digits r else parse_digits s
       | [] \<Rightarrow> None)
      in case v of Some n \<Rightarrow> if - (2 ^ 63) \<le> n \<and> n < 2 ^ 63 then Some n else None | None \<Rightarrow> None)"

lemma parse_show_nat: "parse_digits (show_nat n) = Some (int n)"
proof -
  let ?f = "\<lambda>(n :: int) b. 10 * n + (int (byte_of b) - 48)"
  have "foldl ?f 0 (show_nat n) = int n \<and> show_nat n \<noteq> []"
  proof (induction n rule: show_nat.induct)
    case (1 n)
    have b: "byte_of (char_of (48 + k)) = 48 + k" if "k < 10" for k :: nat using that by simp
    show ?case
    proof (cases "n < 10")
      case True
      then show ?thesis by (subst (1 2) show_nat.simps) (simp add: b)
    next
      case False
      then have "foldl ?f 0 (show_nat (n div 10)) = int (n div 10)" using 1 by simp
      then have "foldl ?f 0 (show_nat n) = 10 * int (n div 10) + int (n mod 10)"
        using False by (subst show_nat.simps) (simp add: b)
      also have "\<dots> = int n" by (metis div_mult_mod_eq mult.commute of_nat_add of_nat_mult of_nat_numeral)
      finally show ?thesis using False by (subst (2) show_nat.simps) simp
    qed
  qed
  then show ?thesis using show_nat_digits [of n] by (simp add: parse_digits_def list_all_iff)
qed

lemma show_nat_inj: "show_nat m = show_nat n \<longleftrightarrow> m = n"
  using parse_show_nat by (metis of_nat_eq_iff option.inject)

lemma parse_i64_show_nat:
  assumes "n < 2 ^ 63"
  shows "parse_i64 (show_nat n) = Some (int n)"
proof (cases "show_nat n")
  case Nil
  then show ?thesis using parse_show_nat [of n] by (simp add: parse_digits_def)
next
  case (Cons c r)
  then have "is_ascii_digit c" using show_nat_digits [of n] by simp
  then have "c \<noteq> CHR ''-''" "c \<noteq> CHR ''+''" by (auto simp: is_ascii_digit_def)
  moreover have "int n < 2 ^ 63" using assms by (metis of_nat_less_iff of_nat_numeral of_nat_power)
  ultimately show ?thesis using Cons parse_show_nat [of n] by (simp add: parse_i64_def)
qed

lemma split_once_append: "c \<notin> set s \<Longrightarrow> split_once c (s @ c # t) = Some (s, t)"
  unfolding split_once_def by (induction s) auto

text \<open>Evaluation of the text operations on literals.\<close>

lemma bit_Suc_0_0: "bit (Suc 0) 0"
  by (simp add: bit_0)

lemmas text_eval =
  chars_Cons utf8_def utf8_char_def trim_def trim_chars_def is_whitespace_def is_control_def
  starts_with_def is_ascii_def is_ascii_digit_def is_ascii_alphanumeric_def
  Let_def char_of_def bit_Suc_0_0

end
