(* ===== verification/Errors.thy ===== *)
theory Errors
  imports Text
begin

section \<open>Domain errors and their public mapping\<close>

text \<open>
  The closed error type of \<^verbatim>\<open>agent-run-domain/src/error.rs\<close> with the quota admission verdicts of
  \<^verbatim>\<open>catalog.rs\<close> and the writer failures of \<^verbatim>\<open>storage.rs\<close> it carries: the machine codes with their
  wire spelling, the protocol mapping shared by the transports, the bounded public envelope, and the
  persistence wrapper with its replay predicate. Source errors of the operating system, of SQLite
  and of the JSON parser are their text, which no public rendering may show; of a SQLite error the
  model keeps whether its code is \<^verbatim>\<open>DatabaseBusy\<close>.
\<close>

subsection \<open>Data\<close>

datatype machine_code =
    SelectionStaleCode | SelectionBusyCode | NoEligibleAccountCode | QuotaExhaustedCode
  | BindingCooldownCode | ValidationErrorCode | PathEscapeErrorCode | AgentNotFoundCode
  | StateTransitionErrorCode | RequestConflictCode | CapacityExhaustedCode | UnsupportedCode
  | BrokerUnavailableCode | AnswerIntegrityErrorCode | ExecutionChangedCode
  | AnswerHashMismatchCode | AnswerUnavailableCode | RuntimeErrorCode | IOErrorCode
  | StorageErrorCode

datatype cooldown_reason = BillingUnavailable | CooldownQuotaExhausted

datatype quota_admission_error =
    SelectionStale int int
  | SelectionBusy nat
  | NoEligibleAccount string string
  | QuotaExhausted string string string
  | BindingCooldown string string string cooldown_reason nat

datatype not_enqueued_reason =
    RetentionGate | QueueFull | BytesFull | ProducerFull | ReservedForCritical | AdmissionsClosed
  | Draining | Degraded | DeadlineExpired | DeadlineBeforeStart

datatype unknown_cause =
    CommitUncertain | RollbackUncertain | DeadlineDuringExecution | WriterStopped | TransportLost

datatype writer_failure = NotEnqueued not_enqueued_reason | UnknownOutcome unknown_cause

datatype ownership_stage = InitialStage | StreamingStage | FinalStage | ObservationStage

datatype persistence_operation =
    OwnershipAcquire | OwnershipWrite | OwnershipCommit | StoreOpen | TranscriptAppend
  | RuntimeSession | EventAppend | TerminalCommit | CleanupWrite | CommandClaim | CommandWrite
  | WriterApply

datatype reject_stage =
  GateStage | AuthorizationStage | AcquireStage | StatementStage | CommitStage

datatype sql_error = DatabaseBusy string | OtherSql string

datatype error =
    QuotaAdmission quota_admission_error
  | Validation string
  | NotFound string
  | Transition string
  | PathEscape string
  | Conflict
  | Capacity
  | Unsupported string
  | BrokerUnavailable
  | AnswerIntegrity string
  | ExecutionChanged
  | AnswerHashMismatch
  | AnswerUnavailable
  | Integrity string
  | Runtime string
  | WriterFailure writer_failure
  | OwnershipCheckpoint ownership_stage error
  | Persistence persistence_operation nat nat "(string \<times> nat) option" "reject_stage option" error
  | Broker string "string option"
  | Bootstrap string string "string option" string
  | Io string
  | Sql sql_error
  | Json string

type_synonym 'a res = "error + 'a"

record protocol_mapping =
  json_rpc_code :: int
  mcp_code :: string
  cli_exit_code :: int

record public_error =
  pe_kind :: string
  pe_message :: string
  pe_agent_id :: "string option"
  pe_failure_kind :: "string option"
  pe_failure_stage :: "string option"

subsection \<open>Operations\<close>

definition invalid :: "string \<Rightarrow> error" where
  "invalid message = Validation message"

text \<open>A non-optional single-row query that finds no row.\<close>

definition no_rows :: error where
  "no_rows = Sql (OtherSql ''Query returned no rows'')"

fun code_as_str :: "machine_code \<Rightarrow> string" where
  "code_as_str SelectionStaleCode = ''selection_stale''"
| "code_as_str SelectionBusyCode = ''selection_busy''"
| "code_as_str NoEligibleAccountCode = ''no_eligible_account''"
| "code_as_str QuotaExhaustedCode = ''quota_exhausted''"
| "code_as_str BindingCooldownCode = ''binding_cooldown''"
| "code_as_str ValidationErrorCode = ''ValidationError''"
| "code_as_str PathEscapeErrorCode = ''PathEscapeError''"
| "code_as_str AgentNotFoundCode = ''AgentNotFound''"
| "code_as_str StateTransitionErrorCode = ''StateTransitionError''"
| "code_as_str RequestConflictCode = ''RequestConflict''"
| "code_as_str CapacityExhaustedCode = ''CapacityExhausted''"
| "code_as_str UnsupportedCode = ''Unsupported''"
| "code_as_str BrokerUnavailableCode = ''BrokerUnavailable''"
| "code_as_str AnswerIntegrityErrorCode = ''AnswerIntegrityError''"
| "code_as_str ExecutionChangedCode = ''ExecutionChanged''"
| "code_as_str AnswerHashMismatchCode = ''AnswerHashMismatch''"
| "code_as_str AnswerUnavailableCode = ''AnswerUnavailable''"
| "code_as_str RuntimeErrorCode = ''RuntimeError''"
| "code_as_str IOErrorCode = ''IOError''"
| "code_as_str StorageErrorCode = ''StorageError''"

definition all_codes :: "machine_code list" where
  "all_codes =
     [SelectionStaleCode, SelectionBusyCode, NoEligibleAccountCode, QuotaExhaustedCode,
      BindingCooldownCode, ValidationErrorCode, PathEscapeErrorCode, AgentNotFoundCode,
      StateTransitionErrorCode, RequestConflictCode, CapacityExhaustedCode, UnsupportedCode,
      BrokerUnavailableCode, AnswerIntegrityErrorCode, ExecutionChangedCode,
      AnswerHashMismatchCode, AnswerUnavailableCode, RuntimeErrorCode, IOErrorCode,
      StorageErrorCode]"

definition code_from_wire :: "string \<Rightarrow> machine_code option" where
  "code_from_wire code = find (\<lambda>known. code_as_str known = code) all_codes"

fun cooldown_as_str :: "cooldown_reason \<Rightarrow> string" where
  "cooldown_as_str BillingUnavailable = ''billing_unavailable''"
| "cooldown_as_str CooldownQuotaExhausted = ''quota_exhausted''"

fun quota_kind :: "quota_admission_error \<Rightarrow> string" where
  "quota_kind (SelectionStale _ _) = ''selection_stale''"
| "quota_kind (SelectionBusy _) = ''selection_busy''"
| "quota_kind (NoEligibleAccount _ _) = ''no_eligible_account''"
| "quota_kind (QuotaExhausted _ _ _) = ''quota_exhausted''"
| "quota_kind (BindingCooldown _ _ _ _ _) = ''binding_cooldown''"

definition show_int :: "int \<Rightarrow> string" where
  "show_int i = (if i < 0 then ''-'' @ show_nat (nat (- i)) else show_nat (nat i))"

fun quota_display :: "quota_admission_error \<Rightarrow> string" where
  "quota_display (SelectionStale committed current) =
     ''selection_stale (committed revision '' @ show_int committed @
     '', current revision '' @ show_int current @ '')''"
| "quota_display (SelectionBusy n) = ''selection_busy (after '' @ show_nat n @ '' stale retries)''"
| "quota_display (NoEligibleAccount provider model) =
     ''no_eligible_account (provider '' @ provider @ '', model '' @ model @ '')''"
| "quota_display (QuotaExhausted provider model account) =
     ''quota_exhausted (provider '' @ provider @ '', model '' @ model @
     '', account '' @ account @ '')''"
| "quota_display (BindingCooldown provider model account reason seconds) =
     ''binding_cooldown (provider '' @ provider @ '', model '' @ model @ '', account '' @ account @
     '', reason '' @ cooldown_as_str reason @ ''; retry after '' @ show_nat seconds @ '' seconds)''"

fun ownership_checkpoint :: "ownership_stage \<Rightarrow> error \<Rightarrow> error" where
  "ownership_checkpoint stage (OwnershipCheckpoint s e) = OwnershipCheckpoint s e"
| "ownership_checkpoint stage source = OwnershipCheckpoint stage source"

text \<open>\<^verbatim>\<open>elapsed.as_millis().min(u64::MAX)\<close>: milliseconds are saturated at 64 bits.\<close>

definition clamp_ms :: "nat \<Rightarrow> nat" where
  "clamp_ms ms = min ms (2 ^ 64 - 1)"

definition persistence :: "persistence_operation \<Rightarrow> nat \<Rightarrow> error \<Rightarrow> error" where
  "persistence op elapsed source = Persistence op (clamp_ms elapsed) 1 None None source"

fun with_writer_identity :: "error \<Rightarrow> string \<Rightarrow> nat \<Rightarrow> error" where
  "with_writer_identity (Persistence op ms n _ phase source) oid kind =
     Persistence op ms n (Some (oid, kind)) phase source"
| "with_writer_identity e oid kind = e"

text \<open>\<^verbatim>\<open>matches!(source, Self::Sql(e) if e.sqlite_error_code() == Some(DatabaseBusy))\<close>.\<close>

fun is_busy :: "error \<Rightarrow> bool" where
  "is_busy (Sql (DatabaseBusy _)) = True"
| "is_busy _ = False"

fun retryable_ownership_acquire :: "error \<Rightarrow> bool" where
  "retryable_ownership_acquire (OwnershipCheckpoint _ source) = retryable_ownership_acquire source"
| "retryable_ownership_acquire (Persistence op _ _ _ phase source) =
     (op = OwnershipAcquire \<and> (phase = None \<or> phase = Some AcquireStage)
      \<and> is_busy source)"
| "retryable_ownership_acquire _ = False"

fun persistence_attempts :: "error \<Rightarrow> nat" where
  "persistence_attempts (OwnershipCheckpoint _ source) = persistence_attempts source"
| "persistence_attempts (Persistence _ _ n _ _ _) = n"
| "persistence_attempts _ = 0"

fun persistence_totals :: "error \<Rightarrow> nat \<Rightarrow> nat \<Rightarrow> error" where
  "persistence_totals (OwnershipCheckpoint stage source) elapsed n =
     OwnershipCheckpoint stage (persistence_totals source elapsed n)"
| "persistence_totals (Persistence op _ _ ident phase source) elapsed n =
     Persistence op (clamp_ms elapsed) n ident phase source"
| "persistence_totals e elapsed n = e"

fun machine_code_of :: "error \<Rightarrow> machine_code" where
  "machine_code_of (QuotaAdmission (SelectionStale _ _)) = SelectionStaleCode"
| "machine_code_of (QuotaAdmission (SelectionBusy _)) = SelectionBusyCode"
| "machine_code_of (QuotaAdmission (NoEligibleAccount _ _)) = NoEligibleAccountCode"
| "machine_code_of (QuotaAdmission (QuotaExhausted _ _ _)) = QuotaExhaustedCode"
| "machine_code_of (QuotaAdmission (BindingCooldown _ _ _ _ _)) = BindingCooldownCode"
| "machine_code_of (Validation _) = ValidationErrorCode"
| "machine_code_of (Json _) = ValidationErrorCode"
| "machine_code_of (PathEscape _) = PathEscapeErrorCode"
| "machine_code_of (NotFound _) = AgentNotFoundCode"
| "machine_code_of (Transition _) = StateTransitionErrorCode"
| "machine_code_of Conflict = RequestConflictCode"
| "machine_code_of Capacity = CapacityExhaustedCode"
| "machine_code_of (Unsupported _) = UnsupportedCode"
| "machine_code_of BrokerUnavailable = BrokerUnavailableCode"
| "machine_code_of (AnswerIntegrity _) = AnswerIntegrityErrorCode"
| "machine_code_of (Integrity _) = AnswerIntegrityErrorCode"
| "machine_code_of ExecutionChanged = ExecutionChangedCode"
| "machine_code_of AnswerHashMismatch = AnswerHashMismatchCode"
| "machine_code_of AnswerUnavailable = AnswerUnavailableCode"
| "machine_code_of (Broker _ (Some code)) =
     (case code_from_wire code of Some c \<Rightarrow> c | None \<Rightarrow> RuntimeErrorCode)"
| "machine_code_of (Broker _ None) = RuntimeErrorCode"
| "machine_code_of (Runtime _) = RuntimeErrorCode"
| "machine_code_of (WriterFailure _) = RuntimeErrorCode"
| "machine_code_of (OwnershipCheckpoint _ _) = RuntimeErrorCode"
| "machine_code_of (Bootstrap _ _ _ _) = ValidationErrorCode"
| "machine_code_of (Io _) = IOErrorCode"
| "machine_code_of (Sql _) = StorageErrorCode"
| "machine_code_of (Persistence _ _ _ _ _ source) = machine_code_of source"

definition protocol_mapping_of :: "error \<Rightarrow> protocol_mapping" where
  "protocol_mapping_of e =
     (let code = machine_code_of e in
      \<lparr> json_rpc_code =
          (if code = ValidationErrorCode \<or> code = PathEscapeErrorCode then -32602 else -32000),
        mcp_code = code_as_str code, cli_exit_code = 2 \<rparr>)"

text \<open>The \<^verbatim>\<open>Display\<close> text of the variants that the public rendering does not override.\<close>

fun display :: "error \<Rightarrow> string" where
  "display (QuotaAdmission q) = quota_display q"
| "display (Validation s) = s"
| "display (NotFound s) = ''unknown agent: '' @ s"
| "display (Transition s) = ''invalid agent transition: '' @ s"
| "display (PathEscape s) = s"
| "display Conflict = ''request identity conflicts with a previously admitted request''"
| "display Capacity = ''agent capacity is exhausted''"
| "display (Unsupported s) = s"
| "display BrokerUnavailable = ''BrokerUnavailable: start `agent-run api serve` for this home''"
| "display (AnswerIntegrity s) = s"
| "display ExecutionChanged = ''current execution differs from the required sequence''"
| "display AnswerHashMismatch = ''current answer differs from the required sha256''"
| "display AnswerUnavailable = ''current execution has no sealed answer''"
| "display (Integrity s) = s"
| "display (Runtime s) = s"
| "display (WriterFailure _) = ''writer operation did not complete''"
| "display (OwnershipCheckpoint _ _) = ''runtime ownership checkpoint failed''"
| "display (Persistence _ _ _ _ _ _) = ''state persistence operation failed''"
| "display (Broker message _) = message"
| "display (Bootstrap _ _ _ message) = message"
| "display (Io s) = s"
| "display (Sql (DatabaseBusy s)) = s"
| "display (Sql (OtherSql s)) = s"
| "display (Json s) = s"

fun public_message :: "error \<Rightarrow> string" where
  "public_message (Io _) = ''local I/O operation failed''"
| "public_message (Sql _) = ''state database operation failed''"
| "public_message (Json _) = ''invalid JSON document''"
| "public_message e = display e"

definition public :: "error \<Rightarrow> public_error" where
  "public e =
     \<lparr> pe_kind = code_as_str (machine_code_of e),
       pe_message = utf8 (take 512 (chars (public_message e))),
       pe_agent_id = (case e of Bootstrap a _ _ _ \<Rightarrow> Some a | _ \<Rightarrow> None),
       pe_failure_kind = (case e of Bootstrap _ k _ _ \<Rightarrow> Some k | _ \<Rightarrow> None),
       pe_failure_stage = (case e of Bootstrap _ _ s _ \<Rightarrow> s | _ \<Rightarrow> None) \<rparr>"

subsection \<open>Machine codes\<close>

interpretation codes: wire_enum all_codes code_as_str
proof unfold_locales
  fix x show "x \<in> set all_codes" by (cases x) (simp_all add: all_codes_def)
next
  show "distinct (map code_as_str all_codes)" by (simp add: all_codes_def)
qed

lemma code_from_wire_iff: "code_from_wire s = Some c \<longleftrightarrow> code_as_str c = s"
  by (simp add: code_from_wire_def codes.find_spelling_iff)

lemma code_from_wire_self: "code_from_wire (code_as_str c) = Some c"
  by (simp add: code_from_wire_iff)

lemma code_from_wire_None: "code_from_wire s = None \<longleftrightarrow> s \<notin> range code_as_str"
  by (simp add: code_from_wire_def codes.find_spelling_None)

text \<open>
  A broker error whose carried code is one the broker derived from an error keeps that
  error's machine code, JSON-RPC number and MCP code at the client; any other carried text, and none,
  is a runtime error.
\<close>

theorem broker_code_roundtrip:
  "machine_code_of (Broker m (Some (mcp_code (protocol_mapping_of e)))) = machine_code_of e
   \<and> protocol_mapping_of (Broker m (Some (mcp_code (protocol_mapping_of e)))) = protocol_mapping_of e
   \<and> (machine_code_of (Broker m code) = RuntimeErrorCode \<longleftrightarrow>
        (case code of None \<Rightarrow> True
         | Some s \<Rightarrow> s \<notin> range code_as_str - {''RuntimeError''}))"
proof (intro conjI)
  show same: "machine_code_of (Broker m (Some (mcp_code (protocol_mapping_of e)))) = machine_code_of e"
    by (simp add: protocol_mapping_of_def Let_def code_from_wire_self)
  then show "protocol_mapping_of (Broker m (Some (mcp_code (protocol_mapping_of e)))) =
      protocol_mapping_of e"
    unfolding protocol_mapping_of_def [of "Broker m _"] same by (simp only: protocol_mapping_of_def)
  show "machine_code_of (Broker m code) = RuntimeErrorCode \<longleftrightarrow>
        (case code of None \<Rightarrow> True | Some s \<Rightarrow> s \<notin> range code_as_str - {''RuntimeError''})"
  proof (cases code)
    case (Some s)
    show ?thesis
    proof (cases "code_from_wire s")
      case None
      with Some show ?thesis using code_from_wire_None [of s] by simp
    next
      case wire: (Some c)
      then have s: "s = code_as_str c" by (simp add: code_from_wire_iff)
      then have "s = ''RuntimeError'' \<longleftrightarrow> c = RuntimeErrorCode"
        using codes.spelling_inj [of c RuntimeErrorCode] by simp
      with Some wire s show ?thesis by simp
    qed
  qed simp
qed

subsection \<open>Secret-safe rendering\<close>

text \<open>
  \<open>scrub f\<close> rewrites the text of every operating-system, database and parser error inside an error,
  however deeply it is wrapped. A rendering that does not depend on these texts is unchanged by it.
\<close>

fun scrub_sql :: "(string \<Rightarrow> string) \<Rightarrow> sql_error \<Rightarrow> sql_error" where
  "scrub_sql f (DatabaseBusy s) = DatabaseBusy (f s)"
| "scrub_sql f (OtherSql s) = OtherSql (f s)"

fun scrub :: "(string \<Rightarrow> string) \<Rightarrow> error \<Rightarrow> error" where
  "scrub f (Io s) = Io (f s)"
| "scrub f (Sql s) = Sql (scrub_sql f s)"
| "scrub f (Json s) = Json (f s)"
| "scrub f (OwnershipCheckpoint stage e) = OwnershipCheckpoint stage (scrub f e)"
| "scrub f (Persistence op ms n ident phase e) = Persistence op ms n ident phase (scrub f e)"
| "scrub f e = e"

lemma machine_code_scrub: "machine_code_of (scrub f e) = machine_code_of e"
  by (induction f e rule: scrub.induct) simp_all

lemma public_message_scrub: "public_message (scrub f e) = public_message e"
  by (cases e) simp_all

lemma is_busy_iff: "is_busy e \<longleftrightarrow> (\<exists>s. e = Sql (DatabaseBusy s))"
  by (cases e rule: is_busy.cases) simp_all

lemma is_busy_scrub [simp]: "is_busy (scrub f e) = is_busy e"
  by (cases e rule: is_busy.cases) simp_all

lemma retryable_scrub: "retryable_ownership_acquire (scrub f e) = retryable_ownership_acquire e"
  by (induction f e rule: scrub.induct) simp_all

lemma chars_utf8_take: "chars (utf8 (take n (chars s))) = take n (chars s)"
  by (rule chars_utf8_sub) (auto dest: in_set_takeD)

text \<open>
  The public envelope of an error does not depend on the text of any operating-system,
  database or JSON error inside it, however deeply wrapped; it shows at most 512 characters.
\<close>

theorem public_hides_sources:
  "public (scrub f e) = public e \<and> length (chars (pe_message (public e))) \<le> 512"
proof -
  have fields: "(case scrub f e of Bootstrap a _ _ _ \<Rightarrow> Some a | _ \<Rightarrow> None) =
      (case e of Bootstrap a _ _ _ \<Rightarrow> Some a | _ \<Rightarrow> None)"
    "(case scrub f e of Bootstrap _ k _ _ \<Rightarrow> Some k | _ \<Rightarrow> None) =
      (case e of Bootstrap _ k _ _ \<Rightarrow> Some k | _ \<Rightarrow> None)"
    "(case scrub f e of Bootstrap _ _ s _ \<Rightarrow> s | _ \<Rightarrow> None) =
      (case e of Bootstrap _ _ s _ \<Rightarrow> s | _ \<Rightarrow> None)"
    by (cases e; simp)+
  show ?thesis
    by (simp add: public_def machine_code_scrub public_message_scrub fields chars_utf8_take)
qed

subsection \<open>The replay predicate\<close>

text \<open>
  Only a failed acquisition of the ownership transaction caused by a busy database is
  replayable, however it is wrapped; writer identity, operation totals and source texts do not widen
  or narrow the predicate, and the counted attempts are the ones last recorded.
\<close>

theorem retryable_acquire_stable:
  "retryable_ownership_acquire (with_writer_identity e oid kind) = retryable_ownership_acquire e
   \<and> retryable_ownership_acquire (persistence_totals e ms n) = retryable_ownership_acquire e
   \<and> retryable_ownership_acquire (scrub f e) = retryable_ownership_acquire e
   \<and> (retryable_ownership_acquire (persistence op ms e) \<longleftrightarrow>
        op = OwnershipAcquire \<and> (\<exists>s. e = Sql (DatabaseBusy s)))
   \<and> persistence_attempts (persistence_totals (ownership_checkpoint stage (persistence op ms e)) ms n)
       = n"
proof (intro conjI)
  show "retryable_ownership_acquire (with_writer_identity e oid kind) = retryable_ownership_acquire e"
    by (cases "(e, oid, kind)" rule: with_writer_identity.cases) auto
  show "retryable_ownership_acquire (persistence_totals e ms n) = retryable_ownership_acquire e"
    by (induction e ms n rule: persistence_totals.induct) simp_all
  show "retryable_ownership_acquire (persistence op ms e) \<longleftrightarrow>
        op = OwnershipAcquire \<and> (\<exists>s. e = Sql (DatabaseBusy s))"
    by (simp add: persistence_def is_busy_iff)
  show "persistence_attempts
      (persistence_totals (ownership_checkpoint stage (persistence op ms e)) ms n) = n"
    by (simp add: persistence_def)
qed (rule retryable_scrub)

end
