(* ===== verification/Domain.thy ===== *)
theory Domain
  imports Errors
begin

section \<open>Requests, identities and the execution lifecycle\<close>

text \<open>
  \<^verbatim>\<open>agent-run-domain/src/domain.rs\<close>, \<^verbatim>\<open>fsm.rs\<close> and the text validators of \<^verbatim>\<open>worker.rs\<close>: the lifecycle
  states with their transition table, agent identities, the validators of public text, orchestrator
  references with their transport aliases, and the start request with the two validation passes. The
  date parser of \<^verbatim>\<open>chrono\<close> and the file system are parameters. The lemmas show that the transition
  table is a finite machine whose terminal states are final, that every validator is a normaliser,
  and what a validated value satisfies.
\<close>

subsection \<open>Constraints and lifecycle states\<close>

datatype constraint =
    WebToolsDisabled | ExternalNetworkIsolation | LoopbackTcpIsolation | UnixIpcIsolation
  | McpIpcIsolation | FilesystemWriteIsolation | FilesystemReadIsolation | PluginImmutability
  | ResearchToolsOnly

definition all_constraints :: "constraint list" where
  "all_constraints =
     [WebToolsDisabled, ExternalNetworkIsolation, LoopbackTcpIsolation, UnixIpcIsolation,
      McpIpcIsolation, FilesystemWriteIsolation, FilesystemReadIsolation, PluginImmutability,
      ResearchToolsOnly]"

datatype status =
  Created | Starting | Running | Cancelling | Succeeded | Failed | TimedOut | Cancelled | Lost

definition all_statuses :: "status list" where
  "all_statuses =
     [Created, Starting, Running, Cancelling, Succeeded, Failed, TimedOut, Cancelled, Lost]"

definition active_statuses :: "status list" where
  "active_statuses = [Created, Starting, Running, Cancelling]"

definition terminal_statuses :: "status list" where
  "terminal_statuses = [Succeeded, Failed, TimedOut, Cancelled, Lost]"

fun terminal :: "status \<Rightarrow> bool" where
  "terminal Succeeded = True"
| "terminal Failed = True"
| "terminal TimedOut = True"
| "terminal Cancelled = True"
| "terminal Lost = True"
| "terminal _ = False"

fun status_as_str :: "status \<Rightarrow> string" where
  "status_as_str Created = ''created''"
| "status_as_str Starting = ''starting''"
| "status_as_str Running = ''running''"
| "status_as_str Cancelling = ''cancelling''"
| "status_as_str Succeeded = ''succeeded''"
| "status_as_str Failed = ''failed''"
| "status_as_str TimedOut = ''timed_out''"
| "status_as_str Cancelled = ''cancelled''"
| "status_as_str Lost = ''lost''"

fun transition_ok :: "status \<Rightarrow> status \<Rightarrow> bool" where
  "transition_ok Created to = (to \<in> {Starting, Cancelled, Failed, Lost})"
| "transition_ok Starting to = (to \<in> {Running, Cancelled, Failed, Lost})"
| "transition_ok Running to = (to \<in> {Succeeded, Failed, Cancelling, Lost})"
| "transition_ok Cancelling to = (to \<in> {Cancelled, Lost})"
| "transition_ok _ to = False"

definition illegal_transition :: "status \<Rightarrow> status \<Rightarrow> error" where
  "illegal_transition current target =
     Transition (status_as_str current @ '' -> '' @ status_as_str target)"

definition transition :: "status \<Rightarrow> status \<Rightarrow> unit res" where
  "transition from to =
     (if transition_ok from to then Inr ()
      else Inl (Transition (status_as_str from @ '' -> '' @ status_as_str to)))"

definition validate_transition :: "status \<Rightarrow> status \<Rightarrow> unit res" where
  "validate_transition current target = transition current target"

definition status_from_str :: "string \<Rightarrow> status res" where
  "status_from_str v =
     ok_or (invalid ''unknown status'') (find (\<lambda>s. status_as_str s = v) all_statuses)"

subsection \<open>Text validators\<close>

definition nul :: char where
  "nul = CHR 0x00"

definition nonblank :: "string \<Rightarrow> string \<Rightarrow> unit res" where
  "nonblank label s =
     (if trim s = [] \<or> nul \<in> set s
      then Inl (invalid (label @ '' must be a nonblank NUL-free string'')) else Inr ())"

definition external_id :: "string \<Rightarrow> string \<Rightarrow> unit res" where
  "external_id label s =
     bindr (nonblank label s) (\<lambda>_.
       if 512 < length (chars s) then Inl (invalid (label @ '' exceeds 512 characters''))
       else Inr ())"

definition MAX_DISPLAY_NAME_CHARS :: nat where
  "MAX_DISPLAY_NAME_CHARS = 64"

definition is_unsafe_label_char :: "nat \<Rightarrow> bool" where
  "is_unsafe_label_char c \<longleftrightarrow>
     is_control c \<or> c = 0x00AD \<or> (0x200E \<le> c \<and> c \<le> 0x200F) \<or> (0x2028 \<le> c \<and> c \<le> 0x202E)
     \<or> (0x2060 \<le> c \<and> c \<le> 0x206F) \<or> c = 0xFEFF"

definition display_name :: "string \<Rightarrow> string res" where
  "display_name label =
     (let trimmed = trim label in
      if trimmed = [] \<or> nul \<in> set trimmed
      then Inl (invalid ''display name must be a nonblank NUL-free string'')
      else if MAX_DISPLAY_NAME_CHARS < length (chars trimmed)
      then Inl (invalid ''display name exceeds 64 characters'')
      else if list_ex is_unsafe_label_char (chars trimmed)
      then Inl (invalid ''display name must not contain control, bidi or format characters'')
      else Inr trimmed)"

definition MAX_TASK_BYTES :: nat where
  "MAX_TASK_BYTES = 512 * 1024"

definition task_text :: "string \<Rightarrow> unit res" where
  "task_text task =
     bindr (nonblank ''task'' task) (\<lambda>_.
       if MAX_TASK_BYTES < length task then Inl (invalid ''task exceeds 512 KiB'') else Inr ())"

text \<open>The en dash of two messages, in UTF-8.\<close>

definition en_dash :: string where
  "en_dash = [CHR 0xE2, CHR 0x80, CHR 0x93]"

definition request_key :: "string \<Rightarrow> unit res" where
  "request_key key =
     (if key = [] \<or> 128 < length key
         \<or> \<not> list_all (\<lambda>b. is_ascii_alphanumeric b \<or> b \<in> set ''-_.'') key
      then Inl (Validation (''request_id must be 1'' @ en_dash @ ''128 safe ASCII bytes''))
      else Inr ())"

definition bounded_text :: "string \<Rightarrow> string \<Rightarrow> nat \<Rightarrow> unit res" where
  "bounded_text label txt max_bytes =
     (if trim txt = [] \<or> max_bytes < length txt
         \<or> list_ex (\<lambda>c. is_control c \<and> c \<noteq> 0x0A \<and> c \<noteq> 0x09) (chars txt)
      then Inl (Validation (label @ '' must be 1'' @ en_dash @ show_nat max_bytes @
             '' UTF-8 bytes without unsupported control characters''))
      else Inr ())"

subsection \<open>Agent identities\<close>

text \<open>
  \<open>datetime_ok\<close> stands for \<^verbatim>\<open>NaiveDateTime::parse_from_str(.., "%Y%m%d-%H%M%S").is_ok()\<close>.
\<close>

definition lower_hex :: "char \<Rightarrow> bool" where
  "lower_hex b \<longleftrightarrow> is_ascii_digit b \<or> (0x61 \<le> byte_of b \<and> byte_of b \<le> 0x66)"

definition agent_id_from_str :: "(string \<Rightarrow> bool) \<Rightarrow> string \<Rightarrow> string res" where
  "agent_id_from_str datetime_ok s =
     (if length s \<noteq> 29 \<or> \<not> is_ascii s \<or> \<not> starts_with s ''ag-'' \<or> s ! 18 \<noteq> CHR ''-''
         \<or> \<not> list_all lower_hex (drop 19 s) \<or> \<not> datetime_ok (take 15 (drop 3 s))
      then Inl (invalid ''agent_id must match ag-YYYYMMDD-HHMMSS-<10 lowercase hex>'')
      else Inr s)"

text \<open>\<open>stamp\<close> is the formatted clock, \<open>uuid\<close> the simple form of a fresh UUID.\<close>

definition agent_id_new :: "string \<Rightarrow> string \<Rightarrow> string" where
  "agent_id_new stamp uuid = ''ag-'' @ stamp @ ''-'' @ take 10 uuid"

subsection \<open>Orchestrator references\<close>

record orchestrator_ref =
  transport :: string
  external_session_id :: string
  external_turn_id :: "string option"

definition canonical_transport_name :: "string \<Rightarrow> string res" where
  "canonical_transport_name t =
     (if t = ''codex'' \<or> t = ''codex_queue'' then Inr ''codex_queue''
      else if t = ''claude'' \<or> t = ''claude_uds'' then Inr ''claude_uds''
      else if t = ''opencode'' then Inr ''opencode''
      else Inl (invalid ''unsupported orchestrator transport''))"

definition canonical_transport :: "orchestrator_ref \<Rightarrow> string res" where
  "canonical_transport r = canonical_transport_name (transport r)"

definition legacy_transport :: "orchestrator_ref \<Rightarrow> string res" where
  "legacy_transport r =
     bindr (canonical_transport r) (\<lambda>c.
       Inr (if c = ''codex_queue'' then ''codex''
            else if c = ''claude_uds'' then ''claude'' else c))"

definition validate_ref :: "orchestrator_ref \<Rightarrow> unit res" where
  "validate_ref r =
     bindr (canonical_transport r) (\<lambda>_.
     bindr (external_id ''external_session_id'' (external_session_id r)) (\<lambda>_.
       case external_turn_id r of
         Some v \<Rightarrow> external_id ''external_turn_id'' v
       | None \<Rightarrow> Inr ()))"

definition normalize_ref :: "orchestrator_ref \<Rightarrow> orchestrator_ref res" where
  "normalize_ref r =
     bindr (validate_ref r) (\<lambda>_.
     bindr (canonical_transport r) (\<lambda>c. Inr (r\<lparr>transport := c\<rparr>)))"

subsection \<open>Start requests\<close>

datatype ping_policy = Off | Observe | Recover

record start_request =
  sr_runtime :: string
  sr_model :: string
  sr_profile :: string
  sr_task :: string
  sr_workdir :: string
  sr_write :: bool
  sr_fast :: bool
  sr_explicit_finish :: bool
  sr_idle_ping :: ping_policy
  sr_effort :: "string option"
  sr_display_name :: "string option"
  sr_read_roots :: "string list"
  sr_output_schema :: "string option"
  sr_orchestrator :: "orchestrator_ref option"
  sr_request_id :: "string option"
  sr_account :: "string option"
  sr_required_constraints :: "constraint set"

text \<open>\<^verbatim>\<open>unique_constraints\<close>: the wire list must not repeat a constraint.\<close>

definition unique_constraints :: "constraint list \<Rightarrow> constraint set res" where
  "unique_constraints a =
     (if length a \<noteq> card (set a) then Inl (Json ''duplicate constraints'') else Inr (set a))"

definition is_absolute :: "string \<Rightarrow> bool" where
  "is_absolute p \<longleftrightarrow> starts_with p ''/''"

text \<open>
  Absolute paths compare by their components: repeated separators, a trailing separator and \<^verbatim>\<open>.\<close>
  components do not matter.
\<close>

fun split_slash :: "string \<Rightarrow> string list" where
  "split_slash [] = [[]]"
| "split_slash (c # s) =
     (if c = CHR ''/'' then [] # split_slash s
      else (case split_slash s of [] \<Rightarrow> [[c]] | p # ps \<Rightarrow> (c # p) # ps))"

definition components :: "string \<Rightarrow> string list" where
  "components p = filter (\<lambda>c. c \<noteq> [] \<and> c \<noteq> ''.'') (split_slash p)"

record filesystem =
  fs_canonicalize :: "string \<Rightarrow> string option"
  fs_is_dir :: "string \<Rightarrow> bool"

definition existing_dir :: "filesystem \<Rightarrow> string \<Rightarrow> string res" where
  "existing_dir fs path =
     (if \<not> is_absolute path
      then Inl (invalid ''path must be an absolute existing directory'')
      else bindr (ok_or (invalid ''directory does not exist'') (fs_canonicalize fs path)) (\<lambda>p.
        if \<not> fs_is_dir fs p then Inl (invalid ''path is not a directory'') else Inr p))"

definition optional_nonblank :: "string \<Rightarrow> string option \<Rightarrow> unit res" where
  "optional_nonblank label v = (case v of Some s \<Rightarrow> nonblank label s | None \<Rightarrow> Inr ())"

definition validate_intent :: "start_request \<Rightarrow> start_request res" where
  "validate_intent r =
     bindr (nonblank ''runtime'' (sr_runtime r)) (\<lambda>_.
     bindr (nonblank ''model'' (sr_model r)) (\<lambda>_.
     bindr (nonblank ''profile'' (sr_profile r)) (\<lambda>_.
     bindr (task_text (sr_task r)) (\<lambda>_.
     if sr_idle_ping r = Recover \<and> \<not> sr_explicit_finish r
     then Inl (invalid ''recover ping requires explicit finish'')
     else
     bindr (optional_nonblank ''effort'' (sr_effort r)) (\<lambda>_.
     bindr (optional_nonblank ''account'' (sr_account r)) (\<lambda>_.
     bindr (optr display_name (sr_display_name r)) (\<lambda>name.
     if \<not> is_absolute (sr_workdir r) \<or> list_ex (\<lambda>p. \<not> is_absolute p) (sr_read_roots r)
     then Inl (invalid ''paths must be absolute'')
     else if has_repeat (map components (sr_read_roots r))
     then Inl (invalid ''read_roots must not contain duplicates'')
     else
     bindr (optr normalize_ref (sr_orchestrator r)) (\<lambda>orch.
     bindr (case sr_request_id r of
              Some i \<Rightarrow> external_id ''request_id'' i
            | None \<Rightarrow> Inr ()) (\<lambda>_.
       Inr (r\<lparr>sr_display_name := name, sr_orchestrator := orch\<rparr>))))))))))"

definition validate_start :: "filesystem \<Rightarrow> start_request \<Rightarrow> start_request res" where
  "validate_start fs r =
     bindr (validate_intent r) (\<lambda>r.
     bindr (existing_dir fs (sr_workdir r)) (\<lambda>wd.
     bindr (mapr (existing_dir fs) (sr_read_roots r)) (\<lambda>roots.
       if has_repeat (map components roots)
       then Inl (invalid ''read_roots must not contain duplicates'')
       else Inr (r\<lparr>sr_workdir := wd, sr_read_roots := roots\<rparr>))))"

subsection \<open>Outcomes\<close>

record outcome =
  oc_status :: status
  oc_exit_code :: "int option"
  oc_failure_kind :: "string option"
  oc_failure_text :: "string option"
  oc_runtime_session_id :: "string option"

definition outcome_success :: "string option \<Rightarrow> outcome" where
  "outcome_success session =
     \<lparr> oc_status = Succeeded, oc_exit_code = Some 0, oc_failure_kind = None,
       oc_failure_text = None, oc_runtime_session_id = session \<rparr>"

definition outcome_failure :: "string \<Rightarrow> outcome" where
  "outcome_failure kind =
     \<lparr> oc_status = Failed, oc_exit_code = None, oc_failure_kind = Some kind,
       oc_failure_text = None, oc_runtime_session_id = None \<rparr>"

subsection \<open>The lifecycle machine\<close>

inductive lifecycle :: "status \<Rightarrow> status \<Rightarrow> bool" where
  step: "validate_transition s t = Inr () \<Longrightarrow> lifecycle s t"

inductive_simps lifecycle_iff: "lifecycle s t"

fun distance_bound :: "status \<Rightarrow> nat" where
  "distance_bound Created = 4"
| "distance_bound Starting = 3"
| "distance_bound Running = 2"
| "distance_bound Cancelling = 1"
| "distance_bound _ = 0"

interpretation statuses: wire_enum all_statuses status_as_str
proof unfold_locales
  fix x show "x \<in> set all_statuses" by (cases x) (simp_all add: all_statuses_def)
next
  show "distinct (map status_as_str all_statuses)" by (simp add: all_statuses_def)
qed

lemma status_from_str_iff [simp]: "status_from_str v = Inr s \<longleftrightarrow> status_as_str s = v"
  by (simp add: status_from_str_def statuses.find_spelling_iff)

lemma status_as_str_inj [simp]: "status_as_str s = status_as_str t \<longleftrightarrow> s = t"
  by (rule statuses.spelling_inj)

lemma validate_transition_iff [simp]: "validate_transition s t = Inr () \<longleftrightarrow> transition_ok s t"
  by (simp add: validate_transition_def transition_def)

lemma lifecycle_ok: "lifecycle s t \<longleftrightarrow> transition_ok s t"
  by (simp add: lifecycle_iff)

lemma lifecycle_decreases: "lifecycle s t \<Longrightarrow> distance_bound t < distance_bound s"
  by (cases s; cases t) (simp_all add: lifecycle_ok)

lemma terminal_iff_stuck: "terminal s \<longleftrightarrow> (\<forall>t. \<not> lifecycle s t)"
  by (cases s) (auto simp: lifecycle_ok)

lemma lifecycle_steps: "(lifecycle ^^ n) s t \<Longrightarrow> n + distance_bound t \<le> distance_bound s"
proof (induction n arbitrary: t)
  case (Suc n)
  then obtain u where "(lifecycle ^^ n) s u" "lifecycle u t" by auto
  with Suc.IH lifecycle_decreases show ?case by fastforce
qed simp

lemma lifecycle_needs_running:
  assumes "(\<lambda>a b. lifecycle a b \<and> a \<noteq> Running)\<^sup>*\<^sup>* Created t"
  shows "t \<notin> {Cancelling, Succeeded}"
  using assms
proof (induction rule: rtranclp_induct)
  case (step y z)
  then show ?case by (cases y; cases z) (auto simp: lifecycle_ok)
qed simp

lemma lifecycle_never_timed_out:
  assumes "lifecycle\<^sup>*\<^sup>* s t" and "t = TimedOut"
  shows "s = TimedOut"
proof -
  have "\<not> lifecycle u TimedOut" for u by (cases u) (simp_all add: lifecycle_ok)
  with assms show ?thesis by (auto elim: rtranclp.cases)
qed

lemma terminal_list_iff:
  "s \<in> set terminal_statuses \<longleftrightarrow> terminal s" "s \<in> set active_statuses \<longleftrightarrow> \<not> terminal s"
  by (cases s; simp add: terminal_statuses_def active_statuses_def)+

text \<open>
  C39 (invariant). The lifecycle is a finite machine: exactly the listed terminal states have no
  successor, every run of accepted transitions from any state has at most four steps, \<^verbatim>\<open>succeeded\<close> and the
  intermediate state \<^verbatim>\<open>cancelling\<close> are reached from a fresh execution only through \<^verbatim>\<open>running\<close> (an execution that
  is not running may be cancelled directly), and \<^verbatim>\<open>timed_out\<close> is never reached from another state.
\<close>

theorem lifecycle_finite_machine:
  "(s \<in> set terminal_statuses \<longleftrightarrow> (\<nexists>t. lifecycle s t))
   \<and> (s \<in> set active_statuses \<longleftrightarrow> (\<exists>t. lifecycle s t))
   \<and> ((lifecycle ^^ n) s t \<longrightarrow> n \<le> 4)
   \<and> ((\<lambda>a b. lifecycle a b \<and> a \<noteq> Running)\<^sup>*\<^sup>* Created u \<longrightarrow> u \<notin> {Cancelling, Succeeded})
   \<and> (lifecycle\<^sup>*\<^sup>* s TimedOut \<longrightarrow> s = TimedOut)"
proof -
  have "distance_bound w \<le> 4" for w by (cases w) simp_all
  then have "(lifecycle ^^ n) s t \<Longrightarrow> n \<le> 4" using lifecycle_steps [of n s t]
    by (meson add_leD1 le_trans)
  then show ?thesis
    by (auto simp: terminal_list_iff terminal_iff_stuck dest: lifecycle_never_timed_out
        lifecycle_needs_running)
qed

theorem lifecycle_finite_machine_witness:
  "(lifecycle ^^ 3) Created Succeeded \<and> (3::nat) \<le> 4"
proof -
  have path: "lifecycle Created Starting" "lifecycle Starting Running" "lifecycle Running Succeeded"
    by (simp_all add: lifecycle_ok)
  then have three: "(lifecycle ^^ 3) Created Succeeded"
    by (auto simp: numeral_3_eq_3)
  then show ?thesis
    using lifecycle_finite_machine [of Created 3 Succeeded] by simp
qed

text \<open>
  Parsing a status spelling succeeds exactly on the nine spellings and inverts
  printing; every refused transition reports both spellings in the persisted error.
\<close>

theorem status_parse_print:
  "status_from_str (status_as_str s) = Inr s
   \<and> (status_from_str v = Inr t \<longleftrightarrow> v = status_as_str t)
   \<and> (status_from_str v = Inl e \<longleftrightarrow> v \<notin> range status_as_str \<and> e = invalid ''unknown status'')
   \<and> validate_transition s t = (if transition_ok s t then Inr () else Inl (illegal_transition s t))"
proof -
  have "status_from_str v = Inl e \<longleftrightarrow> v \<notin> range status_as_str \<and> e = invalid ''unknown status''"
    using statuses.find_spelling_None [of v]
    by (auto simp: status_from_str_def ok_or_def split: option.splits)
  then show ?thesis
    by (auto simp: validate_transition_def transition_def illegal_transition_def)
qed

subsection \<open>Validated text\<close>

lemma display_name_Inr:
  "display_name l = Inr s \<longleftrightarrow>
     s = trim l \<and> s \<noteq> [] \<and> nul \<notin> set s \<and> length (chars s) \<le> MAX_DISPLAY_NAME_CHARS
     \<and> (\<forall>c \<in> set (chars s). \<not> is_unsafe_label_char c)"
  by (auto simp: display_name_def Let_def list_ex_iff not_less)

interpretation label: normaliser display_name
  by unfold_locales (simp add: display_name_Inr)

text \<open>
  A display label that validates is the trimmed input, has 1 to 64 characters, carries no
  control, bidirectional or format character, hence no line break, and validates to itself.
\<close>

theorem display_name_safe:
  assumes "display_name l = Inr s"
  shows "s = trim l \<and> 1 \<le> length (chars s) \<and> length (chars s) \<le> 64
    \<and> (\<forall>c \<in> set (chars s). \<not> is_control c \<and> c \<noteq> 0x0A \<and> c \<notin> {0x2028..0x202E})
    \<and> display_name s = Inr s"
proof -
  have "s \<noteq> []" using assms unfolding display_name_Inr by blast
  then have "chars s \<noteq> []" by simp
  then have "1 \<le> length (chars s)" by (cases "chars s") auto
  moreover have "display_name s = Inr s" using assms by (rule label.norm_fixed)
  ultimately show ?thesis
    using assms
    by (auto simp: display_name_Inr MAX_DISPLAY_NAME_CHARS_def is_unsafe_label_char_def is_control_def)
qed

theorem display_name_safe_witness:
  "display_name ''  Ada  '' = Inr ''Ada'' \<and> display_name ''Ada'' = Inr ''Ada''"
proof -
  have h: "display_name ''  Ada  '' = Inr ''Ada''"
    by (simp add: display_name_def MAX_DISPLAY_NAME_CHARS_def is_unsafe_label_char_def nul_def text_eval)
  with display_name_safe [OF h] show ?thesis by blast
qed

lemma canonical_transport_name_fixed:
  "canonical_transport_name t = Inr c \<Longrightarrow> canonical_transport_name c = Inr c"
  by (auto simp: canonical_transport_name_def split: if_splits)

lemma normalize_ref_Inr:
  "normalize_ref r = Inr r' \<longleftrightarrow>
     validate_ref r = Inr () \<and> (\<exists>c. canonical_transport r = Inr c \<and> r' = r\<lparr>transport := c\<rparr>)"
  by (auto simp: normalize_ref_def)

lemma validate_ref_transport:
  assumes "validate_ref r = Inr ()" and "canonical_transport r = Inr c"
  shows "validate_ref (r\<lparr>transport := c\<rparr>) = Inr ()"
  using assms canonical_transport_name_fixed [of "transport r" c]
  by (auto simp: validate_ref_def canonical_transport_def split: option.splits)

interpretation orchestrator: normaliser normalize_ref
proof unfold_locales
  fix x y assume "normalize_ref x = Inr y"
  then obtain c where "validate_ref x = Inr ()" "canonical_transport x = Inr c"
    "y = x\<lparr>transport := c\<rparr>"
    by (auto simp: normalize_ref_Inr)
  then show "normalize_ref y = Inr y"
    using canonical_transport_name_fixed [of "transport x" c]
    by (auto simp: normalize_ref_Inr canonical_transport_def validate_ref_transport)
qed

text \<open>
  Normalising a reference keeps the session and turn, stores one of the three canonical
  transports, is stable, and the legacy spelling of the stored transport names the same transport.
\<close>

theorem normalize_ref_canonical:
  assumes "normalize_ref r = Inr r'"
  shows "external_session_id r' = external_session_id r \<and> external_turn_id r' = external_turn_id r
    \<and> transport r' \<in> {''codex_queue'', ''claude_uds'', ''opencode''}
    \<and> normalize_ref r' = Inr r' \<and> validate_ref r' = Inr ()
    \<and> (\<exists>l. legacy_transport r' = Inr l \<and> legacy_transport r = Inr l
          \<and> canonical_transport_name l = Inr (transport r'))"
proof -
  from assms obtain c where c: "canonical_transport r = Inr c" "r' = r\<lparr>transport := c\<rparr>"
    by (auto simp: normalize_ref_Inr)
  then have "canonical_transport r' = Inr c"
    by (auto simp: canonical_transport_def dest: canonical_transport_name_fixed)
  moreover have "c \<in> {''codex_queue'', ''claude_uds'', ''opencode''}"
    using c(1) by (auto simp: canonical_transport_def canonical_transport_name_def split: if_splits)
  moreover have fixed: "normalize_ref r' = Inr r'" using assms by (rule orchestrator.norm_fixed)
  moreover have "validate_ref r' = Inr ()" using fixed by (simp add: normalize_ref_Inr)
  ultimately show ?thesis
    using c by (auto simp: legacy_transport_def canonical_transport_name_def)
qed

theorem normalize_ref_canonical_witness:
  "\<exists>r'. normalize_ref \<lparr>transport = ''claude'', external_session_id = ''s'', external_turn_id = None\<rparr>
      = Inr r' \<and> transport r' \<in> {''codex_queue'', ''claude_uds'', ''opencode''}"
proof -
  let ?r = "\<lparr>transport = ''claude'', external_session_id = ''s'', external_turn_id = None\<rparr>"
  have h: "normalize_ref ?r = Inr (?r\<lparr>transport := ''claude_uds''\<rparr>)"
    by (simp add: normalize_ref_def validate_ref_def canonical_transport_def canonical_transport_name_def
        external_id_def nonblank_def nul_def text_eval)
  note n = normalize_ref_canonical [OF h]
  show ?thesis by (intro exI conjI, rule h, rule n [THEN conjunct2, THEN conjunct2, THEN conjunct1])
qed

subsection \<open>Validated requests\<close>

lemma validate_intent_Inr:
  "validate_intent r = Inr r' \<longleftrightarrow>
     nonblank ''runtime'' (sr_runtime r) = Inr () \<and> nonblank ''model'' (sr_model r) = Inr ()
     \<and> nonblank ''profile'' (sr_profile r) = Inr () \<and> task_text (sr_task r) = Inr ()
     \<and> (sr_idle_ping r = Recover \<longrightarrow> sr_explicit_finish r)
     \<and> optional_nonblank ''effort'' (sr_effort r) = Inr ()
     \<and> optional_nonblank ''account'' (sr_account r) = Inr ()
     \<and> is_absolute (sr_workdir r) \<and> list_all is_absolute (sr_read_roots r)
     \<and> distinct (map components (sr_read_roots r))
     \<and> (case sr_request_id r of Some i \<Rightarrow> external_id ''request_id'' i | None \<Rightarrow> Inr ()) = Inr ()
     \<and> (\<exists>name orch. optr display_name (sr_display_name r) = Inr name
          \<and> optr normalize_ref (sr_orchestrator r) = Inr orch
          \<and> r' = r\<lparr>sr_display_name := name, sr_orchestrator := orch\<rparr>)"
  by (auto simp: validate_intent_def list_ex_iff list_all_iff)

interpretation intent: normaliser validate_intent
proof unfold_locales
  fix x y assume "validate_intent x = Inr y"
  then show "validate_intent y = Inr y"
    unfolding validate_intent_Inr
    by (elim conjE exE) (simp add: label.optr_norm_fixed orchestrator.optr_norm_fixed)
qed

lemma existing_dir_Inr:
  "existing_dir fs p = Inr q \<longleftrightarrow> is_absolute p \<and> fs_canonicalize fs p = Some q \<and> fs_is_dir fs q"
  by (auto simp: existing_dir_def)

lemma validate_intent_paths:
  assumes "validate_intent r = Inr r" and "is_absolute wd" and "\<forall>p \<in> set roots. is_absolute p"
    and "distinct (map components roots)"
  shows "validate_intent (r\<lparr>sr_workdir := wd, sr_read_roots := roots\<rparr>) =
    Inr (r\<lparr>sr_workdir := wd, sr_read_roots := roots\<rparr>)"
  using assms unfolding validate_intent_Inr by (cases r) (auto simp: list_all_iff)

text \<open>
  Where canonicalisation gives absolute paths that canonicalise to themselves, an admitted start
  request validates again to itself.
\<close>

lemma validate_start_replays:
  assumes "\<forall>p q. fs_canonicalize fs p = Some q \<longrightarrow> is_absolute q \<and> fs_canonicalize fs q = Some q"
    and "validate_start fs r = Inr r'"
  shows "validate_start fs r' = Inr r' \<and> validate_intent r' = Inr r'
    \<and> fs_is_dir fs (sr_workdir r') \<and> (\<forall>p \<in> set (sr_read_roots r'). fs_is_dir fs p)
    \<and> distinct (map components (sr_read_roots r')) \<and> sr_task r' = sr_task r"
proof -
  from assms(2) obtain s wd roots where
    s: "validate_intent r = Inr s" and wd: "existing_dir fs (sr_workdir s) = Inr wd"
    and roots: "mapr (existing_dir fs) (sr_read_roots s) = Inr roots"
    and d: "distinct (map components roots)"
    and r': "r' = s\<lparr>sr_workdir := wd, sr_read_roots := roots\<rparr>"
    by (auto simp: validate_start_def split: if_splits)
  have fixed: "existing_dir fs q = Inr q" if "existing_dir fs p = Inr q" for p q
    using that assms(1) by (auto simp: existing_dir_Inr)
  have roots': "mapr (existing_dir fs) roots = Inr roots"
    by (rule normaliser.mapr_norm_fixed [OF normaliser.intro [OF fixed] roots])
  then have "\<forall>p \<in> set roots. existing_dir fs p = Inr p" by (simp add: mapr_id)
  moreover have "existing_dir fs wd = Inr wd" using wd by (rule fixed)
  moreover have "validate_intent s = Inr s" using s by (rule intent.norm_fixed)
  ultimately have "validate_intent r' = Inr r'"
    unfolding r' using d by (intro validate_intent_paths) (auto simp: existing_dir_Inr)
  moreover have "sr_task s = sr_task r"
    using s unfolding validate_intent_Inr by auto
  ultimately show ?thesis
    using roots' d wd fixed [OF wd] \<open>\<forall>p \<in> set roots. existing_dir fs p = Inr p\<close>
    by (auto simp: validate_start_def r' existing_dir_Inr)
qed

end
