(* ===== verification/ProviderStart.thy ===== *)
theory ProviderStart
  imports Domain
begin

text \<open>
  Provider start requests, from \<^verbatim>\<open>crates/agent-run-domain/src/provider_start.rs\<close>: the record, the
  normalisation of the required MCP servers, the projection to the stored start request, and the two
  validators. A \<^verbatim>\<open>BTreeMap\<close> is its list of entries in ascending key order; \<^verbatim>\<open>ProviderId\<close>,
  \<^verbatim>\<open>AccountLabel\<close> and the opaque output schema are their text.
\<close>

section \<open>Model\<close>

record provider_start =
  ps_provider :: string
  ps_model :: string
  ps_profile :: string
  ps_task :: string
  ps_workdir :: string
  ps_write :: bool
  ps_read_roots :: "string list"
  ps_account :: "string option"
  ps_effort :: "string option"
  ps_display_name :: "string option"
  ps_fast :: bool
  ps_explicit_finish :: bool
  ps_idle_ping :: ping_policy
  ps_output_schema :: "string option"
  ps_request_id :: "string option"
  ps_orchestrator :: "orchestrator_ref option"
  ps_required_constraints :: "constraint set"
  ps_required_mcp :: "(string \<times> string list) list"

definition mcp_name :: "string \<Rightarrow> bool" where
  "mcp_name v \<longleftrightarrow>
     1 \<le> length v \<and> length v \<le> 128
     \<and> list_all (\<lambda>b. is_ascii_alphanumeric b \<or> b \<in> set ''_.-'') v"

fun adjacent_equal :: "'a list \<Rightarrow> bool" where
  "adjacent_equal (x # y # zs) = (x = y \<or> adjacent_equal (y # zs))"
| "adjacent_equal _ = False"

definition normalize_mcp_entry :: "string \<times> string list \<Rightarrow> (string \<times> string list) res" where
  "normalize_mcp_entry e =
     (let server = fst e; tools = snd e in
      if \<not> mcp_name server \<or> \<not> is_ascii_alphanumeric (hd server) \<or> 32 < length tools
         \<or> list_ex (\<lambda>t. \<not> mcp_name t) tools
      then Inl (invalid ''required_mcp requires bounded exact server and tool names'')
      else if adjacent_equal (sort tools) then Inl (invalid ''duplicate required MCP tool'')
      else Inr (server, sort tools))"

definition normalize_required_mcp ::
    "(string \<times> string list) list \<Rightarrow> (string \<times> string list) list res" where
  "normalize_required_mcp requirements =
     (if 8 < length requirements then Inl (invalid ''required_mcp exceeds eight servers'')
      else mapr normalize_mcp_entry requirements)"

definition storage_projection :: "provider_start \<Rightarrow> start_request" where
  "storage_projection p =
     \<lparr> sr_runtime = ps_provider p, sr_model = ps_model p, sr_profile = ps_profile p,
       sr_task = ps_task p, sr_workdir = ps_workdir p, sr_write = ps_write p, sr_fast = ps_fast p,
       sr_explicit_finish = ps_explicit_finish p, sr_idle_ping = ps_idle_ping p,
       sr_effort = ps_effort p, sr_display_name = ps_display_name p,
       sr_read_roots = ps_read_roots p, sr_output_schema = ps_output_schema p,
       sr_orchestrator = ps_orchestrator p, sr_request_id = ps_request_id p,
       sr_account = ps_account p, sr_required_constraints = ps_required_constraints p \<rparr>"

definition validate_provider_start :: "filesystem \<Rightarrow> provider_start \<Rightarrow> provider_start res" where
  "validate_provider_start fs p =
     bindr (normalize_required_mcp (ps_required_mcp p)) (\<lambda>mcp.
     bindr (validate_start fs (storage_projection p)) (\<lambda>j.
       Inr (p\<lparr> ps_required_mcp := mcp, ps_workdir := sr_workdir j,
               ps_read_roots := sr_read_roots j, ps_display_name := sr_display_name j,
               ps_orchestrator := sr_orchestrator j \<rparr>)))"

definition validate_provider_intent :: "provider_start \<Rightarrow> provider_start res" where
  "validate_provider_intent p =
     bindr (normalize_required_mcp (ps_required_mcp p)) (\<lambda>mcp.
     bindr (validate_intent (storage_projection p)) (\<lambda>j.
       Inr (p\<lparr> ps_required_mcp := mcp, ps_display_name := sr_display_name j,
               ps_orchestrator := sr_orchestrator j \<rparr>)))"

section \<open>Properties\<close>

lemma adjacent_equal_sorted: "sorted xs \<Longrightarrow> adjacent_equal xs \<longleftrightarrow> \<not> distinct xs"
  by (induction xs rule: adjacent_equal.induct) auto

lemma normalize_mcp_entry_Inr:
  "normalize_mcp_entry (server, tools) = Inr e \<longleftrightarrow>
     mcp_name server \<and> is_ascii_alphanumeric (hd server) \<and> length tools \<le> 32
     \<and> (\<forall>t \<in> set tools. mcp_name t) \<and> distinct tools \<and> e = (server, sort tools)"
  by (auto simp: normalize_mcp_entry_def adjacent_equal_sorted list_ex_iff)

interpretation mcp_entry: normaliser normalize_mcp_entry
proof unfold_locales
  fix x y assume "normalize_mcp_entry x = Inr y"
  then show "normalize_mcp_entry y = Inr y"
    by (cases x) (auto simp: normalize_mcp_entry_Inr sort_key_id_if_sorted)
qed

interpretation mcp: normaliser normalize_required_mcp
proof unfold_locales
  fix x y assume h: "normalize_required_mcp x = Inr y"
  then have "mapr normalize_mcp_entry x = Inr y" "length x \<le> 8"
    by (auto simp: normalize_required_mcp_def split: if_splits)
  moreover from this have "length y = length x" by (simp add: mapr_length)
  ultimately show "normalize_required_mcp y = Inr y"
    by (simp add: normalize_required_mcp_def mcp_entry.mapr_norm_fixed)
qed

text \<open>The projection of a validated request is the validated projection.\<close>

lemma validate_start_frame:
  assumes "validate_start fs r = Inr j"
  shows "j = r\<lparr>sr_workdir := sr_workdir j, sr_read_roots := sr_read_roots j,
               sr_display_name := sr_display_name j, sr_orchestrator := sr_orchestrator j\<rparr>"
proof -
  from assms obtain s wd roots where s: "validate_intent r = Inr s"
    and j: "j = s\<lparr>sr_workdir := wd, sr_read_roots := roots\<rparr>"
    unfolding validate_start_def by (auto split: if_splits)
  from s obtain name orch where "s = r\<lparr>sr_display_name := name, sr_orchestrator := orch\<rparr>"
    unfolding validate_intent_Inr by blast
  with j show ?thesis by (cases r) simp
qed

lemma validate_provider_start_Inr:
  assumes "validate_provider_start fs p = Inr q"
  shows "normalize_required_mcp (ps_required_mcp p) = Inr (ps_required_mcp q)
    \<and> validate_start fs (storage_projection p) = Inr (storage_projection q)
    \<and> ps_task q = ps_task p"
proof -
  from assms obtain mcp j where m: "normalize_required_mcp (ps_required_mcp p) = Inr mcp"
    and j: "validate_start fs (storage_projection p) = Inr j"
    and q: "q = p\<lparr> ps_required_mcp := mcp, ps_workdir := sr_workdir j,
               ps_read_roots := sr_read_roots j, ps_display_name := sr_display_name j,
               ps_orchestrator := sr_orchestrator j \<rparr>"
    unfolding validate_provider_start_def by auto
  note validate_start_frame [OF j]
  also have "(storage_projection p)\<lparr>sr_workdir := sr_workdir j, sr_read_roots := sr_read_roots j,
      sr_display_name := sr_display_name j, sr_orchestrator := sr_orchestrator j\<rparr> = storage_projection q"
    by (simp add: q storage_projection_def)
  finally have "validate_start fs (storage_projection p) = Inr (storage_projection q)" using j by simp
  with m show ?thesis by (simp add: q)
qed

lemma provider_intent_same:
  assumes "validate_intent (storage_projection q) = Inr (storage_projection q)"
    and "normalize_required_mcp (ps_required_mcp q) = Inr (ps_required_mcp q)"
  shows "validate_provider_intent q = Inr q"
  using assms by (simp add: validate_provider_intent_def) (simp add: storage_projection_def)

lemma provider_start_same:
  assumes "validate_start fs (storage_projection q) = Inr (storage_projection q)"
    and "normalize_required_mcp (ps_required_mcp q) = Inr (ps_required_mcp q)"
  shows "validate_provider_start fs q = Inr q"
  using assms by (simp add: validate_provider_start_def) (simp add: storage_projection_def)

lemma mcp_tools_sorted:
  assumes "normalize_required_mcp m = Inr m'" and "(server, tools) \<in> set m'"
  shows "sorted tools \<and> distinct tools \<and> length tools \<le> 32"
proof -
  have "mapr normalize_mcp_entry m' = Inr m'"
    using mcp.norm_fixed [OF assms(1)] by (auto simp: normalize_required_mcp_def split: if_splits)
  then have "normalize_mcp_entry (server, tools) = Inr (server, tools)"
    using assms(2) by (auto simp: mapr_id)
  then show ?thesis using sorted_sort [of tools] by (simp add: normalize_mcp_entry_Inr)
qed

text \<open>
  Where canonicalisation gives absolute paths that canonicalise to themselves, an
  admitted provider request validates again to itself, by both validators, so an exact replay keeps
  its identity. Its directories exist and are distinct, its tool sets are sorted without repetition,
  and its task is the caller's.
\<close>

theorem provider_start_replays:
  assumes "\<forall>p q. fs_canonicalize fs p = Some q \<longrightarrow> is_absolute q \<and> fs_canonicalize fs q = Some q"
    and "validate_provider_start fs p = Inr q"
  shows "validate_provider_start fs q = Inr q \<and> validate_provider_intent q = Inr q
    \<and> fs_is_dir fs (ps_workdir q) \<and> (\<forall>d \<in> set (ps_read_roots q). fs_is_dir fs d)
    \<and> distinct (map components (ps_read_roots q)) \<and> ps_task q = ps_task p
    \<and> (\<forall>(server, tools) \<in> set (ps_required_mcp q). sorted tools \<and> distinct tools \<and> length tools \<le> 32)"
proof -
  note v = validate_provider_start_Inr [OF assms(2)]
  then have mcp: "normalize_required_mcp (ps_required_mcp p) = Inr (ps_required_mcp q)" by blast
  have start: "validate_start fs (storage_projection p) = Inr (storage_projection q)" using v by blast
  note fixed = validate_start_replays [OF assms(1) start]
  have mcp': "normalize_required_mcp (ps_required_mcp q) = Inr (ps_required_mcp q)"
    by (rule mcp.norm_fixed [OF mcp])
  have "validate_provider_start fs q = Inr q" "validate_provider_intent q = Inr q"
    using fixed by (blast intro: provider_start_same provider_intent_same mcp')+
  with v fixed mcp_tools_sorted [OF mcp] show ?thesis
    by (auto simp: storage_projection_def)
qed

definition sample_provider_start :: provider_start where
  "sample_provider_start =
     \<lparr> ps_provider = ''r'', ps_model = ''m'', ps_profile = ''p'', ps_task = ''t'', ps_workdir = ''/w'',
       ps_write = False, ps_read_roots = [''/a'', ''/b''], ps_account = None, ps_effort = None,
       ps_display_name = Some ''A'', ps_fast = False, ps_explicit_finish = True,
       ps_idle_ping = Recover, ps_output_schema = None, ps_request_id = None,
       ps_orchestrator = None, ps_required_constraints = {}, ps_required_mcp = [(''s'', [''b'', ''a''])] \<rparr>"

definition sample_fs :: filesystem where
  "sample_fs =
     \<lparr> fs_canonicalize = (\<lambda>p. if is_absolute p then Some p else None), fs_is_dir = (\<lambda>_. True) \<rparr>"

lemmas start_eval =
  validate_start_def validate_intent_def existing_dir_def optional_nonblank_def nonblank_def
  task_text_def MAX_TASK_BYTES_def display_name_def MAX_DISPLAY_NAME_CHARS_def
  is_unsafe_label_char_def is_absolute_def components_def ok_or_def nul_def text_eval

lemma sample_provider_start_valid:
  "validate_provider_start sample_fs sample_provider_start =
     Inr (sample_provider_start\<lparr>ps_required_mcp := [(''s'', [''a'', ''b''])]\<rparr>)"
  by (simp add: validate_provider_start_def normalize_required_mcp_def normalize_mcp_entry_def
      mcp_name_def storage_projection_def sample_provider_start_def sample_fs_def start_eval
      del: bindr_eq_Inr)

theorem provider_start_replays_witness:
  "validate_provider_start sample_fs sample_provider_start =
     Inr (sample_provider_start\<lparr>ps_required_mcp := [(''s'', [''a'', ''b''])]\<rparr>)
   \<and> distinct (map components (ps_read_roots sample_provider_start))"
proof -
  have fs: "\<forall>p q. fs_canonicalize sample_fs p = Some q \<longrightarrow>
      is_absolute q \<and> fs_canonicalize sample_fs q = Some q"
    by (auto simp: sample_fs_def split: if_splits)
  from provider_start_replays [OF fs sample_provider_start_valid] sample_provider_start_valid
  show ?thesis by simp
qed

end
