(* ===== verification/WorkerDomain.thy ===== *)
theory WorkerDomain
  imports Domain
begin

text \<open>
  Worker-facing requests, from \<^verbatim>\<open>crates/agent-run-domain/src/worker.rs\<close>: finish requests, saved reports,
  notifications, the tool names and the reviewed catalogs. Output schemas, JSON parsing and the digests
  of the embedded catalogs are parameters: they come from \<^verbatim>\<open>jsonschema\<close>, \<^verbatim>\<open>serde_json\<close> and
  \<^verbatim>\<open>sha2\<close>.
\<close>

section \<open>Model\<close>

subsection \<open>Finish\<close>

datatype finish_status = Done | Blocked | FinishFailed

datatype finish_guard = GuardUnavailable | GuardSecret | GuardClean

record finish_request =
  fr_summary :: string
  fr_status :: finish_status

definition validate_finish :: "finish_request \<Rightarrow> unit res" where
  "validate_finish r = bounded_text ''finish summary'' (fr_summary r) 65536"

text \<open>
  \<open>compile schema\<close> gives the validator of a schema that compiles without external resolution, and
  \<open>parse_json\<close> the value of a JSON text.
\<close>

definition finish_schema :: "('s \<Rightarrow> ('j \<Rightarrow> bool) option) \<Rightarrow> 's \<Rightarrow> ('j \<Rightarrow> bool) res" where
  "finish_schema compile schema =
     ok_or (Validation ''explicit finish output_schema is invalid or requires external resolution'')
       (compile schema)"

definition validate_schema ::
    "('s \<Rightarrow> ('j \<Rightarrow> bool) option) \<Rightarrow> (string \<Rightarrow> 'j option) \<Rightarrow> finish_request \<Rightarrow> 's option \<Rightarrow> unit res" where
  "validate_schema compile parse_json r schema =
     bindr (validate_finish r) (\<lambda>_.
     case schema of
       None \<Rightarrow> Inr ()
     | Some s \<Rightarrow>
         bindr (finish_schema compile s) (\<lambda>validator.
         bindr (ok_or (Validation ''finish summary must be JSON for output_schema'')
                  (parse_json (fr_summary r))) (\<lambda>inst.
           if \<not> validator inst then Inl (Validation ''finish summary does not match output_schema'')
           else Inr ())))"

record finish_receipt =
  fin_sha256 :: string
  fin_duplicate :: bool

subsection \<open>Catalogs\<close>

definition POOL_CATALOG_VERSION :: nat where
  "POOL_CATALOG_VERSION = 1"

definition FINISH_CATALOG_VERSION :: nat where
  "FINISH_CATALOG_VERSION = 4"

text \<open>The digests of the embedded catalogs; the boolean selects the research surface.\<close>

record catalog_digests =
  cd_pool :: string
  cd_research :: string
  cd_finish_v2 :: "bool \<Rightarrow> string"
  cd_finish_v3 :: "bool \<Rightarrow> string"
  cd_finish :: "bool \<Rightarrow> string"

definition known_pool_catalog :: "catalog_digests \<Rightarrow> nat \<Rightarrow> string \<Rightarrow> bool" where
  "known_pool_catalog d version digest \<longleftrightarrow>
     (version = POOL_CATALOG_VERSION \<and> (digest = cd_pool d \<or> digest = cd_research d))
     \<or> (version = 2 \<and> list_ex (\<lambda>research. cd_finish_v2 d research = digest) [False, True])
     \<or> (version = 3 \<and> list_ex (\<lambda>research. cd_finish_v3 d research = digest) [False, True])
     \<or> (version = FINISH_CATALOG_VERSION
         \<and> (digest = cd_finish d False \<or> digest = cd_finish d True))"

subsection \<open>Reports\<close>

record save_report_request =
  rp_filename :: string
  rp_content :: string

definition ends_with :: "string \<Rightarrow> string \<Rightarrow> bool" where
  "ends_with s suf \<longleftrightarrow> starts_with (rev s) (rev suf)"

definition validate_save_report :: "save_report_request \<Rightarrow> unit res" where
  "validate_save_report r =
     (let name = rp_filename r in
      if name = [] \<or> 128 < length name \<or> starts_with name ''.'' \<or> CHR ''/'' \<in> set name
         \<or> char_of (92::nat) \<in> set name \<or> list_ex is_control (chars name)
         \<or> \<not> list_ex (ends_with name) [''.md'', ''.txt'', ''.json'']
      then Inl (Validation (''report filename must be a single non-hidden .md, .txt or .json name '' @
             ''inside the assigned directory''))
      else bounded_text ''report content'' (rp_content r) 65536)"

subsection \<open>Notifications\<close>

datatype worker_message_kind = Notice | Risk | Question | Blocker

definition all_message_kinds :: "worker_message_kind list" where
  "all_message_kinds = [Notice, Risk, Question, Blocker]"

fun message_kind_as_str :: "worker_message_kind \<Rightarrow> string" where
  "message_kind_as_str Notice = ''notice''"
| "message_kind_as_str Risk = ''risk''"
| "message_kind_as_str Question = ''question''"
| "message_kind_as_str Blocker = ''blocker''"

record notify_request =
  nr_request_id :: string
  nr_kind :: worker_message_kind
  nr_message :: string

definition validate_notify :: "notify_request \<Rightarrow> unit res" where
  "validate_notify r =
     bindr (request_key (nr_request_id r)) (\<lambda>_. bounded_text ''message'' (nr_message r) 2048)"

record notify_receipt =
  nt_notification_id :: string
  nt_state :: string
  nt_duplicate :: bool

subsection \<open>Tools\<close>

datatype worker_tool =
  ToolFinish | ToolHealthReply | ToolNotify | ToolSaveReport | ToolPoolPost | ToolPoolRead
  | ToolPoolPropose | ToolPoolVote

fun tool_as_str :: "worker_tool \<Rightarrow> string" where
  "tool_as_str ToolFinish = ''finish''"
| "tool_as_str ToolHealthReply = ''health_reply''"
| "tool_as_str ToolNotify = ''notify_orchestrator''"
| "tool_as_str ToolSaveReport = ''save_report''"
| "tool_as_str ToolPoolPost = ''pool_post''"
| "tool_as_str ToolPoolRead = ''pool_read''"
| "tool_as_str ToolPoolPropose = ''pool_propose''"
| "tool_as_str ToolPoolVote = ''pool_vote''"

definition all_tools :: "worker_tool list" where
  "all_tools =
     [ToolFinish, ToolHealthReply, ToolNotify, ToolSaveReport, ToolPoolPost, ToolPoolRead,
      ToolPoolPropose, ToolPoolVote]"

definition tool_parse :: "string \<Rightarrow> worker_tool option" where
  "tool_parse name = find (\<lambda>t. tool_as_str t = name) all_tools"

section \<open>Properties\<close>

interpretation tools: wire_enum all_tools tool_as_str
proof unfold_locales
  fix x show "x \<in> set all_tools" by (cases x) (simp_all add: all_tools_def)
qed (simp add: all_tools_def)

interpretation message_kinds: wire_enum all_message_kinds message_kind_as_str
proof unfold_locales
  fix x show "x \<in> set all_message_kinds" by (cases x) (simp_all add: all_message_kinds_def)
qed (simp add: all_message_kinds_def)

lemma ends_with_suffix: "ends_with s suf \<longleftrightarrow> (\<exists>p. s = p @ suf)"
  by (auto simp: ends_with_def starts_with_prefix prefix_def) (metis rev_append rev_rev_ident)

lemma split_slash_no_slash: "CHR ''/'' \<notin> set s \<Longrightarrow> split_slash s = [s]"
  by (induction s) auto

lemma bounded_text_Inr:
  "bounded_text label t n = Inr () \<longleftrightarrow>
     trim t \<noteq> [] \<and> length t \<le> n \<and> (\<forall>c \<in> set (chars t). is_control c \<longrightarrow> c = 0x0A \<or> c = 0x09)"
  by (auto simp: bounded_text_def list_ex_iff not_less)

lemma request_key_Inr:
  "request_key k = Inr () \<longleftrightarrow>
     k \<noteq> [] \<and> length k \<le> 128 \<and> (\<forall>b \<in> set k. is_ascii_alphanumeric b \<or> b \<in> set ''-_.'')"
  by (auto simp: request_key_def list_all_iff not_less)

text \<open>
  A report name that validates is one path component of the assigned directory: it has no
  separator of either kind, is neither hidden nor \<^verbatim>\<open>.\<close> or \<^verbatim>\<open>..\<close>, and ends in a report extension; the
  content is bounded and not blank.
\<close>

theorem save_report_confined:
  assumes "validate_save_report r = Inr ()"
  shows "components (rp_filename r) = [rp_filename r] \<and> rp_filename r \<noteq> ''..''
    \<and> \<not> is_absolute (rp_filename r) \<and> char_of (92::nat) \<notin> set (rp_filename r)
    \<and> (\<exists>stem ext. rp_filename r = stem @ ext \<and> stem \<noteq> [] \<and> ext \<in> {''.md'', ''.txt'', ''.json''})
    \<and> length (rp_content r) \<le> 65536 \<and> trim (rp_content r) \<noteq> []"
proof -
  let ?n = "rp_filename r"
  have n: "?n \<noteq> []" "\<not> starts_with ?n ''.''" "CHR ''/'' \<notin> set ?n" "char_of (92::nat) \<notin> set ?n"
    and e: "list_ex (ends_with ?n) [''.md'', ''.txt'', ''.json'']"
    and b: "bounded_text ''report content'' (rp_content r) 65536 = Inr ()"
    using assms by (auto simp: validate_save_report_def Let_def split: if_splits)
  have "components ?n = [?n]"
    using n(1-3) by (auto simp: components_def split_slash_no_slash starts_with_def)
  moreover have "\<not> is_absolute ?n"
    using n(1,3) by (cases ?n) (auto simp: is_absolute_def starts_with_def)
  moreover have "?n \<noteq> ''..''" using n(2) by (auto simp: starts_with_def)
  moreover have "\<exists>stem ext. ?n = stem @ ext \<and> stem \<noteq> [] \<and> ext \<in> {''.md'', ''.txt'', ''.json''}"
  proof -
    from e obtain stem ext where s: "?n = stem @ ext" "ext \<in> {''.md'', ''.txt'', ''.json''}"
      by (auto simp: ends_with_suffix)
    with n(2) have "stem \<noteq> []" by (auto simp: starts_with_def)
    with s show ?thesis by blast
  qed
  ultimately show ?thesis using n(4) b by (simp add: bounded_text_Inr)
qed

theorem save_report_confined_witness:
  "validate_save_report \<lparr> rp_filename = ''a.md'', rp_content = ''ok'' \<rparr> = Inr ()
   \<and> components ''a.md'' = [''a.md'']"
proof -
  have h: "validate_save_report \<lparr> rp_filename = ''a.md'', rp_content = ''ok'' \<rparr> = Inr ()"
    by (simp add: validate_save_report_def ends_with_def bounded_text_def text_eval)
  from save_report_confined [OF h] h show ?thesis by simp
qed

end
