(* ===== verification/PoolRender.thy ===== *)
theory PoolRender
  imports PoolDomain
begin

text \<open>
  What the pool renderers promise: a rendered log entry determines its stamped header and its body, a
  rendered notice is the trusted frame around the stored message, and a notice fitted to a transport is
  the longest legal prefix that fits.
\<close>

section \<open>Framing\<close>

lemma cut_unique:
  assumes "xs @ c # ys = xs' @ c # ys'" and "c \<notin> set xs" and "c \<notin> set xs'"
  shows "xs = xs' \<and> ys = ys'"
  using assms
proof (induction xs arbitrary: xs')
  case Nil then show ?case by (cases xs') auto
next
  case (Cons x xs) then show ?case by (cases xs') auto
qed

lemma line_unique:
  assumes "xs @ nl @ ys = xs' @ nl @ ys'" and "CHR 0x0A \<notin> set xs" and "CHR 0x0A \<notin> set xs'"
  shows "xs = xs' \<and> ys = ys'"
  using assms by (auto simp: nl_def dest: cut_unique)

declare show_nat_inj [simp]

lemma show_nat_no:
  assumes "\<not> is_ascii_digit c" shows "c \<notin> set (show_nat n)"
  using assms show_nat_digits by blast

lemma show_nat_no_blank [simp]:
  "CHR 0x0A \<notin> set (show_nat n)" "CHR '' '' \<notin> set (show_nat n)"
  by (rule show_nat_no, simp add: is_ascii_digit_def)+

lemma show_nat_cut:
  "show_nat m @ CHR '' '' # s = show_nat n @ CHR '' '' # t \<longleftrightarrow> m = n \<and> s = t"
  using cut_unique [of "show_nat m" "CHR '' ''" s "show_nat n" t] by auto

lemma ascii_byte_in_utf8:
  assumes "b \<in> set (utf8 cs)" and "byte_of b < 0x80" and "list_all (\<lambda>c. c < 0x200000) cs"
  shows "byte_of b \<in> set cs"
proof -
  have "byte_of b = c" if "b \<in> set (utf8_char c)" and "c < 0x200000" for c
  proof (cases "c < 0x80")
    case True
    with that(1) show ?thesis by (simp add: utf8_char_simps)
  next
    case False
    from that(2) have "0x80 \<le> byte_of b"
      using that(1) False
      by (cases c rule: code_point_cases) (auto simp: utf8_char_simps byte_lead byte_low)
    with assms(2) show ?thesis by simp
  qed
  with assms show ?thesis by (auto simp: utf8_def list_all_iff)
qed

lemma label_no_newline:
  assumes "display_name l = Inr l"
  shows "CHR 0x0A \<notin> set l"
proof
  assume nl: "CHR 0x0A \<in> set l"
  have l: "l = utf8 (trim_chars (chars l))"
    using assms unfolding display_name_Inr trim_def by blast
  have "list_all (\<lambda>c. c < 0x200000) (trim_chars (chars l))"
    using chars_bounded [of l] trim_chars_subset [of "chars l"] by (auto simp: list_all_iff)
  with nl l have "0x0A \<in> set (trim_chars (chars l))"
    using ascii_byte_in_utf8 [of "CHR 0x0A" "trim_chars (chars l)"] by simp
  then have "0x0A \<in> set (chars l)" using trim_chars_subset by blast
  moreover have "is_unsafe_label_char 0x0A" by (simp add: is_unsafe_label_char_def is_control_def)
  ultimately show False using assms unfolding display_name_Inr by blast
qed

section \<open>Log entries\<close>

text \<open>
  The types of an entry view, as the broker stamps them: labels are the stored, already normalised
  ones, and an agent identity has the minted shape, 29 bytes without a line break.
\<close>

definition stamped :: "pool_entry_view \<Rightarrow> bool" where
  "stamped e \<longleftrightarrow>
     (\<forall>l \<in> set (flatten [ev_author_name e, ev_author_role e]). display_name l = Inr l)
     \<and> (\<forall>i. ev_author_agent_id e = Some i \<longrightarrow> length i = 29 \<and> CHR 0x0A \<notin> set i)"

lemma validate_entry_Inr:
  "validate_entry e = Inr () \<Longrightarrow>
     entry_shape_ok e
     \<and> (ev_author_kind e = AuthorMember \<longleftrightarrow> ev_author_agent_id e \<noteq> None)
     \<and> (ev_author_kind e = AuthorMember \<longleftrightarrow> ev_author_name e \<noteq> None)
     \<and> (ev_author_kind e = AuthorMember \<longleftrightarrow> ev_author_role e \<noteq> None)"
  by (auto simp: validate_entry_def split: if_splits)

lemma entry_from_cases:
  assumes "validate_entry e = Inr ()"
  obtains (member) n r i where "ev_author_kind e = AuthorMember" "ev_author_name e = Some n"
      "ev_author_role e = Some r" "ev_author_agent_id e = Some i"
      "entry_from e = n @ '' ('' @ r @ '', '' @ i @ '')''"
    | (operator) "ev_author_kind e = AuthorOperator" "ev_author_agent_id e = None" "entry_from e = ''orchestrator''"
    | (broker) "ev_author_kind e = AuthorBroker" "ev_author_agent_id e = None" "entry_from e = ''broker''"
  using validate_entry_Inr [OF assms]
  by (cases "ev_author_kind e") (auto simp: entry_from_def)

lemma entry_from_no_newline:
  assumes "validate_entry e = Inr ()" and "stamped e"
  shows "CHR 0x0A \<notin> set (entry_from e)"
  using assms(1)
proof (cases rule: entry_from_cases)
  case (member n r i)
  with assms(2) show ?thesis by (auto simp: stamped_def dest: label_no_newline)
qed simp_all

lemma entry_to_no_newline: "CHR 0x0A \<notin> set (entry_to d)"
  by (cases d) simp_all

lemma kind_str_no_newline:
  "CHR 0x0A \<notin> set (entry_kind_as_str k)" "CHR 0x0A \<notin> set (decision_as_str d)"
  "CHR 0x0A \<notin> set (message_kind_as_str m)"
  by ((cases k; simp), (cases d; simp), (cases m; simp))

lemma entry_kind_line_no_newline: "CHR 0x0A \<notin> set (entry_kind_line e)"
  by (auto simp: entry_kind_line_def kind_str_no_newline split: option.splits)

lemma from_to_unique:
  assumes "validate_entry a = Inr ()" "validate_entry b = Inr ()" "stamped a" "stamped b"
    and "entry_from a @ '' to '' @ entry_to (ev_direction a) =
         entry_from b @ '' to '' @ entry_to (ev_direction b)"
  shows "ev_direction a = ev_direction b \<and> ev_author_kind a = ev_author_kind b
    \<and> ev_author_agent_id a = ev_author_agent_id b"
proof -
  have d: "ev_direction a = ev_direction b"
    using arg_cong [OF assms(5), of last] by (cases "ev_direction a"; cases "ev_direction b") auto
  with assms(5) have f: "entry_from a = entry_from b" by simp
  from assms(1) show ?thesis
  proof (cases rule: entry_from_cases)
    case a: (member n r i)
    from assms(2) show ?thesis
    proof (cases rule: entry_from_cases)
      case b: (member n' r' i')
      have "length i = length i'" using a b assms(3,4) by (simp add: stamped_def)
      moreover have "(n @ '' ('' @ r @ '', '') @ i = (n' @ '' ('' @ r' @ '', '') @ i'"
        using f a b by simp
      ultimately have "i = i'" using append_eq_append_conv by blast
      with a b d show ?thesis by simp
    qed (use f a in \<open>auto dest: arg_cong [of _ _ last]\<close>)
  next
    case operator
    from assms(2) show ?thesis
      by (cases rule: entry_from_cases) (use f operator d in \<open>auto dest: arg_cong [of _ _ last]\<close>)
  next
    case broker
    from assms(2) show ?thesis
      by (cases rule: entry_from_cases) (use f broker d in \<open>auto dest: arg_cong [of _ _ last]\<close>)
  qed
qed

text \<open>The kind line of a consistent entry, per kind.\<close>

lemma entry_kind_line_cases:
  assumes "entry_shape_ok e"
  obtains (message) "ev_kind e = MessageEntry" "ev_severity e = None" "ev_proposal_seq e = None"
      "ev_decision e = None" "entry_kind_line e = ''kind message''"
    | (report) m where "ev_kind e = ReportEntry" "ev_severity e = Some m" "ev_proposal_seq e = None"
      "ev_decision e = None" "entry_kind_line e = ''kind report severity '' @ message_kind_as_str m"
    | (proposal) "ev_kind e = ProposalEntry" "ev_severity e = None" "ev_proposal_seq e = None"
      "ev_decision e = None" "entry_kind_line e = ''kind proposal''"
    | (vote) p d where "ev_kind e = VoteEntry" "ev_severity e = None" "ev_proposal_seq e = Some p"
      "ev_decision e = Some d"
      "entry_kind_line e = ''kind vote proposal #'' @ show_nat p @ CHR '' '' # ''decision '' @ decision_as_str d"
    | (revoke) p where "ev_kind e = RevokeEntry" "ev_severity e = None" "ev_proposal_seq e = Some p"
      "ev_decision e = None" "entry_kind_line e = ''kind revoke proposal #'' @ show_nat p"
    | (roster) "ev_kind e = RosterEntry" "ev_severity e = None" "ev_proposal_seq e = None"
      "ev_decision e = None" "entry_kind_line e = ''kind roster''"
  using assms
  by (cases "ev_kind e")
    (auto simp: entry_shape_ok_def entry_kind_line_def Let_def split: option.splits)

lemma decision_as_str_inj [simp]: "decision_as_str c = decision_as_str d \<longleftrightarrow> c = d"
  by (cases c; cases d) simp_all

lemma kind_line_unique:
  assumes "entry_shape_ok a" and "entry_shape_ok b" and "entry_kind_line a = entry_kind_line b"
  shows "ev_kind a = ev_kind b \<and> ev_severity a = ev_severity b
    \<and> ev_proposal_seq a = ev_proposal_seq b \<and> ev_decision a = ev_decision b"
  using assms(1)
  by (cases rule: entry_kind_line_cases; use assms(2) in \<open>cases rule: entry_kind_line_cases\<close>;
      use assms(3) in \<open>simp add: show_nat_cut message_kinds.spelling_inj\<close>)

definition header_lines :: "pool_entry_view \<Rightarrow> string" where
  "header_lines e =
     (show_nat (ev_seq e) @ CHR '' '' # ''roster r'' @ show_nat (ev_roster_revision e)) @ nl @
     (''from '' @ entry_from e @ '' to '' @ entry_to (ev_direction e)) @ nl @
     entry_kind_line e @ nl @ ''untrusted body:'' @ nl @ ev_body e"

lemma render_entry_header:
  "render_entry e = Inr s \<Longrightarrow> validate_entry e = Inr () \<and> s = ''agent-run/pool #'' @ header_lines e"
  by (auto simp: render_entry_def header_lines_def)

lemma header_lines_unique:
  assumes va: "validate_entry a = Inr ()" and vb: "validate_entry b = Inr ()"
    and st: "stamped a" "stamped b" and eq: "header_lines a = header_lines b"
  shows "ev_seq a = ev_seq b \<and> ev_roster_revision a = ev_roster_revision b
    \<and> entry_from a @ '' to '' @ entry_to (ev_direction a) =
       entry_from b @ '' to '' @ entry_to (ev_direction b)
    \<and> entry_kind_line a = entry_kind_line b \<and> ev_body a = ev_body b"
proof -
  let ?first = "\<lambda>e. show_nat (ev_seq e) @ CHR '' '' # ''roster r'' @ show_nat (ev_roster_revision e)"
  let ?second = "\<lambda>e. ''from '' @ entry_from e @ '' to '' @ entry_to (ev_direction e)"
  let ?rest = "\<lambda>e. entry_kind_line e @ nl @ ''untrusted body:'' @ nl @ ev_body e"
  have n1: "CHR 0x0A \<notin> set (?first e)" for e by simp
  have n2: "CHR 0x0A \<notin> set (?second a)" "CHR 0x0A \<notin> set (?second b)"
    using va vb st by (simp_all add: entry_from_no_newline entry_to_no_newline)
  note l1 = line_unique [OF eq [unfolded header_lines_def] n1 n1]
  note l2 = line_unique [OF l1 [THEN conjunct2] n2]
  note l3 = line_unique [OF l2 [THEN conjunct2] entry_kind_line_no_newline entry_kind_line_no_newline]
  have "ev_body a = ev_body b" using l3 [THEN conjunct2] by simp
  moreover have "ev_seq a = ev_seq b \<and> ev_roster_revision a = ev_roster_revision b"
    using l1 [THEN conjunct1] by (simp add: show_nat_cut)
  moreover have "entry_from a @ '' to '' @ entry_to (ev_direction a) =
       entry_from b @ '' to '' @ entry_to (ev_direction b)"
    using l2 [THEN conjunct1] by (simp only: same_append_eq)
  ultimately show ?thesis using l3 [THEN conjunct1] by blast
qed

text \<open>
  C36 (safety). The rendered header cannot be forged: two stamped entries with the same rendering have
  the same sequence, roster revision, author class and identity, addressing, kind, severity, referenced
  proposal and decision, and the same untrusted body, whatever the bodies and labels contain.
\<close>

theorem render_entry_unforgeable:
  assumes "render_entry a = Inr s" and "render_entry b = Inr s" and "stamped a" and "stamped b"
  shows "ev_seq a = ev_seq b \<and> ev_roster_revision a = ev_roster_revision b
    \<and> ev_author_kind a = ev_author_kind b \<and> ev_author_agent_id a = ev_author_agent_id b
    \<and> ev_direction a = ev_direction b \<and> ev_kind a = ev_kind b \<and> ev_severity a = ev_severity b
    \<and> ev_proposal_seq a = ev_proposal_seq b \<and> ev_decision a = ev_decision b
    \<and> ev_body a = ev_body b"
proof -
  have va: "validate_entry a = Inr ()" and vb: "validate_entry b = Inr ()"
    and eq: "header_lines a = header_lines b"
    using render_entry_header [OF assms(1)] render_entry_header [OF assms(2)] by simp_all
  note lines = header_lines_unique [OF va vb assms(3,4) eq]
  note author = from_to_unique [OF va vb assms(3,4)]
  have "entry_shape_ok a" "entry_shape_ok b"
    using validate_entry_Inr [OF va] validate_entry_Inr [OF vb] by blast+
  note kind = kind_line_unique [OF this]
  from lines author kind show ?thesis by blast
qed

definition sample_entry :: pool_entry_view where
  "sample_entry =
     \<lparr> ev_seq = 7, ev_roster_revision = 1, ev_author_kind = AuthorOperator, ev_author_agent_id = None,
       ev_author_name = None, ev_author_role = None, ev_direction = Team, ev_kind = MessageEntry,
       ev_severity = None, ev_proposal_seq = None, ev_decision = None, ev_body = ''hi'' \<rparr>"

lemma sample_entry_valid: "validate_entry sample_entry = Inr ()"
  by (simp add: validate_entry_def sample_entry_def entry_shape_ok_def bounded_text_def
      MAX_BODY_BYTES_def text_eval)

theorem render_entry_unforgeable_witness:
  "\<exists>s. render_entry sample_entry = Inr s \<and> stamped sample_entry \<and> ev_seq sample_entry = 7"
proof -
  from sample_entry_valid obtain s where s: "render_entry sample_entry = Inr s"
    by (simp add: render_entry_def)
  moreover have t: "stamped sample_entry" by (simp add: stamped_def sample_entry_def)
  moreover have "ev_seq sample_entry = 7" by (simp add: sample_entry_def)
  ultimately show ?thesis using render_entry_unforgeable [OF s s t t] by blast
qed

text \<open>
  The hypothesis on labels is needed: \<^verbatim>\<open>PoolEntryView::validate\<close> checks the normalised label and drops
  it, so an entry whose label has a surrounding line break validates and breaks the header line.
\<close>

lemma entry_label_may_break_line:
  "\<exists>e. validate_entry e = Inr () \<and> CHR 0x0A \<in> set (entry_from e)"
proof (intro exI conjI)
  let ?e = "sample_entry\<lparr> ev_author_kind := AuthorMember, ev_author_agent_id := Some ''a'',
    ev_author_name := Some (CHR 0x0A # ''A''), ev_author_role := Some ''r'' \<rparr>"
  have "display_name (CHR 0x0A # ''A'') = Inr ''A''" "display_name ''r'' = Inr ''r''"
    by (simp_all add: display_name_def MAX_DISPLAY_NAME_CHARS_def is_unsafe_label_char_def nul_def text_eval)
  then show "validate_entry ?e = Inr ()"
    by (simp add: validate_entry_def sample_entry_def entry_shape_ok_def bounded_text_def
        MAX_BODY_BYTES_def external_id_def nonblank_def nul_def text_eval)
  show "CHR 0x0A \<in> set (entry_from ?e)" by (simp add: entry_from_def)
qed

section \<open>Fitting a notice to a transport\<close>

lemma find_rev_Some:
  "find P (map f (rev (filter B [0..<n]))) = Some m \<longleftrightarrow>
     (\<exists>k<n. B k \<and> m = f k \<and> P m \<and> (\<forall>j. k < j \<longrightarrow> j < n \<longrightarrow> B j \<longrightarrow> \<not> P (f j)))"
proof (induction n)
  case (Suc n)
  then show ?case by (auto simp: less_Suc_eq)
qed simp

lemma find_rev_None:
  "find P (map f (rev (filter B [0..<n]))) = None \<longleftrightarrow> (\<forall>k<n. B k \<longrightarrow> \<not> P (f k))"
  by (auto simp: find_None_iff)

lemma char_starts_all:
  "char_starts s @ [length s] = filter (is_char_boundary s) [0..<Suc (length s)]"
  by (simp add: char_starts_def)

lemma is_ok_unit: "is_ok r \<longleftrightarrow> r = Inr ()" for r :: "'e + unit"
  by (cases r) auto

definition legal_fit :: "(pool_notice \<Rightarrow> bool) \<Rightarrow> pool_notice \<Rightarrow> bool" where
  "legal_fit fits c \<longleftrightarrow> validate_notice c = Inr () \<and> fits c"

lemma fitted_legal_fit:
  "fitted fits n =
     (if validate_notice n \<noteq> Inr () then None
      else if fits n then Some n
      else find (legal_fit fits)
        (map (notice_with n) (rev (filter (is_char_boundary (pn_message n)) [0..<Suc (length (pn_message n))]))))"
proof -
  have "(\<lambda>c. is_ok (validate_notice c) \<and> fits c) = legal_fit fits"
    by (rule ext) (simp add: legal_fit_def is_ok_unit)
  then show ?thesis by (simp only: fitted_def char_starts_all is_ok_unit)
qed

lemma validate_notice_bytes: "validate_notice n = Inr () \<Longrightarrow> length (pn_message n) \<le> 4096"
  by (auto simp: validate_notice_def Let_def bounded_text_Inr MAX_NOTICE_BYTES_def split: if_splits)

lemma marker_valid: "valid_utf8 TRUNCATION_MARKER"
  by (rule valid_utf8_ascii) (simp add: TRUNCATION_MARKER_def nl_def is_ascii_def)

text \<open>
  C37 (functional). Fitting a notice to a transport: a legal notice that fits is returned as it is;
  otherwise the answer is the longest character prefix whose marked form is legal and accepted, and there
  is no answer exactly when the notice is illegal or no marked prefix is legal and accepted. An answer is
  itself legal and accepted, stays valid text, and keeps both identities.
\<close>

theorem fitted_longest:
  assumes "valid_utf8 (pn_message n)"
  shows "(fitted fits n = Some m \<longleftrightarrow>
      validate_notice n = Inr () \<and>
      (if fits n then m = n
       else \<exists>k \<le> length (pn_message n). is_char_boundary (pn_message n) k \<and> m = notice_with n k
          \<and> legal_fit fits m
          \<and> (\<forall>j. k < j \<longrightarrow> j \<le> length (pn_message n) \<longrightarrow> is_char_boundary (pn_message n) j \<longrightarrow>
               \<not> legal_fit fits (notice_with n j))))
    \<and> (fitted fits n = None \<longleftrightarrow>
      validate_notice n \<noteq> Inr ()
      \<or> \<not> fits n \<and> (\<forall>k \<le> length (pn_message n). is_char_boundary (pn_message n) k \<longrightarrow>
            \<not> legal_fit fits (notice_with n k)))
    \<and> (fitted fits n = Some m \<longrightarrow>
      legal_fit fits m \<and> length (pn_message m) \<le> 4096 \<and> valid_utf8 (pn_message m)
      \<and> pn_notification_id m = pn_notification_id n \<and> pn_pool_id m = pn_pool_id n)"
proof (intro conjI)
  show some: "fitted fits n = Some m \<longleftrightarrow>
      validate_notice n = Inr () \<and>
      (if fits n then m = n
       else \<exists>k \<le> length (pn_message n). is_char_boundary (pn_message n) k \<and> m = notice_with n k
          \<and> legal_fit fits m
          \<and> (\<forall>j. k < j \<longrightarrow> j \<le> length (pn_message n) \<longrightarrow> is_char_boundary (pn_message n) j \<longrightarrow>
               \<not> legal_fit fits (notice_with n j)))"
    by (simp only: fitted_legal_fit find_rev_Some less_Suc_eq_le split: if_split) auto
  show "fitted fits n = None \<longleftrightarrow>
      validate_notice n \<noteq> Inr ()
      \<or> \<not> fits n \<and> (\<forall>k \<le> length (pn_message n). is_char_boundary (pn_message n) k \<longrightarrow>
            \<not> legal_fit fits (notice_with n k))"
    by (simp only: fitted_legal_fit find_rev_None less_Suc_eq_le split: if_split) auto
  have "legal_fit fits m \<and> valid_utf8 (pn_message m)
      \<and> pn_notification_id m = pn_notification_id n \<and> pn_pool_id m = pn_pool_id n"
    if "fitted fits n = Some m"
    using that assms unfolding some
    by (auto simp: legal_fit_def notice_with_def valid_utf8_take valid_utf8_append marker_valid
        split: if_splits)
  then show "fitted fits n = Some m \<longrightarrow>
      legal_fit fits m \<and> length (pn_message m) \<le> 4096 \<and> valid_utf8 (pn_message m)
      \<and> pn_notification_id m = pn_notification_id n \<and> pn_pool_id m = pn_pool_id n"
    using validate_notice_bytes by (auto simp: legal_fit_def)
qed

definition sample_notice :: pool_notice where
  "sample_notice =
     \<lparr> pn_notification_id = ''ntf_1'', pn_pool_id = ''pool-1'', pn_message = ''done'' \<rparr>"

lemma sample_notice_valid: "validate_notice sample_notice = Inr ()"
  by (simp add: validate_notice_def sample_notice_def strip_prefix_def bounded_text_def
      MAX_NOTICE_BYTES_def text_eval)

theorem fitted_longest_witness:
  "fitted (\<lambda>_. True) sample_notice = Some sample_notice \<and> valid_utf8 (pn_message sample_notice)"
proof -
  have v: "valid_utf8 (pn_message sample_notice)"
    by (rule valid_utf8_ascii) (simp add: sample_notice_def is_ascii_def)
  from fitted_longest [OF v, of "\<lambda>_. True" sample_notice] v sample_notice_valid show ?thesis by simp
qed

section \<open>Notice framing\<close>

lemma starts_with_Cons [simp]: "starts_with (c # s) (p # ps) \<longleftrightarrow> c = p \<and> starts_with s ps"
  by (auto simp: starts_with_def)

lemma starts_with_Nil [simp]: "starts_with s []" "starts_with [] (p # ps) \<longleftrightarrow> False"
  by (simp_all add: starts_with_def)

lemma str_replace_skip:
  "p \<notin> set a \<Longrightarrow> str_replace (p # ps) to (a @ s) = a @ str_replace (p # ps) to s"
  by (induction a) auto

lemma validate_notice_id:
  assumes "validate_notice n = Inr ()"
  shows "CHR ''{'' \<notin> set (pn_notification_id n)"
proof -
  from assms obtain i where "strip_prefix ''ntf_'' (pn_notification_id n) = Some i"
    and alnum: "\<forall>b \<in> set i. is_ascii_alphanumeric b \<or> b \<in> set ''-_''"
    by (auto simp: validate_notice_def Let_def list_all_iff split: if_splits option.splits)
  then have "pn_notification_id n = ''ntf_'' @ i" by (simp only: strip_prefix_Some)
  moreover have "CHR ''{'' \<notin> set i"
    using alnum by (auto simp: is_ascii_alphanumeric_def is_ascii_digit_def)
  ultimately show ?thesis by simp
qed

text \<open>A template of three plain pieces around the three fields.\<close>

lemma replace_fields:
  assumes "CHR ''{'' \<notin> set a" "CHR ''{'' \<notin> set b" "CHR ''{'' \<notin> set c"
    and "CHR ''{'' \<notin> set i" "CHR ''{'' \<notin> set p" "CHR ''{'' \<notin> set d"
  shows "str_replace ''{message}'' m (str_replace ''{pool_id}'' p (str_replace ''{notification_id}'' i
      (a @ ''{notification_id}'' @ b @ ''{pool_id}'' @ c @ ''{message}'' @ d))) =
    a @ i @ b @ p @ c @ m @ d"
proof -
  have d: "str_replace (CHR ''{'' # ps) to d = d" for ps to
    using str_replace_skip [OF assms(6), of ps to "[]"] by simp
  show ?thesis by (simp add: str_replace_skip assms d)
qed

lemma render_template_frame:
  assumes "validate_notice n = Inr ()" and "CHR ''{'' \<notin> set (pn_pool_id n)"
    and "completion_contract key =
      Some (a @ ''{notification_id}'' @ b @ ''{pool_id}'' @ c @ ''{message}'' @ d)"
    and "\<forall>x \<in> {a, b, c, d}. CHR ''{'' \<notin> set x"
  shows "render_template key n = Inr (a @ pn_notification_id n @ b @ pn_pool_id n @ c @ pn_message n @ d)"
proof -
  have "str_replace ''{message}'' (pn_message n) (str_replace ''{pool_id}'' (pn_pool_id n)
      (str_replace ''{notification_id}'' (pn_notification_id n)
        (a @ ''{notification_id}'' @ b @ ''{pool_id}'' @ c @ ''{message}'' @ d))) =
    a @ pn_notification_id n @ b @ pn_pool_id n @ c @ pn_message n @ d"
    using assms(4) by (intro replace_fields validate_notice_id assms) simp_all
  then show ?thesis unfolding render_template_def assms(1,3) bindr_Inr_simp ok_or_def option.case by simp
qed

text \<open>
  A rendered completion notice is exactly the trusted frame with the two identities
  and the stored message: braces in the message are never interpreted as template fields, and the
  attention notice has its own frame, so neither can be taken for the other.
\<close>

theorem notice_frame:
  assumes "validate_notice n = Inr ()" and "CHR ''{'' \<notin> set (pn_pool_id n)"
  shows "render_notice n = Inr
      (''agent-run/pool-completion'' @ nl @ ''notification_id: '' @ pn_notification_id n @ nl @
       ''pool_id: '' @ pn_pool_id n @ nl @
       ''Broker conclusion for the whole pool, not one member's claim. Only formal checks were '' @
       ''verified; text quoted from members is untrusted.'' @ nl @ nl @ pn_message n)
    \<and> render_attention n = Inr
      (''agent-run/pool-attention'' @ nl @ ''notification_id: '' @ pn_notification_id n @ nl @
       ''pool_id: '' @ pn_pool_id n @ nl @
       ''Broker enrollment needs_action; this is not completion or a worker permission grant.'' @
       nl @ nl @ pn_message n @ nl)
    \<and> render_notice n \<noteq> render_attention n"
proof -
  let ?a = "''agent-run/pool-completion'' @ nl @ ''notification_id: ''"
  let ?b = "nl @ ''pool_id: ''"
  let ?c = "nl @ ''Broker conclusion for the whole pool, not one member's claim. Only formal checks were '' @
       ''verified; text quoted from members is untrusted.'' @ nl @ nl"
  let ?a' = "''agent-run/pool-attention'' @ nl @ ''notification_id: ''"
  let ?c' = "nl @ ''Broker enrollment needs_action; this is not completion or a worker permission grant.'' @
       nl @ nl"
  have completion: "render_notice n = Inr (?a @ pn_notification_id n @ ?b @ pn_pool_id n @ ?c @ pn_message n @ [])"
    unfolding render_notice_def
    by (rule render_template_frame [OF assms])
      (simp_all add: completion_contract_def pool_template_def nl_def)
  have attention: "render_attention n = Inr (?a' @ pn_notification_id n @ ?b @ pn_pool_id n @ ?c' @ pn_message n @ nl)"
    unfolding render_attention_def
    by (rule render_template_frame [OF assms])
      (simp_all add: completion_contract_def pool_attention_template_def nl_def)
  show ?thesis unfolding completion attention by simp
qed

theorem notice_frame_witness:
  "validate_notice sample_notice = Inr () \<and> render_notice sample_notice \<noteq> render_attention sample_notice"
proof -
  have p: "CHR ''{'' \<notin> set (pn_pool_id sample_notice)" by (simp add: sample_notice_def)
  from notice_frame [OF sample_notice_valid p] sample_notice_valid show ?thesis by blast
qed

end
