(* ===== verification/PoolInput.thy ===== *)
theory PoolInput
  imports PoolDomain
begin

text \<open>
  What the validators of pool input promise: a validated pool request validates again to itself, keeps
  its roster bounds and unique names, and the size check of a composed member task does not depend on
  the identities minted for it.
\<close>

section \<open>Criteria\<close>

lemma criteria_loop_Inr:
  "criteria_loop ids cs = Inr () \<longleftrightarrow>
     (\<forall>c \<in> set cs. validate_criterion c = Inr ()) \<and> distinct (map ac_id cs)
     \<and> set (map ac_id cs) \<inter> set ids = {}"
  by (induction cs arbitrary: ids) auto

lemma default_acceptance_idem [simp]: "default_acceptance (default_acceptance cs) = default_acceptance cs"
  by (simp add: default_acceptance_def)

section \<open>Members\<close>

interpretation role: normaliser validate_role
  by unfold_locales (auto simp: validate_role_def label.norm_fixed split: if_splits)

definition canonical_fs :: "filesystem \<Rightarrow> bool" where
  "canonical_fs fs \<longleftrightarrow>
     (\<forall>p q. fs_canonicalize fs p = Some q \<longrightarrow> is_absolute q \<and> fs_canonicalize fs q = Some q)"

text \<open>Validation keeps the keys the pool owns absent and a given label present.\<close>

lemma validate_provider_start_keeps:
  assumes "validate_provider_start fs p = Inr q"
  shows "ps_request_id q = ps_request_id p"
    and "ps_orchestrator p = None \<Longrightarrow> ps_orchestrator q = None"
    and "ps_display_name p \<noteq> None \<Longrightarrow> ps_display_name q \<noteq> None"
proof -
  from assms obtain mcp j where j: "validate_start fs (storage_projection p) = Inr j"
    and q: "q = p\<lparr> ps_required_mcp := mcp, ps_workdir := sr_workdir j,
               ps_read_roots := sr_read_roots j, ps_display_name := sr_display_name j,
               ps_orchestrator := sr_orchestrator j \<rparr>"
    unfolding validate_provider_start_def by auto
  from j obtain s wd roots where s: "validate_intent (storage_projection p) = Inr s"
    and "j = s\<lparr>sr_workdir := wd, sr_read_roots := roots\<rparr>"
    unfolding validate_start_def by (auto split: if_splits)
  moreover from s obtain name orch where "optr display_name (ps_display_name p) = Inr name"
    "optr normalize_ref (ps_orchestrator p) = Inr orch"
    "s = (storage_projection p)\<lparr>sr_display_name := name, sr_orchestrator := orch\<rparr>"
    unfolding validate_intent_Inr by (auto simp: storage_projection_def)
  ultimately show "ps_request_id q = ps_request_id p"
    and "ps_orchestrator p = None \<Longrightarrow> ps_orchestrator q = None"
    and "ps_display_name p \<noteq> None \<Longrightarrow> ps_display_name q \<noteq> None"
    by (auto simp: q)
qed

lemma provider_start_fixed:
  assumes "canonical_fs fs" and "validate_provider_start fs p = Inr q"
  shows "validate_provider_start fs q = Inr q"
proof -
  note v = validate_provider_start_Inr [OF assms(2)]
  then have "validate_start fs (storage_projection p) = Inr (storage_projection q)" by blast
  from validate_start_replays [OF assms(1) [unfolded canonical_fs_def] this]
  show ?thesis using v by (blast intro: provider_start_same mcp.norm_fixed)
qed

definition member_start_ok :: "host \<Rightarrow> provider_start \<Rightarrow> bool" where
  "member_start_ok h start \<longleftrightarrow>
     ps_request_id start = None \<and> ps_orchestrator start = None \<and> ps_display_name start \<noteq> None
     \<and> validate_provider_start (h_fs h) start = Inr start"

lemma validate_new_member_ok:
  assumes "canonical_fs (h_fs h)" and "validate_new_member h slot role start = Inr start'"
  shows "member_start_ok h start'"
proof -
  let ?named = "if ps_display_name start = None
    then start\<lparr>ps_display_name := Some (default_name role slot)\<rparr> else start"
  have v: "validate_provider_start (h_fs h) ?named = Inr start'"
    and none: "ps_request_id ?named = None" "ps_orchestrator ?named = None" "ps_display_name ?named \<noteq> None"
    using assms(2) by (auto simp: validate_new_member_def split: if_splits)
  from validate_provider_start_keeps [OF v] none provider_start_fixed [OF assms(1) v]
  show ?thesis by (simp add: member_start_ok_def)
qed

lemma member_start_ok_fixed: "member_start_ok h start \<Longrightarrow> validate_new_member h slot role start = Inr start"
  by (auto simp: member_start_ok_def validate_new_member_def)

fun starts_of :: "pool_member_spec list \<Rightarrow> provider_start list" where
  "starts_of [] = []"
| "starts_of (NewMember start _ # ms) = start # starts_of ms"
| "starts_of (ExistingMember _ _ # ms) = starts_of ms"

fun existing_of :: "pool_member_spec list \<Rightarrow> string list" where
  "existing_of [] = []"
| "existing_of (NewMember _ _ # ms) = existing_of ms"
| "existing_of (ExistingMember agent _ # ms) = agent # existing_of ms"

lemma validate_members_ok:
  assumes "canonical_fs (h_fs h)" and "validate_members h slot names existing ms = Inr (ms', seats)"
  shows "length ms' = length ms \<and> length seats = length ms
    \<and> (\<forall>m \<in> set ms'. validate_role (member_role m) = Inr (member_role m))
    \<and> (\<forall>start \<in> set (starts_of ms'). member_start_ok h start)
    \<and> distinct (map (h_lower h \<circ> start_name) (starts_of ms'))
    \<and> set (map (h_lower h \<circ> start_name) (starts_of ms')) \<inter> set names = {}
    \<and> distinct (existing_of ms') \<and> set (existing_of ms') \<inter> set existing = {}"
  using assms
proof (induction h slot names existing ms arbitrary: ms' seats rule: validate_members.induct)
  case (2 h slot names existing start role ms)
  from "2.prems"(2) obtain role' start' ms'' seats' where
    r: "validate_role role = Inr role'" and s: "validate_new_member h slot role' start = Inr start'"
    and n: "h_lower h (start_name start') \<notin> set names"
    and m: "validate_members h (Suc slot) (h_lower h (start_name start') # names) existing ms
      = Inr (ms'', seats')"
    and ms': "ms' = NewMember start' role' # ms''" and seats: "length seats = Suc (length seats')"
    by (auto split: if_splits prod.splits)
  from "2.IH" [OF r s _ "2.prems"(1) m] n ms' seats role.norm_fixed [OF r]
    validate_new_member_ok [OF "2.prems"(1) s]
  show ?case by auto
next
  case (3 h slot names existing agent role ms)
  from "3.prems"(2) obtain role' ms'' seats' where
    r: "validate_role role = Inr role'" and n: "agent \<notin> set existing"
    and m: "validate_members h (Suc slot) names (agent # existing) ms = Inr (ms'', seats')"
    and ms': "ms' = ExistingMember agent role' # ms''" and seats: "length seats = Suc (length seats')"
    by (auto split: if_splits prod.splits)
  from "3.IH" [OF r n "3.prems"(1) m] n ms' seats role.norm_fixed [OF r]
  show ?case by auto
qed simp

lemma validate_members_fixed:
  assumes "canonical_fs (h_fs h)" and "validate_members h slot names existing ms = Inr (ms', seats)"
  shows "validate_members h slot names existing ms' = Inr (ms', seats)"
  using assms
proof (induction h slot names existing ms arbitrary: ms' seats rule: validate_members.induct)
  case (2 h slot names existing start role ms)
  from "2.prems"(2) obtain role' start' ms'' seats' where
    r: "validate_role role = Inr role'" and s: "validate_new_member h slot role' start = Inr start'"
    and n: "h_lower h (start_name start') \<notin> set names"
    and m: "validate_members h (Suc slot) (h_lower h (start_name start') # names) existing ms
      = Inr (ms'', seats')"
    and out: "ms' = NewMember start' role' # ms''"
      "seats = \<lparr> st_slot = slot, st_name = start_name start', st_role = role',
               st_agent_id = h_agent_id h slot \<rparr> # seats'"
    by (auto split: if_splits prod.splits)
  from "2.IH" [OF r s n "2.prems"(1) m] n out role.norm_fixed [OF r]
    member_start_ok_fixed [OF validate_new_member_ok [OF "2.prems"(1) s]]
  show ?case by simp
next
  case (3 h slot names existing agent role ms)
  from "3.prems"(2) obtain role' ms'' seats' where
    r: "validate_role role = Inr role'" and n: "agent \<notin> set existing"
    and m: "validate_members h (Suc slot) names (agent # existing) ms = Inr (ms'', seats')"
    and out: "ms' = ExistingMember agent role' # ms''"
      "seats = \<lparr> st_slot = slot, st_name = default_name role' slot, st_role = role',
              st_agent_id = agent \<rparr> # seats'"
    by (auto split: if_splits prod.splits)
  from "3.IH" [OF r n "3.prems"(1) m] n out role.norm_fixed [OF r]
  show ?case by simp
qed simp

lemma validate_pool_start_Inr:
  "validate_pool_start h r = Inr r' \<longleftrightarrow>
     request_key (pq_request_id r) = Inr () \<and> bounded_text ''goal'' (pq_goal r) MAX_GOAL_BYTES = Inr ()
     \<and> validate_criteria (default_acceptance (pq_acceptance r)) = Inr ()
     \<and> MIN_MEMBERS \<le> length (pq_members r) \<and> length (pq_members r) \<le> MAX_MEMBERS
     \<and> (\<exists>orch members seats us. optr normalize_ref (pq_orchestrator r) = Inr orch
          \<and> validate_members h 1 [] [] (pq_members r) = Inr (members, seats)
          \<and> mapr (check_member_task h (pq_goal r) (default_acceptance (pq_acceptance r)) seats)
               (zip members seats) = Inr us
          \<and> r' = r\<lparr> pq_acceptance := default_acceptance (pq_acceptance r), pq_orchestrator := orch,
                   pq_members := members \<rparr>)"
  by (auto simp: validate_pool_start_def Let_def split: prod.splits)

text \<open>
  C38 (roundtrip). Where canonicalisation gives absolute paths that canonicalise to themselves, a
  validated pool request validates again to itself, so a replay compares equal. It has two to five
  members and one to ten criteria with distinct ids; the names of its new members are distinct ignoring
  case, its existing members are distinct, and every new member has a name, no key or orchestrator of
  its own, and a start request that is itself valid.
\<close>

theorem pool_start_replays:
  assumes "canonical_fs (h_fs h)" and "validate_pool_start h r = Inr r'"
  shows "validate_pool_start h r' = Inr r'
    \<and> 2 \<le> length (pq_members r') \<and> length (pq_members r') \<le> 5
    \<and> 1 \<le> length (pq_acceptance r') \<and> length (pq_acceptance r') \<le> 10
    \<and> distinct (map ac_id (pq_acceptance r'))
    \<and> distinct (map (h_lower h \<circ> start_name) (starts_of (pq_members r')))
    \<and> distinct (existing_of (pq_members r'))
    \<and> (\<forall>start \<in> set (starts_of (pq_members r')). member_start_ok h start)
    \<and> (\<forall>m \<in> set (pq_members r'). validate_role (member_role m) = Inr (member_role m))"
proof -
  let ?cs = "default_acceptance (pq_acceptance r)"
  from assms(2) obtain orch members seats us where
    basic: "request_key (pq_request_id r) = Inr ()" "bounded_text ''goal'' (pq_goal r) MAX_GOAL_BYTES = Inr ()"
    and crit: "validate_criteria ?cs = Inr ()"
    and count: "MIN_MEMBERS \<le> length (pq_members r)" "length (pq_members r) \<le> MAX_MEMBERS"
    and orch: "optr normalize_ref (pq_orchestrator r) = Inr orch"
    and mem: "validate_members h 1 [] [] (pq_members r) = Inr (members, seats)"
    and task: "mapr (check_member_task h (pq_goal r) ?cs seats) (zip members seats) = Inr us"
    and r': "r' = r\<lparr> pq_acceptance := ?cs, pq_orchestrator := orch, pq_members := members \<rparr>"
    unfolding validate_pool_start_Inr by blast
  note ok = validate_members_ok [OF assms(1) mem] and fixed = validate_members_fixed [OF assms(1) mem]
  have "validate_pool_start h r' = Inr r'"
    unfolding validate_pool_start_Inr
    using basic crit count task ok fixed orchestrator.optr_norm_fixed [OF orch] by (simp add: r')
  moreover have "1 \<le> length ?cs" by (simp add: default_acceptance_def Suc_le_eq)
  ultimately show ?thesis
    using crit count ok
    by (auto simp: r' validate_criteria_def criteria_loop_Inr MAX_CRITERIA_def MIN_MEMBERS_def
        MAX_MEMBERS_def split: if_splits)
qed

definition sample_host :: host where
  "sample_host =
     \<lparr> h_fs = sample_fs, h_lower = (\<lambda>s. s), h_agent_id = (\<lambda>_. ''a''), h_pool_id = ''p'' \<rparr>"

definition sample_pool :: pool_start_request where
  "sample_pool =
     \<lparr> pq_request_id = ''r1'', pq_goal = ''ship'', pq_acceptance = [], pq_orchestrator = None,
       pq_members = [ExistingMember ''x'' '' dev'', ExistingMember ''y'' ''qa''] \<rparr>"

lemma sample_pool_valid:
  "validate_pool_start sample_host sample_pool =
     Inr (sample_pool\<lparr> pq_acceptance := [\<lparr> ac_id = ''goal'', ac_text = ''The stated goal is met.'' \<rparr>],
           pq_members := [ExistingMember ''x'' ''dev'', ExistingMember ''y'' ''qa''] \<rparr>)"
proof -
  have role: "validate_role '' dev'' = Inr ''dev''" "validate_role ''qa'' = Inr ''qa''"
    by (simp_all add: validate_role_def MAX_ROLE_CHARS_def display_name_def MAX_DISPLAY_NAME_CHARS_def
        is_unsafe_label_char_def nul_def text_eval)
  have crit: "validate_criterion \<lparr> ac_id = ''goal'', ac_text = ''The stated goal is met.'' \<rparr> = Inr ()"
    by (simp add: validate_criterion_def request_key_def bounded_text_def MAX_CRITERION_BYTES_def text_eval)
  show ?thesis
    by (simp add: validate_pool_start_def sample_pool_def default_acceptance_def validate_criteria_def
        MAX_CRITERIA_def MIN_MEMBERS_def MAX_MEMBERS_def role crit check_member_task_def
        request_key_def bounded_text_def MAX_GOAL_BYTES_def text_eval del: bindr_eq_Inr)
qed

theorem pool_start_replays_witness:
  "\<exists>r'. validate_pool_start sample_host sample_pool = Inr r' \<and> validate_pool_start sample_host r' = Inr r'
     \<and> length (pq_members r') \<le> 5"
proof -
  have "canonical_fs (h_fs sample_host)"
    by (auto simp: canonical_fs_def sample_host_def sample_fs_def split: if_splits)
  from pool_start_replays [OF this sample_pool_valid] sample_pool_valid show ?thesis by blast
qed

section \<open>Composed tasks\<close>

definition reseat :: "(nat \<Rightarrow> string) \<Rightarrow> pool_seat \<Rightarrow> pool_seat" where
  "reseat ids s = s\<lparr> st_agent_id := ids (st_slot s) \<rparr>"

lemma reseat_simps [simp]:
  "st_slot (reseat ids s) = st_slot s" "st_name (reseat ids s) = st_name s"
  "st_role (reseat ids s) = st_role s" "st_agent_id (reseat ids s) = ids (st_slot s)"
  by (simp_all add: reseat_def)

lemma filter_reseat:
  "filter (\<lambda>p. st_slot p \<noteq> k) (map (reseat ids) roster) =
     map (reseat ids) (filter (\<lambda>p. st_slot p \<noteq> k) roster)"
  by (simp add: filter_map comp_def)

definition peer_lines :: "pool_seat list \<Rightarrow> string" where
  "peer_lines ps =
     concat (map (\<lambda>p. ''- '' @ st_name p @ '' ('' @ st_role p @ '', '' @ st_agent_id p @ '')'' @ nl) ps)"

lemma peer_lines_reseat:
  assumes "\<forall>p \<in> set ps. length (ids (st_slot p)) = length (st_agent_id p)"
  shows "length (peer_lines (map (reseat ids) ps)) = length (peer_lines ps)"
  using assms by (induction ps) (simp_all add: peer_lines_def)

lemma peer_lines_nul:
  "nul \<in> set (peer_lines (map (reseat ids) ps)) \<Longrightarrow>
     nul \<in> set (peer_lines ps) \<or> (\<exists>p \<in> set ps. nul \<in> set (ids (st_slot p)))"
  by (induction ps) (auto simp: peer_lines_def)

definition task_body ::
    "string \<Rightarrow> string \<Rightarrow> acceptance_criterion list \<Rightarrow> pool_seat list \<Rightarrow> pool_seat \<Rightarrow> string \<Rightarrow> bool \<Rightarrow> string" where
  "task_body pool_id goal criteria peers seat personal ef =
     ''You are a member of cooperative pool '' @ pool_id @ ''.'' @ nl @ ''Goal: '' @ goal @ nl @
     ''Acceptance criteria:'' @ nl @
     concat (map (\<lambda>c. ''- '' @ ac_id c @ '': '' @ ac_text c @ nl) criteria) @
     ''Your seat: '' @ st_name seat @ '' ('' @ st_role seat @ '', '' @ st_agent_id seat @ '').'' @ nl @
     ''Peers:'' @ nl @ peer_lines peers @
     (if ef then explicit_preamble else legacy_preamble) @ personal"

lemma task_body_personal:
  "task_body pool_id goal criteria peers seat personal ef =
     task_body pool_id goal criteria peers seat [] ef @ personal"
  by (simp add: task_body_def)

lemma compose_task_body:
  "compose_member_task pool_id goal criteria roster seat personal ef =
     (let t = task_body pool_id goal criteria (filter (\<lambda>p. st_slot p \<noteq> st_slot seat) roster) seat personal ef
      in bindr (task_text t) (\<lambda>_. Inr t))"
  by (simp add: compose_member_task_def task_body_def peer_lines_def)

lemma trim_nonblank: "\<not> is_whitespace (byte_of c) \<Longrightarrow> byte_of c < 0x80 \<Longrightarrow> trim (c # s) \<noteq> []"
  using trim_chars_blank [of "chars (c # s)"] chars_trim [of "c # s"]
  by (auto simp: chars_Cons simp del: chars_trim)

lemma task_text_Inr:
  "task_text t = Inr () \<longleftrightarrow> trim t \<noteq> [] \<and> nul \<notin> set t \<and> length t \<le> 512 * 1024"
  by (auto simp: task_text_def nonblank_def MAX_TASK_BYTES_def)

text \<open>
  The composed task of a member ends in the personal task, is at most 512 KiB, and its
  acceptance does not depend on the identities it was checked with: any identities of the same lengths
  without NUL, such as the ones later admitted, compose to a task of the same size that is accepted too.
\<close>

theorem compose_identity_free:
  assumes "compose_member_task pool goal criteria roster seat personal ef = Inr txt"
    and "length pool' = length pool" and "nul \<notin> set pool'"
    and "\<forall>s \<in> insert seat (set roster). length (ids (st_slot s)) = length (st_agent_id s)"
    and "\<forall>s \<in> insert seat (set roster). nul \<notin> set (ids (st_slot s))"
  shows "length txt \<le> 512 * 1024 \<and> (\<exists>pre. txt = pre @ personal)
    \<and> (\<exists>txt'. compose_member_task pool' goal criteria (map (reseat ids) roster) (reseat ids seat) personal ef
          = Inr txt' \<and> length txt' = length txt)"
proof -
  let ?peers = "filter (\<lambda>p. st_slot p \<noteq> st_slot seat) roster"
  let ?t = "task_body pool goal criteria ?peers seat personal ef"
  let ?t' = "task_body pool' goal criteria (map (reseat ids) ?peers) (reseat ids seat) personal ef"
  from assms(1) have ok: "task_text ?t = Inr ()" and t: "txt = ?t"
    by (auto simp: compose_task_body Let_def)
  have len: "length ?t' = length ?t"
    using assms(2,4) by (simp add: task_body_def peer_lines_reseat)
  moreover have "nul \<notin> set ?t'"
    using ok assms(3,5) peer_lines_nul [of ids ?peers]
    by (auto simp: task_text_Inr task_body_def)
  moreover have "trim ?t' \<noteq> []"
    unfolding task_body_def by (simp add: trim_nonblank is_whitespace_def)
  ultimately have "task_text ?t' = Inr ()" using ok by (simp add: task_text_Inr)
  then have "compose_member_task pool' goal criteria (map (reseat ids) roster) (reseat ids seat) personal ef
      = Inr ?t'"
    by (simp add: compose_task_body filter_reseat Let_def)
  moreover have "\<exists>pre. txt = pre @ personal"
    unfolding t by (rule exI, rule task_body_personal)
  ultimately show ?thesis using ok len t by (auto simp: task_text_Inr)
qed

definition sample_seat :: "nat \<Rightarrow> pool_seat" where
  "sample_seat k = \<lparr> st_slot = k, st_name = ''A'', st_role = ''r'', st_agent_id = ''i'' \<rparr>"

lemma legacy_preamble_size: "length legacy_preamble \<le> 4096 \<and> nul \<notin> set legacy_preamble"
  by (simp add: legacy_preamble_def nl_def em_dash_def nul_def)

theorem compose_identity_free_witness:
  "\<exists>txt. compose_member_task ''p'' ''g'' [] [sample_seat 1, sample_seat 2] (sample_seat 1) ''t'' False = Inr txt
     \<and> length txt \<le> 512 * 1024"
proof -
  let ?t = "task_body ''p'' ''g'' [] [sample_seat 2] (sample_seat 1) ''t'' False"
  have "length ?t \<le> 512 * 1024" "nul \<notin> set ?t"
    using legacy_preamble_size by (simp_all add: task_body_def peer_lines_def sample_seat_def nl_def nul_def)
  moreover have "trim ?t \<noteq> []" unfolding task_body_def by (simp add: trim_nonblank is_whitespace_def)
  ultimately have h: "compose_member_task ''p'' ''g'' [] [sample_seat 1, sample_seat 2] (sample_seat 1)
      ''t'' False = Inr ?t"
    by (simp add: compose_task_body task_text_Inr Let_def sample_seat_def)
  from compose_identity_free [OF h, of "''p''" "\<lambda>_. ''i''"] h show ?thesis
    by (auto simp: sample_seat_def nul_def)
qed

end
