(* ===== verification/Db.thy ===== *)
theory Db
  imports PoolDomain
begin

text \<open>
  The part of the SQLite store the pool and worker components use: one record per table row
  (\<^verbatim>\<open>sql/schema.sql\<close> and \<^verbatim>\<open>sql/migrations/\<close>), the database as the record of its tables in insertion
  order, and the reads several components share. Enumerated text columns have the enumeration their
  \<^verbatim>\<open>CHECK\<close> admits; a JSON column has the decoded document. A transaction body is a function from the
  database to an error or a result with the new database; \<open>commit\<close> turns it into the store operation,
  which keeps the old database when the body fails.
\<close>

section \<open>Documents and externals\<close>

datatype json = JNull | JBool bool | JNum int | JStr string | JArr "json list" | JObj "(string \<times> json) list"

fun jfield :: "string \<Rightarrow> json \<Rightarrow> json" where
  "jfield k (JObj fs) = (case map_of fs k of Some v \<Rightarrow> v | None \<Rightarrow> JNull)"
| "jfield k _ = JNull"

fun jopt_str :: "string option \<Rightarrow> json" where
  "jopt_str None = JNull"
| "jopt_str (Some s) = JStr s"

fun as_str :: "json \<Rightarrow> string option" where
  "as_str (JStr s) = Some s"
| "as_str _ = None"

text \<open>
  What an operation reads from outside the database: the clock, fresh UUIDs, the digest, the datetime
  parser of \<^verbatim>\<open>chrono\<close>, the serialised size of a document, the observation of a supervisor process,
  the fingerprint digest of an execution's immutable launch facts, the parser of \<^verbatim>\<open>serde_json\<close>, and the
  validator \<^verbatim>\<open>jsonschema\<close> compiles from a schema.
\<close>

record ext =
  x_now :: rat
  x_uuid :: "nat \<Rightarrow> string"
  x_sha256 :: "string \<Rightarrow> string"
  x_datetime_ok :: "string \<Rightarrow> bool"
  x_json_len :: "json \<Rightarrow> nat"
  x_checks_json :: "criterion_check list \<Rightarrow> string option"
  x_catalogs :: catalog_digests
  x_alive :: "string \<Rightarrow> bool"
  x_fingerprint :: "json \<Rightarrow> string option \<Rightarrow> string"
  x_boot_id :: string
  x_group_gone :: "int \<Rightarrow> bool"
  x_json :: "string \<Rightarrow> json option"
  x_schema :: "json \<Rightarrow> (json \<Rightarrow> bool) option"

section \<open>Tables\<close>

record agent_row =
  a_id :: string
  a_root :: string
  a_sequence :: nat
  a_created_at :: rat
  a_status :: status
  a_finished_at :: "rat option"
  a_session :: "string option"
  a_pool_ever :: "nat option"
  a_display_name :: "string option"
  a_task :: string
  a_supervisor :: string
  a_launch_facts :: json
  a_runtime :: string
  a_model :: string
  a_effort :: "string option"
  a_explicit_finish :: bool
  a_output_schema :: "json option"
  a_provider_identity :: bool
  a_exit_code :: "int option"
  a_failure_kind :: "string option"
  a_failure_text :: "string option"
  a_runtime_session :: "string option"
  a_resume_session :: "string option"
  a_answer :: "(string \<times> nat \<times> string) option"
  a_process_group :: "int option"
  a_supervisor_pid :: "nat option"
  a_idle_ping :: ping_policy

record attempt_row =
  t_id :: string
  t_agent :: string
  t_state :: string
  t_phase :: "string option"
  t_cleanup_proof :: "json option"
  t_ownership_active :: bool
  t_finished_at :: "rat option"
  t_account :: "string option"
  t_number :: nat
  t_process_identity :: "string option"
  t_process_birth :: "rat option"

record capability_row =
  k_attempt :: string
  k_token_sha256 :: string
  k_created_at :: rat
  k_catalog_version :: "nat option"
  k_catalog_digest :: "string option"
  k_catalog_observed_at :: "rat option"

record lifecycle_row =
  l_attempt :: string
  l_phase :: string
  l_turn_count :: nat
  l_transition_at :: rat
  l_idle_seconds :: rat
  l_finish :: "string option"
  l_finish_sha256 :: "string option"
  l_accepted_at :: "rat option"
  l_receipt_observed :: bool

record wake_row =
  w_attempt :: string
  w_receipt_sha256 :: string
  w_command :: nat
  w_created_at :: rat

record session_row =
  s_id :: string
  s_transport :: string
  s_external :: string
  s_turn :: "string option"
  s_created_at :: rat
  s_last_seen_at :: rat

record pool_row =
  p_id :: string
  p_namespace :: string
  p_request_id :: string
  p_request_sha256 :: string
  p_session :: "string option"
  p_goal :: string
  p_acceptance :: json
  p_state :: pool_state
  p_roster_revision :: nat
  p_completed_at :: "rat option"
  p_completion_delivery :: "string option"
  p_created_at :: rat

record member_row =
  m_agent :: string
  m_pool :: string
  m_slot :: nat
  m_name :: string
  m_role :: string
  m_personal_task :: string
  m_joined_revision :: nat
  m_replaced_by :: "string option"

record entry_row =
  e_seq :: nat
  e_pool :: string
  e_author_kind :: author_kind
  e_author_agent :: "string option"
  e_author_name :: "string option"
  e_author_role :: "string option"
  e_direction :: direction
  e_kind :: entry_kind
  e_severity :: "worker_message_kind option"
  e_proposal_seq :: "nat option"
  e_roster_revision :: nat
  e_decision :: "vote_decision option"
  e_snapshot :: "string option"
  e_checks :: "json option"
  e_body :: string
  e_delivery :: "string option"
  e_sender_run :: "string option"
  e_sender_attempt :: "string option"
  e_idem_scope :: string
  e_request_id :: string
  e_created_at :: rat

record command_row =
  c_id :: nat
  c_agent :: string
  c_kind :: string
  c_payload :: json
  c_state :: string
  c_created_at :: rat
  c_result :: "json option"
  c_claimed_at :: "rat option"
  c_completed_at :: "rat option"

record delivery_row =
  d_id :: string
  d_agent :: "string option"
  d_session :: "string option"
  d_event :: "nat option"
  d_state :: string
  d_attempts :: nat
  d_lease_owner :: "string option"
  d_lease_until :: "rat option"
  d_next_attempt_at :: "rat option"
  d_last_error :: "string option"
  d_ambiguous :: bool

record bridge_owner =
  bo_registration_socket :: string
  bo_core_socket :: string
  bo_token_file :: string
  bo_credential_sha256 :: string
  bo_producer :: string

record bridge_intent =
  bi_owner :: bridge_owner
  bi_request_id :: string
  bi_event_id :: string
  bi_address :: string
  bi_kind :: string
  bi_message :: string
  bi_predecessor :: "string option"
  bi_intent_hash :: string

datatype custody_state = CustodyPending | CustodyAccepted | OutcomeUnknown

record bridge_row =
  b_delivery :: string
  b_intent :: "bridge_intent option"
  b_receipt :: "json option"
  b_custody :: custody_state

record evidence_row =
  y_delivery :: string
  y_attempt :: nat
  y_recorded_at :: rat
  y_evidence :: json

record event_row =
  v_seq :: nat
  v_agent :: string
  v_attempt :: "string option"
  v_at :: rat
  v_kind :: string
  v_from :: "status option"
  v_to :: "status option"
  v_data :: json

record notification_row =
  n_delivery :: string
  n_agent :: string
  n_attempt :: string
  n_request_id :: string
  n_kind :: worker_message_kind
  n_message :: string
  n_created_at :: rat

datatype enrollment_state = EnrollPending | EnrollJoined | EnrollNeedsAction

record enrollment_row =
  j_agent :: string
  j_run :: string
  j_attempt :: string
  j_challenge :: string
  j_deadline :: rat
  j_state :: enrollment_state
  j_created_at :: rat
  j_ack_seq :: "nat option"
  j_ack_at :: "rat option"
  j_failure :: "string option"
  j_attention_delivery :: "string option"
  j_attention_issued :: bool

record restart_row =
  r_id :: nat
  r_request_id :: string
  r_phase :: string
  r_started_at :: rat
  r_boot_id :: string
  r_notice_wait :: "nat option"
  r_writer_epoch :: "nat option"
  r_finished_at :: "rat option"

record restart_agent_row =
  ra_restart :: nat
  ra_agent :: string
  ra_session :: "string option"
  ra_cancelled_before :: bool
  ra_first_notice :: "nat option"
  ra_second_notice :: "nat option"
  ra_force_requested :: "nat option"
  ra_resume_requested :: "nat option"
  ra_resumed_execution :: "string option"
  ra_resume_status :: string
  ra_resume_error :: "string option"

record restart_recipient_row =
  rr_restart :: nat
  rr_transport :: string
  rr_external :: string
  rr_had_agents :: bool
  rr_tried_start :: bool

record restart_notice_row =
  rn_restart :: nat
  rn_transport :: string
  rn_external :: string
  rn_stage :: string
  rn_message :: string
  rn_delivery :: string

record process_identity =
  i_pid :: int
  i_ppid :: int
  i_group :: int
  i_birth :: f64
  i_token :: string
  i_zombie :: bool
  i_program :: "string option"

record process_owner_row =
  o_kind :: string
  o_owner :: string
  o_leader :: process_identity
  o_descendants :: bool
  o_updated_at :: rat

record process_member_row =
  q_kind :: string
  q_owner :: string
  q_pid :: int
  q_token :: string
  q_identity :: process_identity

record db =
  agents :: "agent_row list"
  attempts :: "attempt_row list"
  capabilities :: "capability_row list"
  worker_lifecycle :: "lifecycle_row list"
  sessions :: "session_row list"
  pools :: "pool_row list"
  members :: "member_row list"
  entries :: "entry_row list"
  entry_seq :: nat
  commands :: "command_row list"
  command_seq :: nat
  deliveries :: "delivery_row list"
  events :: "event_row list"
  event_seq :: nat
  notifications :: "notification_row list"
  enrollments :: "enrollment_row list"
  restarts :: "restart_row list"
  restart_seq :: nat
  restart_agents :: "restart_agent_row list"
  restart_recipients :: "restart_recipient_row list"
  restart_notices :: "restart_notice_row list"
  wakes :: "wake_row list"
  bridge_intents :: "bridge_row list"
  delivery_evidence :: "evidence_row list"
  process_owners :: "process_owner_row list"
  process_members :: "process_member_row list"
  writer_epoch :: "nat option"

definition commit :: "db \<Rightarrow> error + ('a \<times> db) \<Rightarrow> 'a res \<times> db" where
  "commit db r = (case r of Inl e \<Rightarrow> (Inl e, db) | Inr (a, db') \<Rightarrow> (Inr a, db'))"

lemma commit_simps [simp]: "commit db (Inl e) = (Inl e, db)" "commit db (Inr (a, db')) = (Inr a, db')"
  by (simp_all add: commit_def)

section \<open>Shared reads and writes\<close>

definition parse_agent :: "ext \<Rightarrow> string \<Rightarrow> string res" where
  "parse_agent x s = agent_id_from_str (x_datetime_ok x) s"

definition parse_pool :: "ext \<Rightarrow> string \<Rightarrow> string res" where
  "parse_pool x s = pool_id_from_str (x_datetime_ok x) s"

definition agent_by_id :: "db \<Rightarrow> string \<Rightarrow> agent_row option" where
  "agent_by_id db i = find (\<lambda>a. a_id a = i) (agents db)"

definition pool_by_id :: "db \<Rightarrow> string \<Rightarrow> pool_row option" where
  "pool_by_id db i = find (\<lambda>p. p_id p = i) (pools db)"

text \<open>\<^verbatim>\<open>SELECT status FROM agents WHERE id=?\<close> as a non-optional single-row query.\<close>

definition agent_status :: "db \<Rightarrow> string \<Rightarrow> status res" where
  "agent_status db i = bindr (ok_or no_rows (agent_by_id db i)) (\<lambda>a. Inr (a_status a))"

definition lineage :: "db \<Rightarrow> string \<Rightarrow> agent_row list" where
  "lineage db rt = filter (\<lambda>a. a_root a = rt \<or> a_id a = rt) (agents db)"

definition tip_row :: "db \<Rightarrow> string \<Rightarrow> agent_row option" where
  "tip_row db rt = max_row (\<lambda>a. (a_sequence a, a_created_at a, a_id a)) (lineage db rt)"

definition tip_of :: "ext \<Rightarrow> db \<Rightarrow> string \<Rightarrow> string res" where
  "tip_of x db rt = bindr (ok_or no_rows (tip_row db rt)) (\<lambda>a. parse_agent x (a_id a))"

text \<open>
  The query counts attempts with no proof or another phase; a phase that is \<^verbatim>\<open>NULL\<close> makes
  \<^verbatim>\<open>phase!='cleanup_complete'\<close> unknown, so such a row is counted only if its proof is missing.
\<close>

definition attempt_uncleaned :: "attempt_row \<Rightarrow> bool" where
  "attempt_uncleaned t \<longleftrightarrow>
     t_cleanup_proof t = None
     \<or> (case t_phase t of None \<Rightarrow> False | Some ph \<Rightarrow> ph \<noteq> ''cleanup_complete'')"

definition lineage_cleanup_complete :: "db \<Rightarrow> string \<Rightarrow> bool" where
  "lineage_cleanup_complete db rt =
     (length (filter (\<lambda>t. t_agent t \<in> a_id ` set (lineage db rt) \<and> attempt_uncleaned t) (attempts db)) = 0)"

definition owned_attempt :: "db \<Rightarrow> string \<Rightarrow> string option" where
  "owned_attempt db agent =
     map_option t_id (find (\<lambda>t. t_agent t = agent \<and> t_ownership_active t) (attempts db))"

definition insert_event :: "event_row \<Rightarrow> db \<Rightarrow> nat \<times> db" where
  "insert_event v db =
     (let seq = Suc (event_seq db) in
      (seq, db\<lparr> events := events db @ [v\<lparr> v_seq := seq \<rparr>], event_seq := seq \<rparr>))"

definition tx_event ::
    "ext \<Rightarrow> db \<Rightarrow> string \<Rightarrow> string \<Rightarrow> status option \<Rightarrow> status option \<Rightarrow> json \<Rightarrow> nat \<times> db" where
  "tx_event x db agent kind from to data =
     insert_event
       \<lparr> v_seq = 0, v_agent = agent, v_attempt = owned_attempt db agent, v_at = x_now x, v_kind = kind,
         v_from = from, v_to = to, v_data = data \<rparr> db"

definition insert_command :: "command_row \<Rightarrow> db \<Rightarrow> db" where
  "insert_command c db =
     (let i = Suc (command_seq db) in
      db\<lparr> commands := commands db @ [c\<lparr> c_id := i \<rparr>], command_seq := i \<rparr>)"

definition insert_delivery :: "delivery_row \<Rightarrow> db \<Rightarrow> db" where
  "insert_delivery d db = db\<lparr> deliveries := deliveries db @ [d] \<rparr>"

definition new_delivery ::
    "string \<Rightarrow> string \<Rightarrow> string option \<Rightarrow> nat \<Rightarrow> string \<Rightarrow> rat option \<Rightarrow> delivery_row" where
  "new_delivery i agent session event state next_at =
     \<lparr> d_id = i, d_agent = Some agent, d_session = session, d_event = Some event, d_state = state, d_attempts = 0,
       d_lease_owner = None, d_lease_until = None, d_next_attempt_at = next_at, d_last_error = None, d_ambiguous = False \<rparr>"

definition notification_id :: "ext \<Rightarrow> db \<Rightarrow> string" where
  "notification_id x db = ''ntf_'' @ x_uuid x (length (deliveries db))"

subsection \<open>Restarts\<close>

definition json_true :: "json \<Rightarrow> bool" where
  "json_true v \<longleftrightarrow> v = JBool True \<or> v = JNum 1"

definition is_restart_stop :: "db \<Rightarrow> string \<Rightarrow> bool" where
  "is_restart_stop db agent =
     list_ex (\<lambda>v. v_agent v = agent \<and> v_kind v = ''status''
       \<and> json_true (jfield ''service_restart'' (v_data v))) (events db)"

definition restart_visible :: "restart_agent_row \<Rightarrow> restart_row \<Rightarrow> bool" where
  "restart_visible a r \<longleftrightarrow>
     (r_finished_at r = None \<and> ra_resume_status a = ''pending'')
     \<or> ra_resume_status a = ''failed'' \<or> ra_resume_status a = ''unconfirmed''
     \<or> (ra_resume_status a = ''cancelled'' \<and> \<not> ra_cancelled_before a)"

definition restart_view :: "db \<Rightarrow> string \<Rightarrow> (string \<times> string option) option" where
  "restart_view db agent =
     (case max_row (\<lambda>(a, r). r_id r)
         (filter (\<lambda>(a, r). ra_restart a = r_id r \<and> ra_agent a = agent \<and> restart_visible a r
             \<and> is_restart_stop db agent)
           (List.product (restart_agents db) (restarts db))) of
        None \<Rightarrow> None
      | Some (a, r) \<Rightarrow>
          Some (if ra_resume_status a = ''cancelled''
                   \<and> list_ex (\<lambda>c. Some (a_id c) = ra_resumed_execution a \<and> \<not> terminal (a_status c)) (agents db)
                then ''cancelling'' else ra_resume_status a,
                ra_resume_error a))"

definition active_service_restart :: "db \<Rightarrow> nat option" where
  "active_service_restart db = map_option r_id (find (\<lambda>r. r_finished_at r = None) (restarts db))"

subsection \<open>Orchestrator sessions\<close>

definition session_by_id :: "db \<Rightarrow> string \<Rightarrow> session_row option" where
  "session_by_id db i = find (\<lambda>s. s_id s = i) (sessions db)"

definition session_ids_for_reference :: "db \<Rightarrow> orchestrator_ref \<Rightarrow> string list res" where
  "session_ids_for_reference db r =
     bindr (validate_ref r) (\<lambda>_.
     bindr (canonical_transport r) (\<lambda>canonical.
     bindr (legacy_transport r) (\<lambda>legacy.
       Inr (map s_id (sort_key (\<lambda>s. (s_transport s \<noteq> canonical, s_id s))
         (filter (\<lambda>s. s_external s = external_session_id r
             \<and> (s_transport s = canonical \<or> s_transport s = legacy)) (sessions db)))))))"

definition session_id_for_reference :: "db \<Rightarrow> orchestrator_ref \<Rightarrow> string option res" where
  "session_id_for_reference db r =
     bindr (session_ids_for_reference db r) (\<lambda>ids. Inr (case ids of [] \<Rightarrow> None | i # _ \<Rightarrow> Some i))"

definition session_matches_reference :: "db \<Rightarrow> string \<Rightarrow> orchestrator_ref \<Rightarrow> bool res" where
  "session_matches_reference db sid r =
     bindr (validate_ref r) (\<lambda>_.
     bindr (canonical_transport r) (\<lambda>canonical.
       Inr (case session_by_id db sid of
              None \<Rightarrow> False
            | Some s \<Rightarrow> canonical_transport_name (s_transport s) = Inr canonical
                 \<and> s_external s = external_session_id r)))"

definition set_turn :: "string \<Rightarrow> orchestrator_ref \<Rightarrow> rat \<Rightarrow> db \<Rightarrow> db" where
  "set_turn sid r tm db =
     db\<lparr> sessions := map (\<lambda>s. if s_id s = sid
       then s\<lparr> s_turn := external_turn_id r, s_last_seen_at := tm \<rparr> else s) (sessions db) \<rparr>"

definition touch_session_reference :: "db \<Rightarrow> string \<Rightarrow> orchestrator_ref \<Rightarrow> rat \<Rightarrow> db res" where
  "touch_session_reference db sid r tm =
     bindr (session_matches_reference db sid r) (\<lambda>ok.
       if \<not> ok then Inl (invalid ''orchestrator session identity changed'')
       else Inr (set_turn sid r tm db))"

definition session_for_reference :: "ext \<Rightarrow> db \<Rightarrow> orchestrator_ref \<Rightarrow> rat \<Rightarrow> (string \<times> db) res" where
  "session_for_reference x db r tm =
     bindr (validate_ref r) (\<lambda>_.
     bindr (canonical_transport r) (\<lambda>transport.
     bindr (session_id_for_reference db r) (\<lambda>found.
       case found of
         Some sid \<Rightarrow> Inr (sid, set_turn sid r tm db)
       | None \<Rightarrow>
           let candidate = ''os-'' @ x_uuid x (length (sessions db)) in
           Inr (candidate, db\<lparr> sessions := sessions db @
             [\<lparr> s_id = candidate, s_transport = transport, s_external = external_session_id r,
                s_turn = external_turn_id r, s_created_at = tm, s_last_seen_at = tm \<rparr>] \<rparr>))))"

lemma session_for_sessions:
  assumes "session_for_reference x db r tm = Inr (sid, db')"
  shows "\<exists>ss. db' = db\<lparr> sessions := ss \<rparr>"
proof -
  from assms obtain transport found where "canonical_transport r = Inr transport"
    "session_id_for_reference db r = Inr found"
    unfolding session_for_reference_def bindr_eq_Inr by blast
  with assms show ?thesis
    by (cases found) (simp_all add: session_for_reference_def set_turn_def Let_def, blast+)
qed

end
