(* ===== verification/PoolEntries.thy ===== *)
theory PoolEntries
  imports Db
begin

text \<open>
  The pool log as rows of \<^verbatim>\<open>pool_entries\<close>: the constraints of the table
  (\<^verbatim>\<open>sql/migrations/025_agent_pools.sql\<close>), the reads of \<^verbatim>\<open>crates/agent-run-store/src/pool_log.rs\<close> that the
  worker, settlement and log components share, and the fan-out of an entry to its recipients. The
  well-formedness of a log, \<open>log_wf\<close>, is kept by every insertion that satisfies the constraints.
\<close>

section \<open>Model\<close>

subsection \<open>Constraints of the table\<close>

definition entry_shape :: "entry_row \<Rightarrow> bool" where
  "entry_shape r \<longleftrightarrow>
     (if e_author_kind r = AuthorMember
      then e_author_agent r \<noteq> None \<and> e_author_name r \<noteq> None \<and> e_author_role r \<noteq> None
        \<and> e_sender_run r \<noteq> None \<and> e_sender_attempt r \<noteq> None
      else e_author_agent r = None \<and> e_author_name r = None \<and> e_author_role r = None
        \<and> e_sender_run r = None \<and> e_sender_attempt r = None)
     \<and> (e_author_kind r \<noteq> AuthorOperator \<or> (e_kind r = MessageEntry \<and> e_direction r = Team))
     \<and> (e_author_kind r \<noteq> AuthorBroker \<or> (e_kind r = RosterEntry \<and> e_direction r = Team))
     \<and> (e_kind r \<noteq> RosterEntry \<or> e_author_kind r = AuthorBroker)
     \<and> (e_direction r = Team \<or> e_kind r = ReportEntry)
     \<and> ((e_kind r = ReportEntry) = (e_severity r \<noteq> None))
     \<and> (e_delivery r = None \<or> e_kind r = ReportEntry)
     \<and> ((e_kind r = ProposalEntry) = (e_snapshot r \<noteq> None))
     \<and> ((e_kind r \<in> {VoteEntry, RevokeEntry}) = (e_proposal_seq r \<noteq> None))
     \<and> ((e_kind r = VoteEntry) = (e_decision r \<noteq> None))
     \<and> (e_decision r \<in> {None, Some Ready, Some Block})
     \<and> (e_kind r \<in> {VoteEntry, ProposalEntry} \<or> e_checks r = None)"

definition entry_sizes :: "ext \<Rightarrow> entry_row \<Rightarrow> bool" where
  "entry_sizes x r \<longleftrightarrow>
     1 \<le> length (e_body r) \<and> length (e_body r) \<le> 8192
     \<and> (case e_snapshot r of None \<Rightarrow> True | Some s \<Rightarrow> length s \<le> 65536)
     \<and> (case e_checks r of None \<Rightarrow> True | Some c \<Rightarrow> x_json_len x c \<le> 16384)
     \<and> 1 \<le> length (chars (e_idem_scope r)) \<and> length (chars (e_idem_scope r)) \<le> 64
     \<and> 1 \<le> length (chars (e_request_id r)) \<and> length (chars (e_request_id r)) \<le> 128
     \<and> 1 \<le> e_roster_revision r"

definition entry_references :: "db \<Rightarrow> entry_row \<Rightarrow> bool" where
  "entry_references db r \<longleftrightarrow>
     list_ex (\<lambda>p. p_id p = e_pool r) (pools db)
     \<and> (case e_author_agent r of
          None \<Rightarrow> True
        | Some a \<Rightarrow> list_ex (\<lambda>m. m_pool m = e_pool r \<and> m_agent m = a) (members db))
     \<and> (case e_proposal_seq r of
          None \<Rightarrow> True
        | Some q \<Rightarrow> list_ex (\<lambda>e. e_pool e = e_pool r \<and> e_seq e = q) (entries db))"

definition entry_unique :: "db \<Rightarrow> entry_row \<Rightarrow> bool" where
  "entry_unique db r \<longleftrightarrow>
     \<not> list_ex (\<lambda>e. e_pool e = e_pool r \<and> e_idem_scope e = e_idem_scope r
           \<and> e_request_id e = e_request_id r) (entries db)
     \<and> (e_delivery r = None \<or> \<not> list_ex (\<lambda>e. e_delivery e = e_delivery r) (entries db))"

definition entry_constraints :: "ext \<Rightarrow> db \<Rightarrow> entry_row \<Rightarrow> bool" where
  "entry_constraints x db r \<longleftrightarrow>
     entry_shape r \<and> entry_sizes x r \<and> entry_references db r \<and> entry_unique db r"

text \<open>
  An insertion: a violated constraint is the given error, and a row gets the next value of the
  table's \<^verbatim>\<open>AUTOINCREMENT\<close> sequence.
\<close>

definition insert_entry :: "ext \<Rightarrow> error \<Rightarrow> entry_row \<Rightarrow> db \<Rightarrow> (nat \<times> db) res" where
  "insert_entry x violated r db =
     (if \<not> entry_constraints x db r then Inl violated
      else let seq = Suc (entry_seq db) in
        Inr (seq, db\<lparr> entries := entries db @ [r\<lparr> e_seq := seq \<rparr>], entry_seq := seq \<rparr>))"

subsection \<open>Reads\<close>

definition criteria_of :: "json \<Rightarrow> (string \<times> string) list res" where
  "criteria_of acceptance =
     (case acceptance of
        JArr items \<Rightarrow>
          mapr (\<lambda>c. bindr (ok_or (Integrity ''criterion has no id'') (as_str (jfield ''id'' c))) (\<lambda>i.
            Inr (i, case as_str (jfield ''text'' c) of Some t \<Rightarrow> t | None \<Rightarrow> []))) items
      | _ \<Rightarrow> Inl (Integrity ''pool acceptance is not an array''))"

definition pool_entries :: "db \<Rightarrow> string \<Rightarrow> entry_row list" where
  "pool_entries db pool = filter (\<lambda>e. e_pool e = pool) (entries db)"

definition current_proposal :: "db \<Rightarrow> string \<Rightarrow> (nat \<times> string \<times> nat) option" where
  "current_proposal db pool =
     map_option (\<lambda>e. (e_seq e, (case e_snapshot e of Some s \<Rightarrow> s | None \<Rightarrow> []), e_roster_revision e))
       (max_row e_seq (filter (\<lambda>e. e_kind e = ProposalEntry) (pool_entries db pool)))"

definition is_vote_on :: "string \<Rightarrow> nat \<Rightarrow> entry_row \<Rightarrow> bool" where
  "is_vote_on member proposal e \<longleftrightarrow>
     e_author_agent e = Some member \<and> e_proposal_seq e = Some proposal
     \<and> e_kind e \<in> {VoteEntry, RevokeEntry}"

definition latest_vote_row :: "db \<Rightarrow> string \<Rightarrow> string \<Rightarrow> nat \<Rightarrow> entry_row option" where
  "latest_vote_row db pool member proposal =
     max_row e_seq (filter (is_vote_on member proposal) (pool_entries db pool))"

record vote_view =
  vv_kind :: entry_kind
  vv_decision :: "vote_decision option"
  vv_checks :: "json option"
  vv_sender :: string

definition latest_vote :: "db \<Rightarrow> string \<Rightarrow> string \<Rightarrow> nat \<Rightarrow> vote_view option" where
  "latest_vote db pool member proposal =
     map_option (\<lambda>e. \<lparr> vv_kind = e_kind e, vv_decision = e_decision e, vv_checks = e_checks e,
         vv_sender = (case e_sender_run e of Some r \<Rightarrow> r | None \<Rightarrow> []) \<rparr>)
       (latest_vote_row db pool member proposal)"

text \<open>\<^verbatim>\<open>serde_json::from_str::<Vec<Value>>\<close> of a stored document.\<close>

definition checks_items :: "json option \<Rightarrow> json list option" where
  "checks_items c = (case c of Some (JArr items) \<Rightarrow> Some items | _ \<Rightarrow> None)"

definition all_met :: "json list \<Rightarrow> bool" where
  "all_met items = list_all (\<lambda>c. jfield ''status'' c = JStr ''met'') items"

fun decision_text :: "vote_decision option \<Rightarrow> string" where
  "decision_text None = []"
| "decision_text (Some d) = decision_as_str d"

definition vote_validity ::
    "vote_view option \<Rightarrow> nat \<Rightarrow> nat \<Rightarrow> string \<Rightarrow> status \<Rightarrow> string option \<times> string" where
  "vote_validity latest roster_revision proposal_roster tip tip_status =
     (case latest of
        None \<Rightarrow> (None, ''missing'')
      | Some v \<Rightarrow>
          if vv_kind v = RevokeEntry then (Some ''revoke'', ''revoked'')
          else
          let decision = decision_text (vv_decision v) in
          if decision = ''block'' then (Some ''block'', ''blocked'')
          else if proposal_roster \<noteq> roster_revision then (Some decision, ''stale_roster'')
          else if vv_sender v \<noteq> tip then (Some decision, ''stale_tip'')
          else if tip_status \<notin> {Running, Succeeded} then (Some decision, status_as_str tip_status)
          else if \<not> (case checks_items (vv_checks v) of Some items \<Rightarrow> all_met items | None \<Rightarrow> False)
          then (Some decision, ''checks_unmet'')
          else (Some decision, ''valid''))"

subsection \<open>Fan-out\<close>

definition current_seats :: "db \<Rightarrow> string \<Rightarrow> member_row list" where
  "current_seats db pool = filter (\<lambda>m. m_pool m = pool \<and> m_replaced_by m = None) (members db)"

definition pool_command :: "ext \<Rightarrow> string \<Rightarrow> nat \<Rightarrow> command_row" where
  "pool_command x tip seq =
     \<lparr> c_id = 0, c_agent = tip, c_kind = ''pool'', c_payload = JObj [(''seq'', JNum (int seq))],
       c_state = ''pending'', c_created_at = x_now x, c_result = None,
       c_claimed_at = None, c_completed_at = None \<rparr>"

definition fanout_seat :: "ext \<Rightarrow> nat \<Rightarrow> string \<Rightarrow> db \<Rightarrow> db res" where
  "fanout_seat x seq seat db =
     bindr (parse_agent x seat) (\<lambda>seat.
     bindr (tip_of x db seat) (\<lambda>tip.
     bindr (agent_status db tip) (\<lambda>status.
       if terminal status then Inr db else Inr (insert_command (pool_command x tip seq) db))))"

fun fanout_seats :: "ext \<Rightarrow> nat \<Rightarrow> string list \<Rightarrow> db \<Rightarrow> db res" where
  "fanout_seats x seq [] db = Inr db"
| "fanout_seats x seq (seat # seats) db = bindr (fanout_seat x seq seat db) (fanout_seats x seq seats)"

definition fanout_entry :: "ext \<Rightarrow> string \<Rightarrow> string \<Rightarrow> nat \<Rightarrow> db \<Rightarrow> db res" where
  "fanout_entry x pool sender_seat seq db =
     fanout_seats x seq
       (map m_agent (filter (\<lambda>m. m_agent m \<noteq> sender_seat) (current_seats db pool))) db"

section \<open>Properties\<close>

subsection \<open>A well-formed log\<close>

definition idem_key :: "entry_row \<Rightarrow> string \<times> string \<times> string" where
  "idem_key e = (e_pool e, e_idem_scope e, e_request_id e)"

definition log_wf :: "db \<Rightarrow> bool" where
  "log_wf db \<longleftrightarrow>
     sorted_wrt (<) (map e_seq (entries db))
     \<and> (\<forall>e \<in> set (entries db). 1 \<le> e_seq e \<and> e_seq e \<le> entry_seq db \<and> entry_shape e)
     \<and> distinct (map idem_key (entries db))
     \<and> (\<forall>e \<in> set (entries db). \<forall>q. e_proposal_seq e = Some q \<longrightarrow>
          (\<exists>f \<in> set (entries db). e_pool f = e_pool e \<and> e_seq f = q \<and> e_seq f < e_seq e))"

lemma entry_shape_seq [simp]: "entry_shape (r\<lparr>e_seq := n\<rparr>) = entry_shape r"
  by (simp add: entry_shape_def)

lemma entry_unique_idem: "entry_unique db r \<Longrightarrow> idem_key r \<notin> idem_key ` set (entries db)"
  by (auto simp: entry_unique_def idem_key_def list_ex_iff)

lemma insert_entry_Inr:
  "insert_entry x v r db = Inr (seq, db') \<longleftrightarrow>
     entry_constraints x db r \<and> seq = Suc (entry_seq db)
     \<and> db' = db\<lparr> entries := entries db @ [r\<lparr> e_seq := seq \<rparr>], entry_seq := seq \<rparr>"
  by (auto simp: insert_entry_def Let_def)

lemma insert_entry_wf:
  assumes "log_wf db" and "insert_entry x v r db = Inr (seq, db')"
  shows "log_wf db'"
proof -
  from assms(2) have c: "entry_constraints x db r" and seq: "seq = Suc (entry_seq db)"
    and db': "db' = db\<lparr> entries := entries db @ [r\<lparr> e_seq := seq \<rparr>], entry_seq := seq \<rparr>"
    by (simp_all only: insert_entry_Inr)
  have below: "e_seq e < seq" if "e \<in> set (entries db)" for e
    using assms(1) that seq by (auto simp: log_wf_def less_Suc_eq_le)
  have "sorted_wrt (<) (map e_seq (entries db'))"
    using assms(1) below by (auto simp: log_wf_def db' sorted_wrt_append)
  moreover have "\<forall>e \<in> set (entries db'). 1 \<le> e_seq e \<and> e_seq e \<le> entry_seq db' \<and> entry_shape e"
    using assms(1) below seq c by (auto simp: log_wf_def db' entry_constraints_def less_imp_le)
  moreover have "distinct (map idem_key (entries db'))"
    using assms(1) c entry_unique_idem [of db r]
    by (auto simp: log_wf_def db' entry_constraints_def idem_key_def)
  moreover have "\<exists>f \<in> set (entries db'). e_pool f = e_pool e \<and> e_seq f = q \<and> e_seq f < e_seq e"
    if "e \<in> set (entries db')" "e_proposal_seq e = Some q" for e q
  proof (cases "e \<in> set (entries db)")
    case True
    with assms(1) that(2) show ?thesis by (fastforce simp: log_wf_def db')
  next
    case False
    with that have e: "e = r\<lparr> e_seq := seq \<rparr>" by (simp add: db')
    with c that(2) obtain f where "f \<in> set (entries db)" "e_pool f = e_pool r" "e_seq f = q"
      by (auto simp: entry_constraints_def entry_references_def list_ex_iff)
    with below e show ?thesis by (auto simp: db')
  qed
  ultimately show ?thesis by (auto simp: log_wf_def)
qed

lemma log_wf_cong:
  assumes "entries db' = entries db" and "entry_seq db' = entry_seq db"
  shows "log_wf db' = log_wf db"
  using assms by (simp add: log_wf_def)

lemma log_wf_seq_unique:
  assumes "log_wf db" "e \<in> set (entries db)" "f \<in> set (entries db)" "e_seq e = e_seq f"
  shows "e = f"
proof -
  have "distinct (map e_seq (entries db))"
    using assms(1) by (simp add: log_wf_def strict_sorted_iff)
  with assms(2-4) show ?thesis by (auto simp: distinct_map dest: inj_onD)
qed

subsection \<open>Vote validity\<close>

lemma status_not_valid: "status_as_str s \<noteq> ''valid''"
  by (cases s) simp_all

lemma decision_text_block: "decision_text d = ''block'' \<longleftrightarrow> d = Some Block"
proof (cases d)
  case (Some e)
  then show ?thesis by (cases e) simp_all
qed simp

lemma vote_validity_valid:
  "snd (vote_validity latest roster proposal_roster tip st) = ''valid'' \<longleftrightarrow>
     (\<exists>v. latest = Some v \<and> vv_kind v \<noteq> RevokeEntry \<and> vv_decision v \<noteq> Some Block
        \<and> proposal_roster = roster \<and> vv_sender v = tip \<and> st \<in> {Running, Succeeded}
        \<and> (\<exists>items. checks_items (vv_checks v) = Some items \<and> all_met items))"
  by (cases latest)
    (simp_all add: vote_validity_def Let_def status_not_valid decision_text_block split: option.splits)

subsection \<open>Fan-out\<close>

text \<open>The database after appending commands only.\<close>

definition add_commands :: "command_row list \<Rightarrow> nat \<Rightarrow> db \<Rightarrow> db" where
  "add_commands cs n db = db\<lparr> commands := commands db @ cs, command_seq := n \<rparr>"

lemma add_commands_simps [simp]:
  "entries (add_commands cs n db) = entries db" "entry_seq (add_commands cs n db) = entry_seq db"
  "agents (add_commands cs n db) = agents db" "attempts (add_commands cs n db) = attempts db"
  "pools (add_commands cs n db) = pools db" "members (add_commands cs n db) = members db"
  "enrollments (add_commands cs n db) = enrollments db" "events (add_commands cs n db) = events db"
  "deliveries (add_commands cs n db) = deliveries db" "sessions (add_commands cs n db) = sessions db"
  "notifications (add_commands cs n db) = notifications db"
  "capabilities (add_commands cs n db) = capabilities db"
  "event_seq (add_commands cs n db) = event_seq db"
  "commands (add_commands cs n db) = commands db @ cs"
  by (simp_all add: add_commands_def)

lemma add_commands_add: "add_commands ds m (add_commands cs n db) = add_commands (cs @ ds) m db"
  by (simp add: add_commands_def)

lemma tip_row_commands [simp]: "tip_row (add_commands cs n db) = tip_row db"
  by (rule ext) (simp add: tip_row_def lineage_def)

lemma agent_by_id_commands [simp]: "agent_by_id (add_commands cs n db) = agent_by_id db"
  by (rule ext) (simp add: agent_by_id_def)

text \<open>The execution a seat's commands go to, if it has not ended.\<close>

definition live_tip :: "db \<Rightarrow> string \<Rightarrow> string list" where
  "live_tip db seat =
     (case tip_row db seat of
        None \<Rightarrow> []
      | Some a \<Rightarrow> (case agent_by_id db (a_id a) of
                    None \<Rightarrow> []
                  | Some b \<Rightarrow> if terminal (a_status b) then [] else [a_id a]))"

lemma live_tip_commands [simp]: "live_tip (add_commands cs n db) = live_tip db"
  by (rule ext) (simp add: live_tip_def split: option.split)

definition recipients :: "db \<Rightarrow> string \<Rightarrow> string \<Rightarrow> string list" where
  "recipients db pool sender =
     concat (map (live_tip db \<circ> m_agent) (filter (\<lambda>m. m_agent m \<noteq> sender) (current_seats db pool)))"

lemma fanout_seat_Inr:
  assumes "fanout_seat x seq seat db = Inr db'"
  shows "\<exists>cs n. db' = add_commands cs n db \<and> map c_agent cs = live_tip db seat
    \<and> (\<forall>c \<in> set cs. c_kind c = ''pool'' \<and> c_payload c = JObj [(''seq'', JNum (int seq))]
          \<and> c_state c = ''pending'')"
proof -
  from assms obtain a st where tip: "tip_row db seat = Some a"
    and st: "agent_status db (a_id a) = Inr st"
    and db': "db' = (if terminal st then db else insert_command (pool_command x (a_id a) seq) db)"
    by (auto simp: fanout_seat_def tip_of_def parse_agent_def agent_id_from_str_def ok_or_def
        split: if_splits option.splits)
  from st obtain b where b: "agent_by_id db (a_id a) = Some b" "a_status b = st"
    by (auto simp: agent_status_def ok_or_def split: option.splits)
  show ?thesis
  proof (cases "terminal st")
    case True
    then show ?thesis using tip b db'
      by (intro exI [of _ "[]"] exI [of _ "command_seq db"]) (simp add: add_commands_def live_tip_def)
  next
    case False
    then show ?thesis using tip b db'
      by (intro exI [of _ "[(pool_command x (a_id a) seq)\<lparr>c_id := Suc (command_seq db)\<rparr>]"]
          exI [of _ "Suc (command_seq db)"])
        (simp add: add_commands_def live_tip_def insert_command_def pool_command_def Let_def)
  qed
qed

lemma fanout_seats_Inr:
  assumes "fanout_seats x seq seats db = Inr db'"
  shows "\<exists>cs n. db' = add_commands cs n db \<and> map c_agent cs = concat (map (live_tip db) seats)
    \<and> (\<forall>c \<in> set cs. c_kind c = ''pool'' \<and> c_payload c = JObj [(''seq'', JNum (int seq))]
          \<and> c_state c = ''pending'')"
  using assms
proof (induction seats arbitrary: db)
  case Nil
  then show ?case by (intro exI [of _ "[]"] exI [of _ "command_seq db"]) (simp add: add_commands_def)
next
  case (Cons seat seats)
  then obtain db1 where h: "fanout_seat x seq seat db = Inr db1" "fanout_seats x seq seats db1 = Inr db'"
    by auto
  from fanout_seat_Inr [OF h(1)] Cons.IH [OF h(2)] show ?case
    by (auto simp: add_commands_add) (metis Un_iff map_append set_append)
qed

lemma fanout_entry_Inr:
  assumes "fanout_entry x pool sender seq db = Inr db'"
  obtains cs n where "db' = add_commands cs n db" "map c_agent cs = recipients db pool sender"
    "\<forall>c \<in> set cs. c_kind c = ''pool'' \<and> c_payload c = JObj [(''seq'', JNum (int seq))]
        \<and> c_state c = ''pending''"
  using fanout_seats_Inr [OF assms [unfolded fanout_entry_def]]
  by (auto simp: recipients_def map_map comp_def)

end
