(* ===== verification/WorkerStore.thy ===== *)
theory WorkerStore
  imports PoolEntries
begin

text \<open>
  Worker capabilities and reports, from \<^verbatim>\<open>crates/agent-run-store/src/worker.rs\<close>: the authentication of an
  attempt, the issue of a capability, the registration of a worker catalog, and the report to the
  orchestrator with its copy in the pool log.
\<close>

section \<open>Model\<close>

definition MAX_MESSAGES :: nat where
  "MAX_MESSAGES = 20"

definition MIN_INTERVAL :: rat where
  "MIN_INTERVAL = 30"

definition valid_token :: "string \<Rightarrow> bool" where
  "valid_token token \<longleftrightarrow>
     length token = 64 \<and> list_all (\<lambda>b. is_ascii_hexdigit b \<and> \<not> is_ascii_uppercase b) token"

text \<open>\<^verbatim>\<open>at.is_finite() && at >= 0.0\<close>.\<close>

definition time_of :: "f64 \<Rightarrow> rat option" where
  "time_of tm = (case tm of Finite t \<Rightarrow> if 0 \<le> t then Some t else None | NotFinite \<Rightarrow> None)"

record attempt_auth =
  au_root :: string
  au_session :: "string option"
  au_running :: bool

definition resolve_root :: "ext \<Rightarrow> db \<Rightarrow> string \<Rightarrow> string res" where
  "resolve_root x db run =
     bindr (ok_or no_rows (agent_by_id db run)) (\<lambda>a.
       parse_agent x (if a_root a = [] then a_id a else a_root a))"

definition owned_live :: "string \<Rightarrow> string \<Rightarrow> attempt_row \<Rightarrow> bool" where
  "owned_live run attempt t \<longleftrightarrow>
     t_id t = attempt \<and> t_agent t = run \<and> t_ownership_active t \<and> t_finished_at t = None"

definition capability_of :: "db \<Rightarrow> string \<Rightarrow> capability_row option" where
  "capability_of db attempt = find (\<lambda>c. k_attempt c = attempt) (capabilities db)"

definition authenticate_attempt ::
    "ext \<Rightarrow> db \<Rightarrow> string \<Rightarrow> string \<Rightarrow> string \<Rightarrow> f64 \<Rightarrow> attempt_auth option res" where
  "authenticate_attempt x db run attempt token tm =
     (if \<not> valid_token token \<or> time_of tm = None then Inr None
      else
      case (find (owned_live run attempt) (attempts db), capability_of db attempt,
            find (\<lambda>a. a_id a = run \<and> a_finished_at a = None) (agents db)) of
        (Some t, Some c, Some a) \<Rightarrow>
          if k_token_sha256 c \<noteq> x_sha256 x token then Inr None
          else
          bindr (resolve_root x db run) (\<lambda>rt.
            Inr (Some \<lparr> au_root = rt, au_session = a_session a,
              au_running = (t_state t = ''running'' \<and> a_status a = Running
                \<and> \<not> list_ex (\<lambda>l. l_attempt l = t_id t \<and> l_phase l = ''closing'') (worker_lifecycle db)) \<rparr>))
      | _ \<Rightarrow> Inr None)"

definition issue_worker_capability_tx ::
    "ext \<Rightarrow> db \<Rightarrow> string \<Rightarrow> string \<Rightarrow> string \<Rightarrow> f64 \<Rightarrow> error + (unit \<times> db)" where
  "issue_worker_capability_tx x db run attempt token tm =
     (case (valid_token token, time_of tm) of
        (True, Some t) \<Rightarrow>
          if \<not> list_ex (owned_live run attempt) (attempts db)
          then Inl (Validation ''worker attempt is not active'')
          else
          let digest = x_sha256 x token in
          (case capability_of db attempt of
             Some c \<Rightarrow> if k_token_sha256 c \<noteq> digest then Inl Conflict else Inr ((), db)
           | None \<Rightarrow>
               Inr ((), db\<lparr> capabilities := capabilities db @
                 [\<lparr> k_attempt = attempt, k_token_sha256 = digest, k_created_at = t,
                    k_catalog_version = None, k_catalog_digest = None,
                    k_catalog_observed_at = None \<rparr>] \<rparr>))
      | _ \<Rightarrow> Inl (Validation ''invalid worker capability''))"

definition issue_worker_capability ::
    "ext \<Rightarrow> string \<Rightarrow> string \<Rightarrow> string \<Rightarrow> f64 \<Rightarrow> db \<Rightarrow> unit res \<times> db" where
  "issue_worker_capability x run attempt token tm db =
     commit db (issue_worker_capability_tx x db run attempt token tm)"

record worker_catalog_proof =
  wc_run_id :: string
  wc_attempt_id :: string
  wc_token :: string
  wc_version :: nat
  wc_digest :: string

definition set_catalog :: "worker_catalog_proof \<Rightarrow> rat \<Rightarrow> db \<Rightarrow> db" where
  "set_catalog p t db =
     db\<lparr> capabilities := map (\<lambda>c. if k_attempt c = wc_attempt_id p
       then c\<lparr> k_catalog_version := Some (wc_version p), k_catalog_digest := Some (wc_digest p),
              k_catalog_observed_at := Some t \<rparr> else c) (capabilities db) \<rparr>"

definition register_worker_catalog_tx ::
    "ext \<Rightarrow> db \<Rightarrow> worker_catalog_proof \<Rightarrow> f64 \<Rightarrow> error + (unit \<times> db)" where
  "register_worker_catalog_tx x db p tm =
     (if \<not> known_pool_catalog (x_catalogs x) (wc_version p) (wc_digest p)
      then Inl (Unsupported ''worker pool catalog is not supported'')
      else
      bindr (authenticate_attempt x db (wc_run_id p) (wc_attempt_id p) (wc_token p) tm) (\<lambda>auth.
      case (auth, time_of tm) of
        (Some _, Some t) \<Rightarrow>
          bindr (ok_or no_rows (capability_of db (wc_attempt_id p))) (\<lambda>c.
          if k_catalog_version c \<noteq> None \<or> k_catalog_digest c \<noteq> None
          then (if k_catalog_version c \<noteq> Some (wc_version p) \<or> k_catalog_digest c \<noteq> Some (wc_digest p)
                then Inl Conflict else Inr ((), db))
          else Inr ((), set_catalog p t db))
      | _ \<Rightarrow> Inl (Validation ''invalid worker capability'')))"

definition register_worker_catalog ::
    "ext \<Rightarrow> worker_catalog_proof \<Rightarrow> f64 \<Rightarrow> db \<Rightarrow> unit res \<times> db" where
  "register_worker_catalog x p tm db = commit db (register_worker_catalog_tx x db p tm)"

subsection \<open>Reports\<close>

definition constraint_failed :: error where
  "constraint_failed = Sql (OtherSql ''constraint failed'')"

definition bound_session :: "db \<Rightarrow> attempt_auth \<Rightarrow> string option" where
  "bound_session db auth =
     (case au_session auth of
        None \<Rightarrow> None
      | Some sid \<Rightarrow>
          (case session_by_id db sid of
             None \<Rightarrow> None
           | Some s \<Rightarrow> if is_ok (canonical_transport_name (s_transport s)) then Some sid else None))"

definition prior_report :: "db \<Rightarrow> string \<Rightarrow> string \<Rightarrow> (notification_row \<times> delivery_row) option" where
  "prior_report db run request =
     find (\<lambda>(n, d). n_agent n = run \<and> n_request_id n = request \<and> d_id d = n_delivery n)
       (List.product (notifications db) (deliveries db))"

definition run_reports :: "db \<Rightarrow> string \<Rightarrow> notification_row list" where
  "run_reports db run = filter (\<lambda>n. n_agent n = run) (notifications db)"

definition open_seat :: "db \<Rightarrow> string \<Rightarrow> (member_row \<times> pool_row) option" where
  "open_seat db rt =
     find (\<lambda>(m, p). m_agent m = rt \<and> m_replaced_by m = None \<and> p_id p = m_pool m \<and> p_state p = OpenPool)
       (List.product (members db) (pools db))"

definition report_entry ::
    "member_row \<Rightarrow> pool_row \<Rightarrow> string \<Rightarrow> string \<Rightarrow> string \<Rightarrow> string \<Rightarrow> notify_request \<Rightarrow> rat \<Rightarrow> entry_row" where
  "report_entry m p rt run attempt ntf input t =
     \<lparr> e_seq = 0, e_pool = p_id p, e_author_kind = AuthorMember, e_author_agent = Some rt,
       e_author_name = Some (m_name m), e_author_role = Some (m_role m), e_direction = OrchestratorCopy,
       e_kind = ReportEntry, e_severity = Some (nr_kind input), e_proposal_seq = None,
       e_roster_revision = max 1 (p_roster_revision p), e_decision = None, e_snapshot = None,
       e_checks = None, e_body = nr_message input, e_delivery = Some ntf, e_sender_run = Some run,
       e_sender_attempt = Some attempt, e_idem_scope = ''notify:'' @ run,
       e_request_id = nr_request_id input, e_created_at = t \<rparr>"

text \<open>The event, the delivery and the bounded row of one accepted report.\<close>

definition record_report ::
    "ext \<Rightarrow> string \<Rightarrow> string \<Rightarrow> string \<Rightarrow> notify_request \<Rightarrow> rat \<Rightarrow> db \<Rightarrow> db" where
  "record_report x session run attempt input t db =
     (let ntf = notification_id x db;
          (event, db1) = insert_event
            \<lparr> v_seq = 0, v_agent = run, v_attempt = Some attempt, v_at = t, v_kind = ''worker_notification'',
              v_from = None, v_to = None,
              v_data = JObj [(''request_id'', JStr (nr_request_id input)),
                             (''kind'', JStr (message_kind_as_str (nr_kind input)))] \<rparr> db;
          db2 = insert_delivery (new_delivery ntf run (Some session) event ''pending'' (Some t)) db1 in
      db2\<lparr> notifications := notifications db2 @
        [\<lparr> n_delivery = ntf, n_agent = run, n_attempt = attempt, n_request_id = nr_request_id input,
           n_kind = nr_kind input, n_message = nr_message input, n_created_at = t \<rparr>] \<rparr>)"

definition queue_report ::
    "ext \<Rightarrow> attempt_auth \<Rightarrow> string \<Rightarrow> string \<Rightarrow> string \<Rightarrow> notify_request \<Rightarrow> rat \<Rightarrow> db \<Rightarrow> error + (notify_receipt \<times> db)" where
  "queue_report x auth session run attempt input t db =
     (let ntf = notification_id x db;
          db1 = record_report x session run attempt input t db;
          receipt = \<lparr> nt_notification_id = ntf, nt_state = ''pending'', nt_duplicate = False \<rparr> in
      case open_seat db1 (au_root auth) of
        None \<Rightarrow> Inr (receipt, db1)
      | Some (m, p) \<Rightarrow>
          bindr (insert_entry x constraint_failed (report_entry m p (au_root auth) run attempt ntf input t) db1)
            (\<lambda>(seq, db2).
             bindr (fanout_entry x (p_id p) (au_root auth) seq db2) (\<lambda>db3. Inr (receipt, db3))))"

text \<open>The authenticated running attempt with a session on a delivery transport.\<close>

definition report_sender ::
    "ext \<Rightarrow> db \<Rightarrow> string \<Rightarrow> string \<Rightarrow> string \<Rightarrow> f64 \<Rightarrow> (attempt_auth \<times> string) res" where
  "report_sender x db run attempt token tm =
     bindr (authenticate_attempt x db run attempt token tm) (\<lambda>auth.
       ok_or (Validation ''worker attempt is not active or bound'')
         (case auth of
            None \<Rightarrow> None
          | Some a \<Rightarrow> if au_running a then map_option (\<lambda>s. (a, s)) (bound_session db a) else None))"

definition accept_report ::
    "ext \<Rightarrow> attempt_auth \<Rightarrow> string \<Rightarrow> string \<Rightarrow> string \<Rightarrow> notify_request \<Rightarrow> rat \<Rightarrow> db \<Rightarrow> error + (notify_receipt \<times> db)" where
  "accept_report x auth session run attempt input t db =
     (case prior_report db run (nr_request_id input) of
        Some (n, d) \<Rightarrow>
          if n_kind n \<noteq> nr_kind input \<or> n_message n \<noteq> nr_message input then Inl Conflict
          else Inr (\<lparr> nt_notification_id = n_delivery n, nt_state = d_state d, nt_duplicate = True \<rparr>, db)
      | None \<Rightarrow>
          if MAX_MESSAGES \<le> length (run_reports db run)
          then Inl (Validation ''worker report limit reached (20 per run)'')
          else if (case max_row n_created_at (run_reports db run) of
                     Some n \<Rightarrow> t < n_created_at n + MIN_INTERVAL | None \<Rightarrow> False)
          then Inl (Validation ''worker reports require 30 seconds between messages'')
          else queue_report x auth session run attempt input t db)"

definition notify_orchestrator_tx ::
    "ext \<Rightarrow> db \<Rightarrow> string \<Rightarrow> string \<Rightarrow> string \<Rightarrow> notify_request \<Rightarrow> f64 \<Rightarrow> error + (notify_receipt \<times> db)" where
  "notify_orchestrator_tx x db run attempt token input tm =
     bindr (validate_notify input) (\<lambda>_.
     bindr (ok_or (Validation ''invalid worker report'')
        (if valid_token token \<and> \<not> str_contains (nr_message input) token then time_of tm else None)) (\<lambda>t.
     bindr (report_sender x db run attempt token tm) (\<lambda>(auth, session).
       accept_report x auth session run attempt input t db)))"

definition notify_orchestrator ::
    "ext \<Rightarrow> string \<Rightarrow> string \<Rightarrow> string \<Rightarrow> notify_request \<Rightarrow> f64 \<Rightarrow> db \<Rightarrow> notify_receipt res \<times> db" where
  "notify_orchestrator x run attempt token input tm db =
     commit db (notify_orchestrator_tx x db run attempt token input tm)"

section \<open>Properties\<close>

text \<open>The tables authentication and membership read; reports and log writes leave them alone.\<close>

definition same_core :: "db \<Rightarrow> db \<Rightarrow> bool" where
  "same_core db db' \<longleftrightarrow>
     agents db' = agents db \<and> attempts db' = attempts db \<and> capabilities db' = capabilities db
     \<and> worker_lifecycle db' = worker_lifecycle db \<and> sessions db' = sessions db
     \<and> pools db' = pools db \<and> members db' = members db"

lemma same_core_refl [simp]: "same_core db db"
  by (simp add: same_core_def)

lemma same_core_trans: "same_core a b \<Longrightarrow> same_core b c \<Longrightarrow> same_core a c"
  by (simp add: same_core_def)

lemma authenticate_same_core:
  assumes "same_core db db'"
  shows "authenticate_attempt x db' = authenticate_attempt x db"
proof -
  have "agents db' = agents db" "attempts db' = attempts db" "capabilities db' = capabilities db"
    "worker_lifecycle db' = worker_lifecycle db"
    using assms by (simp_all add: same_core_def)
  then show ?thesis
    by (intro ext) (simp only: authenticate_attempt_def resolve_root_def capability_of_def agent_by_id_def
        cong: option.case_cong prod.case_cong)
qed

lemma authenticate_time:
  assumes "time_of tm \<noteq> None" and "time_of tm' \<noteq> None"
  shows "authenticate_attempt x db run attempt token tm = authenticate_attempt x db run attempt token tm'"
  unfolding authenticate_attempt_def using assms by (simp only: simp_thms)

lemma bound_session_same_core:
  assumes "same_core db db'"
  shows "bound_session db' = bound_session db"
proof -
  have "sessions db' = sessions db" using assms by (simp add: same_core_def)
  then show ?thesis unfolding bound_session_def session_by_id_def by (simp only:)
qed

lemma add_commands_same_core [simp]: "same_core db (add_commands cs n db)"
  by (simp add: same_core_def) (simp add: add_commands_def)

lemma insert_entry_same_core: "insert_entry x v r db = Inr (seq, db') \<Longrightarrow> same_core db db'"
  by (auto simp: insert_entry_Inr same_core_def)

text \<open>What a queued report changes.\<close>

definition report_row :: "ext \<Rightarrow> db \<Rightarrow> string \<Rightarrow> string \<Rightarrow> notify_request \<Rightarrow> rat \<Rightarrow> notification_row" where
  "report_row x db run attempt input t =
     \<lparr> n_delivery = notification_id x db, n_agent = run, n_attempt = attempt,
       n_request_id = nr_request_id input, n_kind = nr_kind input, n_message = nr_message input,
       n_created_at = t \<rparr>"

lemma record_report_simps [simp]:
  "same_core db (record_report x session run attempt input t db)"
  "notifications (record_report x session run attempt input t db) =
     notifications db @ [report_row x db run attempt input t]"
  "deliveries (record_report x session run attempt input t db) = deliveries db @
     [new_delivery (notification_id x db) run (Some session) (Suc (event_seq db)) ''pending'' (Some t)]"
  "entries (record_report x session run attempt input t db) = entries db"
  "entry_seq (record_report x session run attempt input t db) = entry_seq db"
  "enrollments (record_report x session run attempt input t db) = enrollments db"
  by (simp_all add: record_report_def insert_event_def insert_delivery_def report_row_def same_core_def Let_def)

definition report_receipt :: "ext \<Rightarrow> db \<Rightarrow> notify_receipt" where
  "report_receipt x db =
     \<lparr> nt_notification_id = notification_id x db, nt_state = ''pending'', nt_duplicate = False \<rparr>"

lemma queue_report_cases:
  assumes "queue_report x auth session run attempt input t db = Inr (r, db')"
  obtains (alone) "r = report_receipt x db" "db' = record_report x session run attempt input t db"
    | (pool) m p seq db2 cs n where "r = report_receipt x db"
      "insert_entry x constraint_failed
         (report_entry m p (au_root auth) run attempt (notification_id x db) input t)
         (record_report x session run attempt input t db) = Inr (seq, db2)"
      "db' = add_commands cs n db2"
      "open_seat (record_report x session run attempt input t db) (au_root auth) = Some (m, p)"
proof (cases "open_seat (record_report x session run attempt input t db) (au_root auth)")
  case None
  with assms show ?thesis by (intro alone) (simp_all add: queue_report_def Let_def report_receipt_def)
next
  case (Some mp)
  obtain m p where mp: "mp = (m, p)" by (cases mp)
  with assms Some obtain seq db2 where
    i: "insert_entry x constraint_failed
         (report_entry m p (au_root auth) run attempt (notification_id x db) input t)
         (record_report x session run attempt input t db) = Inr (seq, db2)"
    and f: "fanout_entry x (p_id p) (au_root auth) seq db2 = Inr db'" and r: "r = report_receipt x db"
    by (auto simp: queue_report_def Let_def report_receipt_def)
  from f obtain cs n where "db' = add_commands cs n db2" by (rule fanout_entry_Inr)
  with pool r i Some mp show ?thesis by blast
qed

lemma queue_report_Inr:
  assumes "queue_report x auth session run attempt input t db = Inr (r, db')"
  shows "r = report_receipt x db" and "same_core db db'"
    and "notifications db' = notifications db @ [report_row x db run attempt input t]"
    and "deliveries db' = deliveries db @
      [new_delivery (notification_id x db) run (Some session) (Suc (event_seq db)) ''pending'' (Some t)]"
    and "prefix (entries db) (entries db')" and "log_wf db \<Longrightarrow> log_wf db'"
    and "enrollments db' = enrollments db"
proof -
  let ?db1 = "record_report x session run attempt input t db"
  have wf: "log_wf ?db1 = log_wf db" by (rule log_wf_cong) simp_all
  from assms have "r = report_receipt x db \<and> same_core db db' \<and> notifications db' = notifications ?db1
      \<and> deliveries db' = deliveries ?db1 \<and> prefix (entries db) (entries db') \<and> (log_wf db \<longrightarrow> log_wf db')
      \<and> enrollments db' = enrollments db"
  proof (cases rule: queue_report_cases)
    case alone
    then show ?thesis using wf by simp
  next
    case (pool m p seq db2 cs n)
    have "log_wf db \<longrightarrow> log_wf db2" using insert_entry_wf [OF _ pool(2)] wf by blast
    moreover have "log_wf db' = log_wf db2" unfolding pool(3) by (rule log_wf_cong) simp_all
    moreover have "same_core db db'"
      using insert_entry_same_core [OF pool(2)] pool(3) same_core_trans record_report_simps(1)
        add_commands_same_core by metis
    ultimately show ?thesis using pool by (auto simp: insert_entry_Inr)
  qed
  then show "r = report_receipt x db" "same_core db db'"
    "notifications db' = notifications db @ [report_row x db run attempt input t]"
    "deliveries db' = deliveries db @
      [new_delivery (notification_id x db) run (Some session) (Suc (event_seq db)) ''pending'' (Some t)]"
    "prefix (entries db) (entries db')" "log_wf db \<Longrightarrow> log_wf db'" "enrollments db' = enrollments db"
    by simp_all
qed

subsection \<open>Limits and replay of reports\<close>

lemma notify_tx_Inr:
  "notify_orchestrator_tx x db run attempt token input tm = Inr (r, db') \<longleftrightarrow>
     validate_notify input = Inr () \<and> valid_token token \<and> \<not> str_contains (nr_message input) token
     \<and> (\<exists>t auth session. time_of tm = Some t
          \<and> report_sender x db run attempt token tm = Inr (auth, session)
          \<and> accept_report x auth session run attempt input t db = Inr (r, db'))"
  by (auto simp: notify_orchestrator_tx_def split: if_splits)

lemma accept_report_cases:
  assumes "accept_report x auth session run attempt input t db = Inr (r, db')"
  obtains (replay) n d where "prior_report db run (nr_request_id input) = Some (n, d)"
      "nt_duplicate r" "db' = db"
    | (new) "prior_report db run (nr_request_id input) = None"
      "length (run_reports db run) < MAX_MESSAGES"
      "\<forall>n \<in> set (run_reports db run). n_created_at n + MIN_INTERVAL \<le> t"
      "queue_report x auth session run attempt input t db = Inr (r, db')"
proof (cases "prior_report db run (nr_request_id input)")
  case (Some nd)
  then show ?thesis using assms by (cases nd) (auto simp: accept_report_def intro: replay split: if_splits)
next
  case None
  have "n_created_at n + MIN_INTERVAL \<le> t" if "n \<in> set (run_reports db run)" for n
    using assms None that max_row_ge [of n_created_at "run_reports db run" _ n]
    by (cases "max_row n_created_at (run_reports db run)") (fastforce simp: accept_report_def split: if_splits)+
  with None assms show ?thesis by (intro new) (auto simp: accept_report_def split: if_splits)
qed

definition report_limits :: "db \<Rightarrow> bool" where
  "report_limits db \<longleftrightarrow>
     (\<forall>run. length (run_reports db run) \<le> 20
        \<and> sorted_wrt (\<lambda>a b. a + 30 \<le> b) (map n_created_at (run_reports db run)))"

lemma run_reports_snoc:
  assumes "notifications db' = notifications db @ [n]"
  shows "run_reports db' run = run_reports db run @ (if n_agent n = run then [n] else [])"
  using assms by (simp add: run_reports_def)

end
