(* ===== verification/Sample.thy ===== *)
theory Sample
  imports WorkerStore
begin

text \<open>
  One concrete database for the witnesses of the store properties: an open pool of two running workers,
  each with an owned attempt and a capability, and the facts the witnesses evaluate it with.
\<close>

definition sample_ext :: ext where
  "sample_ext = \<lparr> x_now = 100, x_uuid = (\<lambda>n. replicate n CHR ''0''), x_sha256 = (\<lambda>s. s),
     x_datetime_ok = (\<lambda>_. True), x_json_len = (\<lambda>_. 2), x_checks_json = (\<lambda>_. Some ''[]''),
     x_catalogs = \<lparr> cd_pool = ''p'', cd_research = ''r'', cd_finish_v2 = (\<lambda>_. ''2''),
       cd_finish_v3 = (\<lambda>_. ''3''), cd_finish = (\<lambda>_. ''4'') \<rparr>,
     x_alive = (\<lambda>_. True), x_fingerprint = (\<lambda>_ _. ''f''), x_boot_id = ''b'',
     x_group_gone = (\<lambda>_. True), x_json = (\<lambda>_. None), x_schema = (\<lambda>_. None) \<rparr>"

definition ag_a :: string where
  "ag_a = ''ag-20260101-000000-000000000a''"

definition ag_b :: string where
  "ag_b = ''ag-20260101-000000-000000000b''"

definition sample_pool :: string where
  "sample_pool = ''pool-20260101-000000-000000000a''"

definition sample_agent :: "string \<Rightarrow> agent_row" where
  "sample_agent i = \<lparr> a_id = i, a_root = i, a_sequence = 0, a_created_at = 0, a_status = Running,
     a_finished_at = None, a_session = Some ''s'', a_pool_ever = Some 1, a_display_name = None,
     a_task = ''t'', a_supervisor = ''v'', a_launch_facts = JNull, a_runtime = ''claude'', a_model = ''m'',
     a_effort = None, a_explicit_finish = False, a_output_schema = None, a_provider_identity = False,
     a_exit_code = None, a_failure_kind = None, a_failure_text = None, a_runtime_session = None,
     a_resume_session = None, a_answer = None, a_process_group = None, a_supervisor_pid = None,
     a_idle_ping = Off \<rparr>"

definition sample_attempt :: "string \<Rightarrow> attempt_row" where
  "sample_attempt i = \<lparr> t_id = ''t'' @ i, t_agent = i, t_state = ''running'', t_phase = None,
     t_cleanup_proof = None, t_ownership_active = True, t_finished_at = None, t_account = None,
     t_number = 1, t_process_identity = None, t_process_birth = None \<rparr>"

definition sample_token :: string where
  "sample_token = replicate 64 CHR ''0''"

definition sample_capability :: "string \<Rightarrow> capability_row" where
  "sample_capability i = \<lparr> k_attempt = ''t'' @ i, k_token_sha256 = sample_token, k_created_at = 0,
     k_catalog_version = None, k_catalog_digest = None, k_catalog_observed_at = None \<rparr>"

definition sample_member :: "string \<Rightarrow> nat \<Rightarrow> member_row" where
  "sample_member i slot = \<lparr> m_agent = i, m_pool = sample_pool, m_slot = slot, m_name = ''n'',
     m_role = ''r'', m_personal_task = ''t'', m_joined_revision = 1, m_replaced_by = None \<rparr>"

definition sample_db :: db where
  "sample_db = \<lparr> agents = [sample_agent ag_a, sample_agent ag_b],
     attempts = [sample_attempt ag_a, sample_attempt ag_b],
     capabilities = [sample_capability ag_a, sample_capability ag_b], worker_lifecycle = [],
     sessions = [\<lparr> s_id = ''s'', s_transport = ''codex'', s_external = ''e'', s_turn = None,
                    s_created_at = 0, s_last_seen_at = 0 \<rparr>],
     pools = [\<lparr> p_id = sample_pool, p_namespace = ''ns'', p_request_id = ''q'', p_request_sha256 = ''h'',
                 p_session = Some ''s'', p_goal = ''g'',
                 p_acceptance = JArr [JObj [(''id'', JStr ''c1''), (''text'', JStr ''x'')]],
                 p_state = OpenPool, p_roster_revision = 1, p_completed_at = None,
                 p_completion_delivery = None, p_created_at = 0 \<rparr>],
     members = [sample_member ag_a 0, sample_member ag_b 1], entries = [], entry_seq = 0,
     commands = [], command_seq = 0, deliveries = [], events = [], event_seq = 0, notifications = [],
     enrollments = [], restarts = [], restart_seq = 0, restart_agents = [], restart_recipients = [],
     restart_notices = [], wakes = [], bridge_intents = [], delivery_evidence = [], process_owners = [],
     process_members = [], writer_epoch = None \<rparr>"

lemma sample_ids [simp]: "ag_a \<noteq> ag_b" "ag_b \<noteq> ag_a" "ag_a \<noteq> []" "ag_b \<noteq> []"
  by (simp_all add: ag_a_def ag_b_def)

lemma sample_agent_simps [simp]:
  "a_id (sample_agent i) = i" "a_root (sample_agent i) = i" "a_status (sample_agent i) = Running"
  "a_finished_at (sample_agent i) = None" "a_session (sample_agent i) = Some ''s''"
  "a_sequence (sample_agent i) = 0" "a_created_at (sample_agent i) = 0"
  by (simp_all add: sample_agent_def)

lemma sample_parse [simp]:
  "parse_agent sample_ext ag_a = Inr ag_a" "parse_agent sample_ext ag_b = Inr ag_b"
  by (simp_all add: parse_agent_def agent_id_from_str_def sample_ext_def ag_a_def ag_b_def lower_hex_def
      is_ascii_def starts_with_def is_ascii_digit_def)

lemma sample_token_valid [simp]: "valid_token sample_token"
  by (simp add: valid_token_def sample_token_def list_all_iff is_ascii_hexdigit_def is_ascii_uppercase_def
      is_ascii_digit_def)

lemma sample_parse_pool [simp]: "parse_pool sample_ext sample_pool = Inr sample_pool"
  by (simp add: parse_pool_def pool_id_from_str_def sample_ext_def sample_pool_def lower_hex_def
      is_ascii_def starts_with_def is_ascii_digit_def)

lemma sample_attempt_simps [simp]:
  "owned_live i (CHR ''t'' # j) (sample_attempt k) \<longleftrightarrow> i = k \<and> j = k" "t_state (sample_attempt i) = ''running''"
  by (auto simp: owned_live_def sample_attempt_def)

lemma sample_auth [simp]:
  "authenticate_attempt sample_ext sample_db ag_a (''t'' @ ag_a) sample_token (Finite t) =
     Inr (if 0 \<le> t then Some \<lparr> au_root = ag_a, au_session = Some ''s'', au_running = True \<rparr> else None)"
  by (simp add: authenticate_attempt_def time_of_def sample_db_def capability_of_def sample_capability_def
      resolve_root_def agent_by_id_def ok_or_def) (simp add: sample_ext_def)

lemma sample_log_wf [simp]: "log_wf sample_db"
  by (simp add: log_wf_def sample_db_def)

lemma sample_tip:
  assumes "agents db = agents sample_db"
  shows "tip_row db ag_a = Some (sample_agent ag_a)" "tip_row db ag_b = Some (sample_agent ag_b)"
    "agent_by_id db ag_a = Some (sample_agent ag_a)" "agent_by_id db ag_b = Some (sample_agent ag_b)"
  using assms by (simp_all add: tip_row_def lineage_def agent_by_id_def sample_db_def)

lemma sample_seats:
  assumes "members db = members sample_db"
  shows "current_seats db sample_pool = [sample_member ag_a 0, sample_member ag_b 1]"
  using assms by (simp add: current_seats_def sample_db_def sample_member_def)

lemma sample_fanout:
  assumes "agents db = agents sample_db" and "members db = members sample_db"
  shows "fanout_entry sample_ext sample_pool ag_a seq db = Inr (insert_command (pool_command sample_ext ag_b seq) db)"
  using sample_tip [OF assms(1)]
  by (simp add: fanout_entry_def sample_seats [OF assms(2)] sample_member_def fanout_seat_def tip_of_def
      agent_status_def)

lemma sample_scope [simp]:
  "length (chars ag_a) = 29" "length (chars (''notify:'' @ ag_a)) = 36" "is_ascii ag_a"
  by (simp_all add: chars_ascii is_ascii_def ag_a_def)

end
