(* ===== verification/PoolEnrollment.thy ===== *)
theory PoolEnrollment
  imports Sample
begin

text \<open>
  Enrollment of running workers into a pool, from \<^verbatim>\<open>crates/agent-run-store/src/pool_enrollment.rs\<close>: the
  preflight of an existing member, the acknowledgement pinned to one attempt, and the reconciliation that
  records failed enrollments and raises attention for each of them once.
\<close>

section \<open>Model\<close>

text \<open>\<^verbatim>\<open>Record::read\<close>: the identifiers of a row are parsed, and an empty root means the row itself.\<close>

definition bad_column :: error where
  "bad_column = Sql (OtherSql ''conversion failure'')"

definition column_id :: "ext \<Rightarrow> string \<Rightarrow> string res" where
  "column_id x s = (case parse_agent x s of Inl _ \<Rightarrow> Inl bad_column | Inr i \<Rightarrow> Inr i)"

definition read_record :: "ext \<Rightarrow> agent_row \<Rightarrow> agent_row res" where
  "read_record x a =
     bindr (column_id x (a_id a)) (\<lambda>i.
       if a_root a = [] then Inr (a\<lparr> a_root := i \<rparr>)
       else bindr (column_id x (a_root a)) (\<lambda>r. Inr (a\<lparr> a_root := r \<rparr>)))"

record existing_member =
  xm_agent_id :: string
  xm_run_id :: string
  xm_attempt_id :: string
  xm_name :: "string option"
  xm_task :: string
  xm_orchestrator :: "orchestrator_ref option"
  xm_fingerprint :: string

definition same_binding :: "orchestrator_ref option \<Rightarrow> orchestrator_ref option \<Rightarrow> bool res" where
  "same_binding left right =
     (case (left, right) of
        (None, None) \<Rightarrow> Inr True
      | (Some a, Some b) \<Rightarrow>
          bindr (canonical_transport a) (\<lambda>ta. bindr (canonical_transport b) (\<lambda>tb.
            Inr (ta = tb \<and> external_session_id a = external_session_id b)))
      | _ \<Rightarrow> Inr False)"

definition independent_root :: "ext \<Rightarrow> db \<Rightarrow> string \<Rightarrow> unit res" where
  "independent_root x db rt =
     bindr (ok_or (NotFound rt) (agent_by_id db rt)) (\<lambda>a.
     bindr (read_record x a) (\<lambda>original.
       if a_pool_ever a = Some 1
       then Inl (invalid ''existing agent already has pool membership history'')
       else if a_pool_ever a \<noteq> Some 0
       then Inl (Unsupported ''existing agent independence history is unknown'')
       else if a_root original \<noteq> rt
       then Inl (invalid ''existing_agent_id must name the stable agent root'')
       else if list_ex (\<lambda>m. m_agent m = rt) (members db)
       then Inl (invalid ''existing agent already has pool membership'')
       else Inr ()))"

definition running_tip :: "ext \<Rightarrow> db \<Rightarrow> string \<Rightarrow> agent_row res" where
  "running_tip x db rt =
     bindr (bindr (ok_or no_rows (tip_row db rt)) (read_record x)) (\<lambda>row.
       if a_status row \<noteq> Running \<or> a_finished_at row \<noteq> None
       then Inl (invalid ''existing pool member must be RUNNING with an unfinished execution'')
       else if \<not> x_alive x (a_supervisor row)
       then Inl (Unsupported ''existing worker ownership is not verifiably alive'')
       else Inr row)"

definition observed_attempt :: "ext \<Rightarrow> db \<Rightarrow> string \<Rightarrow> attempt_row res" where
  "observed_attempt x db run =
     bindr (ok_or (invalid ''existing worker attempt is not owned and RUNNING'')
        (find (\<lambda>t. t_agent t = run \<and> t_state t = ''running'' \<and> t_ownership_active t
            \<and> t_finished_at t = None) (attempts db))) (\<lambda>t.
       case capability_of db (t_id t) of
         None \<Rightarrow> Inl (Unsupported ''existing worker pool catalog is unknown or unsupported'')
       | Some c \<Rightarrow>
           (case (k_catalog_version c, k_catalog_digest c) of
              (Some v, Some d) \<Rightarrow>
                if v < 2 ^ 32 \<and> known_pool_catalog (x_catalogs x) v d then Inr t
                else Inl (Unsupported ''existing worker pool catalog is unknown or unsupported'')
            | _ \<Rightarrow> Inl (Unsupported ''existing worker pool catalog is unknown or unsupported'')))"

definition row_reference :: "db \<Rightarrow> string option \<Rightarrow> orchestrator_ref option res" where
  "row_reference db session =
     optr (\<lambda>sid. bindr (ok_or no_rows (session_by_id db sid)) (\<lambda>s.
       Inr \<lparr> transport = s_transport s, external_session_id = s_external s,
             external_turn_id = s_turn s \<rparr>)) session"

definition existing_member :: "ext \<Rightarrow> db \<Rightarrow> string \<Rightarrow> existing_member res" where
  "existing_member x db rt =
     bindr (independent_root x db rt) (\<lambda>_.
     bindr (running_tip x db rt) (\<lambda>row.
     bindr (observed_attempt x db (a_id row)) (\<lambda>t.
     bindr (row_reference db (a_session row)) (\<lambda>orchestrator.
       Inr \<lparr> xm_agent_id = rt, xm_run_id = a_id row, xm_attempt_id = t_id t,
             xm_name = a_display_name row, xm_task = a_task row, xm_orchestrator = orchestrator,
             xm_fingerprint = x_fingerprint x (a_launch_facts row) (t_account t) \<rparr>))))"

definition enrollment_of :: "db \<Rightarrow> string \<Rightarrow> enrollment_row option" where
  "enrollment_of db rt = find (\<lambda>j. j_agent j = rt) (enrollments db)"

fun enrollment_as_str :: "enrollment_state \<Rightarrow> string" where
  "enrollment_as_str EnrollPending = ''pending''"
| "enrollment_as_str EnrollJoined = ''joined''"
| "enrollment_as_str EnrollNeedsAction = ''needs_action''"

definition enrollment_view :: "db \<Rightarrow> string \<Rightarrow> json option" where
  "enrollment_view db rt =
     map_option (\<lambda>j. JObj [(''state'', JStr (enrollment_as_str (j_state j))),
                            (''reason'', jopt_str (j_failure j))]) (enrollment_of db rt)"

definition validate_ack_replay :: "db \<Rightarrow> string \<Rightarrow> string \<Rightarrow> string \<Rightarrow> string \<Rightarrow> bool \<Rightarrow> unit res" where
  "validate_ack_replay db rt run attempt key is_message =
     (case find (\<lambda>j. j_challenge j = key) (enrollments db) of
        None \<Rightarrow> Inr ()
      | Some j \<Rightarrow>
          if \<not> is_message \<or> j_agent j \<noteq> rt \<or> j_run j \<noteq> run \<or> j_attempt j \<noteq> attempt
          then Inl (invalid ''enrollment ACK key is pinned to a different worker attempt'')
          else Inr ())"

definition ack_allowed :: "db \<Rightarrow> string \<Rightarrow> string \<Rightarrow> string \<Rightarrow> string option \<Rightarrow> bool res" where
  "ack_allowed db rt run attempt request =
     (case enrollment_of db rt of
        None \<Rightarrow> Inr False
      | Some j \<Rightarrow>
          if j_state j = EnrollJoined then Inr False
          else if j_run j \<noteq> run \<or> j_attempt j \<noteq> attempt
          then Inl (invalid ''pool enrollment attempt ended or changed'')
          else if request \<noteq> Some (j_challenge j)
          then Inl (invalid ''pool enrollment requires its exact broker-issued ACK request_id'')
          else Inr True)"

definition update_enrollment :: "string \<Rightarrow> (enrollment_row \<Rightarrow> enrollment_row) \<Rightarrow> db \<Rightarrow> db" where
  "update_enrollment rt f db =
     db\<lparr> enrollments := map (\<lambda>j. if j_agent j = rt then f j else j) (enrollments db) \<rparr>"

definition cancel_delivery :: "string option \<Rightarrow> db \<Rightarrow> db" where
  "cancel_delivery i db =
     db\<lparr> deliveries := map (\<lambda>d. if Some (d_id d) = i
         \<and> d_state d \<in> {''pending'', ''waiting_binding'', ''retry_wait''}
       then d\<lparr> d_state := ''cancelled'', d_next_attempt_at := None \<rparr> else d) (deliveries db) \<rparr>"

definition acknowledge :: "ext \<Rightarrow> string \<Rightarrow> nat \<Rightarrow> db \<Rightarrow> db res" where
  "acknowledge x rt seq db =
     (let changed = length (filter (\<lambda>j. j_agent j = rt \<and> j_state j \<noteq> EnrollJoined) (enrollments db));
          db1 = update_enrollment rt (\<lambda>j. if j_state j \<noteq> EnrollJoined
            then j\<lparr> j_state := EnrollJoined, j_ack_seq := Some seq, j_ack_at := Some (x_now x),
                    j_failure := None \<rparr> else j) db in
      if changed \<noteq> 1 then Inl Conflict
      else Inr (cancel_delivery (Option.bind (enrollment_of db1 rt) j_attention_delivery) db1))"

definition failure_reason :: "db \<Rightarrow> string \<Rightarrow> string \<Rightarrow> string \<Rightarrow> string option res" where
  "failure_reason db rt run attempt =
     (if map_option a_status (agent_by_id db run) \<noteq> Some Running then Inr (Some ''worker_ended'')
      else
      let owned = list_ex (\<lambda>t. t_id t = attempt \<and> t_agent t = run \<and> t_ownership_active t
            \<and> t_finished_at t = None \<and> t_state t = ''running'') (attempts db) in
      bindr (ok_or no_rows (tip_row db rt)) (\<lambda>tip.
        Inr (if \<not> owned \<or> a_id tip \<noteq> run then Some ''attempt_changed'' else None)))"

definition intro_refused :: "db \<Rightarrow> string \<Rightarrow> string \<Rightarrow> bool" where
  "intro_refused db run rt =
     list_ex (\<lambda>c. c_agent c = run \<and> c_kind c = ''steer''
       \<and> jfield ''pool_enrollment'' (c_payload c) = JStr rt \<and> c_state c = ''completed''
       \<and> (case c_result c of
            None \<Rightarrow> True
          | Some r \<Rightarrow> jfield ''accepted'' r \<in> {JNull, JNum 0, JBool False})) (commands db)"

text \<open>The reason an open enrollment cannot be acknowledged any more, if any.\<close>

definition enrollment_failure :: "ext \<Rightarrow> db \<Rightarrow> enrollment_row \<Rightarrow> string option res" where
  "enrollment_failure x db j =
     bindr (parse_agent x (j_run j)) (\<lambda>run.
       if (case restart_view db run of Some (st, _) \<Rightarrow> st = ''pending'' | None \<Rightarrow> False) then Inr None
       else
       bindr (failure_reason db (j_agent j) (j_run j) (j_attempt j)) (\<lambda>failed.
         Inr (case failed of
                Some r \<Rightarrow> Some r
              | None \<Rightarrow> if intro_refused db (j_run j) (j_agent j) then Some ''delivery_unconfirmed'' else None)))"

definition enrollment_change :: "ext \<Rightarrow> db \<Rightarrow> enrollment_row \<Rightarrow> (string \<times> string) list res" where
  "enrollment_change x db j =
     bindr (enrollment_failure x db j) (\<lambda>failed.
       case failed of
         None \<Rightarrow> Inr []
       | Some reason \<Rightarrow>
           (case enrollment_of db (j_agent j) of
              None \<Rightarrow> Inr []
            | Some k \<Rightarrow>
                if j_state k \<noteq> EnrollJoined
                   \<and> (j_state k \<noteq> EnrollNeedsAction \<or> j_failure k \<noteq> Some reason \<or> \<not> j_attention_issued k)
                then Inr [(j_agent j, reason)] else Inr []))"

definition open_enrollments :: "db \<Rightarrow> string \<Rightarrow> enrollment_row list" where
  "open_enrollments db pool =
     map fst (filter (\<lambda>(j, m). m_agent m = j_agent j \<and> m_pool m = pool \<and> m_replaced_by m = None
         \<and> j_state j \<noteq> EnrollJoined) (List.product (enrollments db) (members db)))"

definition enrollment_changes :: "ext \<Rightarrow> db \<Rightarrow> string \<Rightarrow> (string \<times> string) list res" where
  "enrollment_changes x db pool =
     bindr (mapr (enrollment_change x db) (open_enrollments db pool)) (\<lambda>cs. Inr (concat cs))"

definition record_failure :: "string \<Rightarrow> string \<Rightarrow> db \<Rightarrow> db" where
  "record_failure rt reason db =
     update_enrollment rt (\<lambda>j. if j_state j \<noteq> EnrollJoined
         \<and> (j_state j \<noteq> EnrollNeedsAction \<or> j_failure j \<noteq> Some reason)
       then j\<lparr> j_state := EnrollNeedsAction, j_failure := Some reason \<rparr> else j) db"

definition terminal_notice_covers :: "db \<Rightarrow> string \<Rightarrow> bool" where
  "terminal_notice_covers db run =
     list_ex (\<lambda>(d, a, e). Some (a_id a) = d_agent d \<and> Some (v_seq e) = d_event d \<and> d_agent d = Some run
       \<and> a_status a \<in> {Failed, Lost, TimedOut, Cancelled}
       \<and> v_kind e = ''status'' \<and> v_to e = Some (a_status a))
       (List.product (deliveries db) (List.product (agents db) (events db)))"

definition attention_message :: "string \<Rightarrow> string \<Rightarrow> string \<Rightarrow> string" where
  "attention_message pool rt reason =
     ''Pool '' @ pool @ '' needs action: existing member '' @ rt
     @ '' did not acknowledge enrollment ('' @ reason
     @ ''). Its work was not restarted or cancelled by enrollment. Inspect pool status; use explicit existing recovery controls.''"

definition raise_attention :: "ext \<Rightarrow> string \<Rightarrow> string \<Rightarrow> string \<Rightarrow> enrollment_row \<Rightarrow> db \<Rightarrow> db res" where
  "raise_attention x pool rt reason j db =
     (let (event, db1) = insert_event
        \<lparr> v_seq = 0, v_agent = j_run j, v_attempt = Some (j_attempt j), v_at = x_now x,
          v_kind = ''pool_join_needs_action'', v_from = None, v_to = None,
          v_data = JObj [(''pool_id'', JStr pool), (''member'', JStr rt), (''reason'', JStr reason),
                         (''notice'', JStr (attention_message pool rt reason))] \<rparr> db;
        delivery = notification_id x db1 in
      bindr (ok_or no_rows (pool_by_id db1 pool)) (\<lambda>p.
        Inr (update_enrollment rt
          (\<lambda>j. j\<lparr> j_attention_delivery := Some delivery, j_attention_issued := True \<rparr>)
          (insert_delivery
            (new_delivery delivery (j_run j) (p_session p) event
              (if p_session p \<noteq> None then ''pending'' else ''waiting_binding'')
              (if p_session p \<noteq> None then Some (x_now x) else None)) db1))))"

definition reconcile_change :: "ext \<Rightarrow> string \<Rightarrow> string \<times> string \<Rightarrow> db \<Rightarrow> db res" where
  "reconcile_change x pool change db =
     (let (rt, reason) = change in
      bindr (ok_or no_rows (enrollment_of db rt)) (\<lambda>j.
      let db1 = record_failure rt reason db;
          covered = terminal_notice_covers db1 (j_run j) in
      bindr (ok_or no_rows (enrollment_of db1 rt)) (\<lambda>j1.
        if j_attention_issued j1 then Inr db1
        else if covered
        then Inr (update_enrollment rt (\<lambda>j. j\<lparr> j_attention_issued := True \<rparr>) db1)
        else raise_attention x pool rt reason j db1)))"

fun reconcile_all :: "ext \<Rightarrow> string \<Rightarrow> (string \<times> string) list \<Rightarrow> db \<Rightarrow> db res" where
  "reconcile_all x pool [] db = Inr db"
| "reconcile_all x pool (c # cs) db = bindr (reconcile_change x pool c db) (reconcile_all x pool cs)"

definition reconcile_pool_enrollments :: "ext \<Rightarrow> string \<Rightarrow> db \<Rightarrow> unit res \<times> db" where
  "reconcile_pool_enrollments x pool db =
     (case enrollment_changes x db pool of
        Inl e \<Rightarrow> (Inl e, db)
      | Inr [] \<Rightarrow> (Inr (), db)
      | Inr changes \<Rightarrow>
          commit db (bindr (reconcile_all x pool changes db) (\<lambda>db'. Inr ((), db'))))"

section \<open>Properties\<close>

text \<open>What the reconciliation reads and never changes.\<close>

definition pin :: "enrollment_row \<Rightarrow> string \<times> string \<times> string \<times> string \<times> bool \<times> nat option" where
  "pin j = (j_agent j, j_run j, j_attempt j, j_challenge j, j_state j = EnrollJoined, j_ack_seq j)"

definition same_facts :: "db \<Rightarrow> db \<Rightarrow> bool" where
  "same_facts db db' \<longleftrightarrow>
     agents db' = agents db \<and> attempts db' = attempts db \<and> commands db' = commands db
     \<and> members db' = members db \<and> pools db' = pools db \<and> capabilities db' = capabilities db
     \<and> worker_lifecycle db' = worker_lifecycle db \<and> sessions db' = sessions db
     \<and> notifications db' = notifications db
     \<and> restarts db' = restarts db \<and> restart_agents db' = restart_agents db
     \<and> is_restart_stop db' = is_restart_stop db \<and> entries db' = entries db
     \<and> entry_seq db' = entry_seq db \<and> map pin (enrollments db') = map pin (enrollments db)"

lemma same_facts_refl [simp]: "same_facts db db"
  by (simp add: same_facts_def)

lemma same_facts_trans: "same_facts a b \<Longrightarrow> same_facts b c \<Longrightarrow> same_facts a c"
  by (simp add: same_facts_def)

lemma enrollment_failure_cong:
  assumes "same_facts db db'" and "pin j' = pin j"
  shows "enrollment_failure x db' j' = enrollment_failure x db j"
proof -
  have t: "agents db' = agents db" "attempts db' = attempts db" "commands db' = commands db"
    "restarts db' = restarts db" "restart_agents db' = restart_agents db"
    "is_restart_stop db' = is_restart_stop db"
    using assms(1) by (simp_all add: same_facts_def)
  have r: "restart_view db' = restart_view db" unfolding restart_view_def t by (rule refl)
  have f: "failure_reason db' = failure_reason db"
    by (intro ext) (simp only: failure_reason_def agent_by_id_def tip_row_def lineage_def t)
  have i: "intro_refused db' = intro_refused db"
    by (intro ext) (simp only: intro_refused_def t)
  have p: "j_agent j' = j_agent j" "j_run j' = j_run j" "j_attempt j' = j_attempt j"
    using assms(2) by (simp_all add: pin_def)
  show ?thesis unfolding enrollment_failure_def r f i p by (rule refl)
qed

definition settled :: "string \<Rightarrow> enrollment_row \<Rightarrow> bool" where
  "settled reason j \<longleftrightarrow> j_state j = EnrollJoined
     \<or> (j_state j = EnrollNeedsAction \<and> j_failure j = Some reason \<and> j_attention_issued j)"

lemma enrollment_of_update:
  assumes "\<And>j. j_agent (f j) = j_agent j"
  shows "enrollment_of (update_enrollment rt f db) u =
    map_option (\<lambda>j. if u = rt then f j else j) (enrollment_of db u)"
proof -
  have "enrollment_of (update_enrollment rt f db) u =
      map_option (\<lambda>j. if j_agent j = rt then f j else j) (enrollment_of db u)"
    unfolding enrollment_of_def update_enrollment_def using assms by (simp add: find_map_same)
  also have "\<dots> = map_option (\<lambda>j. if u = rt then f j else j) (enrollment_of db u)"
    by (rule option.map_cong0) (auto simp: enrollment_of_def dest: find_Some_in)
  finally show ?thesis .
qed

lemma same_facts_update:
  assumes "\<And>j. pin (f j) = pin j"
  shows "same_facts db (update_enrollment rt f db)"
  using assms by (simp add: same_facts_def update_enrollment_def is_restart_stop_def fun_eq_iff)

lemma record_failure_facts [simp]: "same_facts db (record_failure rt reason db)"
  unfolding record_failure_def by (rule same_facts_update) (simp add: pin_def)

lemma raise_attention_Inr:
  assumes "raise_attention x pool rt reason j db = Inr db'"
  shows "same_facts db db'" and "\<exists>i. enrollment_of db' u = map_option (\<lambda>k. if u = rt
      then k\<lparr> j_attention_delivery := i, j_attention_issued := True \<rparr> else k) (enrollment_of db u)"
proof -
  from assms obtain i v d n where db': "db' = update_enrollment rt
      (\<lambda>k. k\<lparr> j_attention_delivery := Some i, j_attention_issued := True \<rparr>)
      (db\<lparr> events := events db @ [v], event_seq := n, deliveries := deliveries db @ [d] \<rparr>)"
    and v: "v_kind v = ''pool_join_needs_action''"
    by (auto simp: raise_attention_def insert_event_def insert_delivery_def Let_def)
  let ?db = "db\<lparr> events := events db @ [v], event_seq := n, deliveries := deliveries db @ [d] \<rparr>"
  have "same_facts db ?db" using v by (simp add: same_facts_def is_restart_stop_def fun_eq_iff)
  then show "same_facts db db'"
    unfolding db' by (rule same_facts_trans) (rule same_facts_update, simp add: pin_def)
  have "enrollment_of ?db = enrollment_of db" by (simp add: enrollment_of_def fun_eq_iff)
  then show "\<exists>i. enrollment_of db' u = map_option (\<lambda>k. if u = rt
      then k\<lparr> j_attention_delivery := i, j_attention_issued := True \<rparr> else k) (enrollment_of db u)"
    unfolding db' by (auto simp: enrollment_of_update)
qed

lemma reconcile_change_Inr:
  assumes "reconcile_change x pool (rt, reason) db = Inr db'"
  shows "same_facts db db'"
    and "u \<noteq> rt \<Longrightarrow> enrollment_of db' u = enrollment_of db u"
    and "\<exists>j. enrollment_of db' rt = Some j \<and> settled reason j"
proof -
  define db1 where "db1 = record_failure rt reason db"
  have facts: "same_facts db db1" by (simp add: db1_def)
  from assms obtain j j1 where j: "enrollment_of db rt = Some j" and j1: "enrollment_of db1 rt = Some j1"
    and r: "(if j_attention_issued j1 then Inr db1
        else if terminal_notice_covers db1 (j_run j)
        then Inr (update_enrollment rt (\<lambda>j. j\<lparr> j_attention_issued := True \<rparr>) db1)
        else raise_attention x pool rt reason j db1) = Inr db'"
    unfolding reconcile_change_def Let_def prod.case db1_def [symmetric] by auto
  have other: "enrollment_of db1 u = enrollment_of db u" if "u \<noteq> rt" for u
    using that by (simp add: db1_def record_failure_def enrollment_of_update option.map_ident)
  have "Some (if j_state j \<noteq> EnrollJoined
         \<and> (j_state j \<noteq> EnrollNeedsAction \<or> j_failure j \<noteq> Some reason)
       then j\<lparr> j_state := EnrollNeedsAction, j_failure := Some reason \<rparr> else j) = enrollment_of db1 rt"
    using j by (simp add: db1_def record_failure_def enrollment_of_update)
  then have st: "j_state j1 = EnrollJoined \<or> (j_state j1 = EnrollNeedsAction \<and> j_failure j1 = Some reason)"
    unfolding j1 option.inject by (elim subst) simp
  have "j_attention_issued j1 \<and> db' = db1
    \<or> db' = update_enrollment rt (\<lambda>j. j\<lparr> j_attention_issued := True \<rparr>) db1
    \<or> raise_attention x pool rt reason j db1 = Inr db'"
    using r by (simp split: if_split_asm)
  then consider (issued) "j_attention_issued j1" "db' = db1"
    | (covered) "db' = update_enrollment rt (\<lambda>j. j\<lparr> j_attention_issued := True \<rparr>) db1"
    | (raised) "raise_attention x pool rt reason j db1 = Inr db'"
    by (elim disjE conjE)
  then have "same_facts db db' \<and> (u \<noteq> rt \<longrightarrow> enrollment_of db' u = enrollment_of db u)
      \<and> (\<exists>j. enrollment_of db' rt = Some j \<and> settled reason j)" for u
  proof cases
    case issued
    with j1 st other [of u] facts show ?thesis by (simp add: settled_def)
  next
    case covered
    have "same_facts db1 db'" unfolding covered by (rule same_facts_update) (simp add: pin_def)
    moreover have "enrollment_of db' v = map_option (\<lambda>j. if v = rt then j\<lparr> j_attention_issued := True \<rparr> else j)
        (enrollment_of db1 v)" for v
      unfolding covered by (simp add: enrollment_of_update)
    ultimately show ?thesis using j1 st other [of u] same_facts_trans [OF facts]
      by (simp add: settled_def option.map_ident)
  next
    case raised
    have "same_facts db db'" using raise_attention_Inr(1) [OF raised] same_facts_trans [OF facts] by blast
    with raise_attention_Inr(2) [OF raised, of u] raise_attention_Inr(2) [OF raised, of rt] j1 st other [of u]
    show ?thesis by (auto simp: settled_def option.map_ident)
  qed
  then show "same_facts db db'" "u \<noteq> rt \<Longrightarrow> enrollment_of db' u = enrollment_of db u"
    "\<exists>j. enrollment_of db' rt = Some j \<and> settled reason j" by blast+
qed

text \<open>A settled enrollment stays settled, and every listed change ends settled.\<close>

lemma reconcile_all_Inr:
  assumes "reconcile_all x pool cs db = Inr db'"
    and "\<forall>r \<in> set cs. \<forall>c \<in> set cs. fst r = fst c \<longrightarrow> r = c"
  shows "same_facts db db' \<and> (\<forall>u. u \<notin> fst ` set cs \<longrightarrow> enrollment_of db' u = enrollment_of db u)
    \<and> (\<forall>rt reason. (rt, reason) \<in> set cs \<longrightarrow> (\<exists>j. enrollment_of db' rt = Some j \<and> settled reason j))"
  using assms
proof (induction cs arbitrary: db)
  case Nil
  then show ?case by simp
next
  case (Cons c cs)
  obtain rt reason where c: "c = (rt, reason)" by (cases c)
  from Cons.prems(1) obtain db1 where s: "reconcile_change x pool (rt, reason) db = Inr db1"
    and a: "reconcile_all x pool cs db1 = Inr db'" by (auto simp: c)
  have one: "\<forall>r \<in> set cs. \<forall>c \<in> set cs. fst r = fst c \<longrightarrow> r = c" using Cons.prems(2) by simp
  note ih = Cons.IH [OF a one, THEN conjunct1] Cons.IH [OF a one, THEN conjunct2, THEN conjunct1, rule_format]
    Cons.IH [OF a one, THEN conjunct2, THEN conjunct2, rule_format]
  note rc = reconcile_change_Inr [OF s]
  have "\<exists>j. enrollment_of db' u = Some j \<and> settled why j" if m: "(u, why) \<in> set (c # cs)" for u why
  proof (cases "u \<in> fst ` set cs")
    case True
    then obtain v where v: "v \<in> set cs" "fst v = u" by auto
    with Cons.prems(2) m have "v = (u, why)" by (metis fst_conv list.set_intros(2))
    with v have "(u, why) \<in> set cs" by simp
    then show ?thesis by (rule ih(3))
  next
    case False
    then have "(u, why) = (rt, reason)" using m c by (force simp: image_iff)
    moreover have "enrollment_of db' u = enrollment_of db1 u" using False by (rule ih(2))
    ultimately show ?thesis using rc(3) by simp
  qed
  moreover have "enrollment_of db' u = enrollment_of db u" if "u \<notin> fst ` set (c # cs)" for u
  proof -
    have "enrollment_of db' u = enrollment_of db1 u" using that by (intro ih(2)) simp
    then show ?thesis using rc(2) [of u] that c by simp
  qed
  moreover have "same_facts db db'" using same_facts_trans [OF rc(1) ih(1)] .
  ultimately show ?case by blast
qed

lemma open_enrollment_in: "j \<in> set (open_enrollments db pool) \<Longrightarrow> j \<in> set (enrollments db)"
  by (auto simp: open_enrollments_def)

lemma open_enrollments_pin:
  assumes "same_facts db db'" and "j' \<in> set (open_enrollments db' pool)"
  shows "\<exists>j \<in> set (open_enrollments db pool). pin j = pin j'"
proof -
  from assms(2) obtain m where j': "j' \<in> set (enrollments db')" and m: "m \<in> set (members db')"
    "m_agent m = j_agent j'" "m_pool m = pool" "m_replaced_by m = None" "j_state j' \<noteq> EnrollJoined"
    by (auto simp: open_enrollments_def)
  have "pin j' \<in> pin ` set (enrollments db)"
    using j' assms(1) unfolding same_facts_def by (metis imageI list.set_map)
  then obtain j where j: "j \<in> set (enrollments db)" "pin j = pin j'" by auto
  have "j_agent j = j_agent j'" "j_state j \<noteq> EnrollJoined" using j(2) m(5) by (auto simp: pin_def)
  moreover have "m \<in> set (members db)" using m(1) assms(1) by (simp add: same_facts_def)
  ultimately have "j \<in> set (open_enrollments db pool)" using j(1) m
    by (force simp: open_enrollments_def)
  with j(2) show ?thesis by blast
qed

lemma enrollment_of_member:
  assumes "distinct (map j_agent (enrollments db))" and "j \<in> set (enrollments db)"
  shows "enrollment_of db (j_agent j) = Some j"
  unfolding enrollment_of_def using find_key [OF assms] .

lemma enrollment_change_cases:
  "enrollment_change x db j = Inr cs \<longleftrightarrow>
     (\<exists>f. enrollment_failure x db j = Inr f
        \<and> cs = (case (f, enrollment_of db (j_agent j)) of
                  (Some reason, Some k) \<Rightarrow> if settled reason k then [] else [(j_agent j, reason)]
                | _ \<Rightarrow> []))"
  by (auto simp: enrollment_change_def settled_def split: option.split)

text \<open>
  C32 (termination). Reconciliation converges: after one successful run no enrollment of the pool has a
  change left, and a further run, with the same facts about the workers, changes nothing, so every failed
  enrollment raises attention at most once. The run itself changes no agent, attempt, command, membership
  or log entry, and no joined enrollment stops being joined.
\<close>

theorem reconcile_converges:
  assumes "distinct (map j_agent (enrollments db))"
    and "reconcile_pool_enrollments x pool db = (Inr (), db')"
  shows "enrollment_changes x db' pool = Inr []
    \<and> reconcile_pool_enrollments x pool db' = (Inr (), db') \<and> same_facts db db'"
proof -
  from assms(2) obtain cs where cs: "enrollment_changes x db pool = Inr cs"
    and run: "reconcile_all x pool cs db = Inr db'"
    by (auto simp: reconcile_pool_enrollments_def bindr_def commit_def split: sum.splits list.splits)
  from cs obtain css where css: "mapr (enrollment_change x db) (open_enrollments db pool) = Inr css"
    and concat: "cs = concat css" by (auto simp: enrollment_changes_def)
  have listed: "\<exists>j \<in> set (enrollments db). j_agent j = fst c \<and> enrollment_failure x db j = Inr (Some (snd c))"
    if "c \<in> set cs" for c
    using that mapr_Inr_image [OF css] unfolding concat
    by (fastforce simp: enrollment_change_cases open_enrollment_in split: option.splits if_splits)
  have key: "j = k" if "j \<in> set (enrollments db)" "k \<in> set (enrollments db)" "j_agent j = j_agent k" for j k
    using that assms(1) by (auto simp: distinct_map dest: inj_onD)
  have one: "\<forall>r \<in> set cs. \<forall>c \<in> set cs. fst r = fst c \<longrightarrow> r = c"
    using listed key by (metis option.inject prod.collapse sum.inject(2))
  note all = reconcile_all_Inr [OF run one]
  have "enrollment_change x db' j' = Inr []" if j': "j' \<in> set (open_enrollments db' pool)" for j'
  proof -
    obtain j where j: "j \<in> set (open_enrollments db pool)" and pin: "pin j = pin j'"
      using open_enrollments_pin all j' by blast
    obtain c where "enrollment_change x db j = Inr c" "set c \<subseteq> set cs"
      using mapr_Inr_elem [OF css j] unfolding concat by auto
    then obtain f where f: "enrollment_failure x db j = Inr f"
      and c: "set (case (f, Some j) of (Some reason, Some k) \<Rightarrow>
          if settled reason k then [] else [(j_agent j, reason)] | _ \<Rightarrow> []) \<subseteq> set cs"
      using enrollment_of_member [OF assms(1) open_enrollment_in [OF j]] by (auto simp: enrollment_change_cases)
    have f': "enrollment_failure x db' j' = Inr f"
      using enrollment_failure_cong all pin f by metis
    have "settled reason k" if "f = Some reason" "enrollment_of db' (j_agent j) = Some k" for reason k
    proof (cases "(j_agent j, reason) \<in> set cs")
      case True
      with all that(2) show ?thesis by force
    next
      case False
      then have "settled reason j" using c that(1) by (auto split: if_splits)
      moreover have "j_agent j \<notin> fst ` set cs"
        using False listed key open_enrollment_in [OF j] f that(1) by fastforce
      ultimately show ?thesis
        using all that(2) enrollment_of_member [OF assms(1) open_enrollment_in [OF j]] by auto
    qed
    then show ?thesis using f' pin by (auto simp: enrollment_change_cases pin_def split: option.split)
  qed
  then have "enrollment_changes x db' pool = Inr []"
    unfolding enrollment_changes_def by (intro mapr_const_nil) blast
  then show ?thesis using all by (simp add: reconcile_pool_enrollments_def)
qed

definition lost_db :: db where
  "lost_db = sample_db\<lparr> agents := [sample_agent ag_a, (sample_agent ag_b)\<lparr> a_status := Lost \<rparr>],
     enrollments := [\<lparr> j_agent = ag_b, j_run = ag_b, j_attempt = ''t'', j_challenge = ''ch'', j_deadline = 9,
       j_state = EnrollPending, j_created_at = 0, j_ack_seq = None, j_ack_at = None, j_failure = None,
       j_attention_delivery = None, j_attention_issued = False \<rparr>] \<rparr>"

lemma lost_changes: "enrollment_changes sample_ext lost_db sample_pool = Inr [(ag_b, ''worker_ended'')]"
  by (simp add: enrollment_changes_def open_enrollments_def enrollment_change_def enrollment_failure_def
      restart_view_def failure_reason_def agent_by_id_def enrollment_of_def lost_db_def sample_db_def
      sample_member_def del: bindr_eq_Inr)

lemma lost_reconciled: "fst (reconcile_pool_enrollments sample_ext sample_pool lost_db) = Inr ()"
proof -
  have "\<exists>db'. reconcile_change sample_ext sample_pool (ag_b, ''worker_ended'') lost_db = Inr db'"
    by (simp add: reconcile_change_def raise_attention_def Let_def enrollment_of_def record_failure_def
        update_enrollment_def terminal_notice_covers_def insert_event_def pool_by_id_def
        insert_delivery_def lost_db_def sample_db_def)
  then show ?thesis by (auto simp: reconcile_pool_enrollments_def lost_changes)
qed

theorem reconcile_converges_witness:
  "enrollment_changes sample_ext lost_db sample_pool = Inr [(ag_b, ''worker_ended'')]
   \<and> enrollment_changes sample_ext (snd (reconcile_pool_enrollments sample_ext sample_pool lost_db)) sample_pool
      = Inr []"
proof -
  have "reconcile_pool_enrollments sample_ext sample_pool lost_db =
      (Inr (), snd (reconcile_pool_enrollments sample_ext sample_pool lost_db))"
    using lost_reconciled by (metis prod.collapse)
  from reconcile_converges [OF _ this] lost_changes show ?thesis by (simp add: lost_db_def)
qed

end
