(* ===== verification/PoolSettle.thy ===== *)
theory PoolSettle
  imports PoolEnrollment
begin

text \<open>
  The verified common completion of a pool, from \<^verbatim>\<open>crates/agent-run-store/src/pool_settle.rs\<close>, with the
  terminal notices of \<^verbatim>\<open>delivery.rs\<close> that binding a pool repairs: the evaluation of one snapshot, the
  completion written in one transaction, the fair sweep over open pools, and the binding of a pool.
\<close>

section \<open>Model\<close>

subsection \<open>The frozen notice\<close>

definition NOTICE_BYTES :: nat where
  "NOTICE_BYTES = 4096"

definition EVENT_BYTES :: nat where
  "EVENT_BYTES = 256 * 1024"

record pool_completion =
  pc_pool_id :: string
  pc_delivery_id :: string
  pc_bound :: bool
  pc_created :: bool

definition cut_str :: "string \<Rightarrow> nat \<Rightarrow> string" where
  "cut_str s max_bytes = take (boundary_down s (min max_bytes (length s))) s"

definition goal_excerpt :: "string \<Rightarrow> string" where
  "goal_excerpt goal =
     (let excerpt = cut_str goal 512 in
      if length excerpt < length goal
      then excerpt @ '' [goal excerpt; the full goal is in the pool record]'' else excerpt)"

definition notice_members :: "(string \<times> string \<times> string) list \<Rightarrow> string" where
  "notice_members roster =
     join ''; '' (map (\<lambda>(i, name, role). name @ '' ('' @ role @ '', '' @ i @ '')'') roster)"

definition notice_checks :: string where
  "notice_checks = '' is complete: every current member voted ready on the same proposal, finished successfully and was cleaned up. Only these formal checks were verified; whether the result is right is for the orchestrator to judge.''"

definition notice_head ::
    "string \<Rightarrow> string \<Rightarrow> (string \<times> string \<times> string) list \<Rightarrow> nat \<Rightarrow> nat \<Rightarrow> string" where
  "notice_head pool goal roster proposal revision =
     ''Pool '' @ pool @ notice_checks @ nl @ ''Goal: '' @ goal_excerpt goal @ nl
     @ ''Members: '' @ notice_members roster @ nl
     @ ''Accepted result (proposal #'' @ show_nat proposal @ '', roster revision '' @ show_nat revision
     @ ''):'' @ nl"

definition notice_marker :: "nat \<Rightarrow> string" where
  "notice_marker proposal =
     nl @ ''[truncated; the full result is proposal entry #'' @ show_nat proposal @ '' in the pool log]''"

definition notice_text ::
    "string \<Rightarrow> string \<Rightarrow> (string \<times> string \<times> string) list \<Rightarrow> nat \<Rightarrow> nat \<Rightarrow> string \<Rightarrow> string" where
  "notice_text pool goal roster proposal revision snapshot =
     (let head = notice_head pool goal roster proposal revision; marker = notice_marker proposal in
      if length head + length snapshot \<le> NOTICE_BYTES then head @ snapshot
      else head @ cut_str snapshot (NOTICE_BYTES - (length head + length marker)) @ marker)"

subsection \<open>Evaluation\<close>

record ready =
  rd_goal :: string
  rd_revision :: nat
  rd_criteria :: "(string \<times> string) list"
  rd_proposal :: nat
  rd_snapshot :: string
  rd_members :: "json list"
  rd_tips :: "json list"
  rd_roster :: "(string \<times> string \<times> string) list"
  rd_anchor :: string
  rd_session :: "string option"

datatype evaluation = Missing | Completed pool_completion | NotReady | IsReady ready

text \<open>Every criterion is covered exactly once, and met.\<close>

definition checks_exact :: "(string \<times> string) list \<Rightarrow> json option \<Rightarrow> bool" where
  "checks_exact criteria checks =
     (case checks_items checks of
        None \<Rightarrow> False
      | Some items \<Rightarrow>
          sort (List.map_filter (\<lambda>c. as_str (jfield ''criterion_id'' c)) items) = sort (map fst criteria)
          \<and> all_met items)"

record seat_proof =
  sp_member :: json
  sp_tip :: json
  sp_roster :: "string \<times> string \<times> string"
  sp_anchor :: string

definition seat_evidence ::
    "string \<Rightarrow> nat \<Rightarrow> member_row \<Rightarrow> string \<Rightarrow> status \<Rightarrow> json option \<Rightarrow> db \<Rightarrow> seat_proof res" where
  "seat_evidence pool proposal m tip st checks db =
     bindr (ok_or no_rows (latest_vote_row db pool (m_agent m) proposal)) (\<lambda>e.
       Inr \<lparr> sp_member = JObj [(''agent_id'', JStr (m_agent m)), (''slot'', JNum (int (m_slot m))),
                 (''name'', JStr (m_name m)), (''role'', JStr (m_role m)),
                 (''vote_seq'', JNum (int (e_seq e))),
                 (''checks'', case checks_items checks of Some items \<Rightarrow> JArr items | None \<Rightarrow> JNull)],
             sp_tip = JObj [(''agent_id'', JStr (m_agent m)), (''tip'', JStr tip),
                 (''status'', JStr (status_as_str st))],
             sp_roster = (m_agent m, m_name m, m_role m), sp_anchor = tip \<rparr>)"

text \<open>One seat of the loop: \<open>None\<close> is the early return of \<^verbatim>\<open>NotReady\<close>.\<close>

definition evaluate_seat ::
    "ext \<Rightarrow> string \<Rightarrow> (string \<times> string) list \<Rightarrow> nat \<Rightarrow> nat \<Rightarrow> nat \<Rightarrow> member_row \<Rightarrow> db \<Rightarrow> seat_proof option res" where
  "evaluate_seat x pool criteria revision proposal proposal_revision m db =
     bindr (parse_agent x (m_agent m)) (\<lambda>rt.
       if (case enrollment_of db rt of Some j \<Rightarrow> j_state j \<noteq> EnrollJoined | None \<Rightarrow> False) then Inr None
       else
       bindr (tip_of x db rt) (\<lambda>tip.
       if is_restart_stop db tip then Inr None
       else
       bindr (agent_status db tip) (\<lambda>st.
       let latest = latest_vote db pool (m_agent m) proposal;
           checks = Option.bind latest vv_checks in
       if snd (vote_validity latest revision proposal_revision tip st) \<noteq> ''valid''
          \<or> st \<noteq> Succeeded \<or> \<not> checks_exact criteria checks \<or> \<not> lineage_cleanup_complete db rt
       then Inr None
       else bindr (seat_evidence pool proposal m tip st checks db) (\<lambda>p. Inr (Some p)))))"

fun evaluate_seats ::
    "ext \<Rightarrow> string \<Rightarrow> (string \<times> string) list \<Rightarrow> nat \<Rightarrow> nat \<Rightarrow> nat \<Rightarrow> member_row list \<Rightarrow> db \<Rightarrow> seat_proof list option res" where
  "evaluate_seats x pool criteria revision proposal proposal_revision [] db = Inr (Some [])"
| "evaluate_seats x pool criteria revision proposal proposal_revision (m # ms) db =
     bindr (evaluate_seat x pool criteria revision proposal proposal_revision m db) (\<lambda>p.
       case p of
         None \<Rightarrow> Inr None
       | Some p \<Rightarrow>
           bindr (evaluate_seats x pool criteria revision proposal proposal_revision ms db) (\<lambda>ps.
             Inr (map_option ((#) p) ps)))"

definition seats_by_slot :: "db \<Rightarrow> string \<Rightarrow> member_row list" where
  "seats_by_slot db pool = sort_key m_slot (current_seats db pool)"

definition ready_of ::
    "ext \<Rightarrow> pool_row \<Rightarrow> (string \<times> string) list \<Rightarrow> nat \<Rightarrow> string \<Rightarrow> seat_proof list \<Rightarrow> evaluation res" where
  "ready_of x p criteria proposal snapshot proofs =
     bindr (parse_agent x (sp_anchor (hd proofs))) (\<lambda>anchor.
       Inr (IsReady \<lparr> rd_goal = p_goal p, rd_revision = p_roster_revision p, rd_criteria = criteria,
         rd_proposal = proposal, rd_snapshot = snapshot, rd_members = map sp_member proofs,
         rd_tips = map sp_tip proofs, rd_roster = map sp_roster proofs, rd_anchor = anchor,
         rd_session = p_session p \<rparr>))"

definition evaluate_open :: "ext \<Rightarrow> db \<Rightarrow> pool_row \<Rightarrow> evaluation res" where
  "evaluate_open x db p =
     (case current_proposal db (p_id p) of
        None \<Rightarrow> Inr NotReady
      | Some (proposal, snapshot, proposal_revision) \<Rightarrow>
          if proposal_revision \<noteq> p_roster_revision p then Inr NotReady
          else
          bindr (criteria_of (p_acceptance p)) (\<lambda>criteria.
            let seats = seats_by_slot db (p_id p) in
            if length seats < 2 then Inr NotReady
            else
            bindr (evaluate_seats x (p_id p) criteria (p_roster_revision p) proposal proposal_revision seats db)
              (\<lambda>proofs. case proofs of
                 None \<Rightarrow> Inr NotReady
               | Some proofs \<Rightarrow> ready_of x p criteria proposal snapshot proofs)))"

definition evaluate :: "ext \<Rightarrow> db \<Rightarrow> string \<Rightarrow> evaluation res" where
  "evaluate x db pool =
     (case pool_by_id db pool of
        None \<Rightarrow> Inr Missing
      | Some p \<Rightarrow>
          if p_state p = CompletedPool
          then Inr (case p_completion_delivery p of
                      Some d \<Rightarrow> Completed \<lparr> pc_pool_id = pool, pc_delivery_id = d,
                                  pc_bound = (p_session p \<noteq> None), pc_created = False \<rparr>
                    | None \<Rightarrow> NotReady)
          else evaluate_open x db p)"

subsection \<open>Settlement\<close>

definition completion_notice :: "string \<Rightarrow> ready \<Rightarrow> string" where
  "completion_notice pool r =
     notice_text pool (rd_goal r) (rd_roster r) (rd_proposal r) (rd_revision r) (rd_snapshot r)"

definition completion_data :: "string \<Rightarrow> ready \<Rightarrow> json" where
  "completion_data pool r =
     JObj [(''pool_id'', JStr pool), (''roster_revision'', JNum (int (rd_revision r))),
       (''goal'', JStr (rd_goal r)),
       (''acceptance'', JArr (map (\<lambda>(i, t). JObj [(''id'', JStr i), (''text'', JStr t)]) (rd_criteria r))),
       (''proposal'', JObj [(''seq'', JNum (int (rd_proposal r))), (''snapshot'', JStr (rd_snapshot r))]),
       (''members'', JArr (rd_members r)),
       (''proofs'', JObj [(''tips'', JArr (rd_tips r)), (''cleanup_complete'', JBool True),
                          (''formal_checks_only'', JBool True)]),
       (''notice'', JStr (completion_notice pool r))]"

definition complete_pool :: "string \<Rightarrow> rat \<Rightarrow> string \<Rightarrow> pool_row \<Rightarrow> pool_row" where
  "complete_pool pool tm delivery p =
     (if p_id p = pool \<and> p_state p = OpenPool
      then p\<lparr> p_state := CompletedPool, p_completed_at := Some tm, p_completion_delivery := Some delivery \<rparr>
      else p)"

definition write_completion :: "ext \<Rightarrow> string \<Rightarrow> ready \<Rightarrow> db \<Rightarrow> error + (pool_completion option \<times> db)" where
  "write_completion x pool r db =
     (if EVENT_BYTES < x_json_len x (completion_data pool r)
      then Inl (Integrity ''pool completion record exceeds its bound'')
      else
      let (event, db1) = tx_event x db (rd_anchor r) ''pool_completed'' None None (completion_data pool r);
          delivery = notification_id x db1;
          db2 = insert_delivery
            (new_delivery delivery (rd_anchor r) (rd_session r) event
              (if rd_session r \<noteq> None then ''pending'' else ''waiting_binding'')
              (if rd_session r \<noteq> None then Some (x_now x) else None)) db1;
          changed = length (filter (\<lambda>p. p_id p = pool \<and> p_state p = OpenPool) (pools db2)) in
      if changed \<noteq> 1 then Inl Conflict
      else Inr (Some \<lparr> pc_pool_id = pool, pc_delivery_id = delivery, pc_bound = (rd_session r \<noteq> None),
                       pc_created = True \<rparr>,
                db2\<lparr> pools := map (complete_pool pool (x_now x) delivery) (pools db2) \<rparr>))"

definition settle_in_tx :: "ext \<Rightarrow> string \<Rightarrow> db \<Rightarrow> error + (pool_completion option \<times> db)" where
  "settle_in_tx x pool db =
     bindr (evaluate x db pool) (\<lambda>ev.
       case ev of
         Missing \<Rightarrow> Inr (None, db)
       | NotReady \<Rightarrow> Inr (None, db)
       | Completed done \<Rightarrow> Inr (Some done, db)
       | IsReady r \<Rightarrow> write_completion x pool r db)"

definition settle_pool :: "ext \<Rightarrow> string \<Rightarrow> db \<Rightarrow> pool_completion option res \<times> db" where
  "settle_pool x pool db =
     (case reconcile_pool_enrollments x pool db of
        (Inl e, db1) \<Rightarrow> (Inl e, db1)
      | (Inr _, db1) \<Rightarrow>
          (case evaluate x db1 pool of
             Inl e \<Rightarrow> (Inl e, db1)
           | Inr Missing \<Rightarrow> (Inr None, db1)
           | Inr NotReady \<Rightarrow> (Inr None, db1)
           | Inr (Completed done) \<Rightarrow> (Inr (Some done), db1)
           | Inr (IsReady _) \<Rightarrow> commit db1 (settle_in_tx x pool db1)))"

definition pool_of_agent :: "db \<Rightarrow> string \<Rightarrow> string option" where
  "pool_of_agent db agent =
     map_option (\<lambda>(m, p, a). m_pool m)
       (find (\<lambda>(m, p, a). p_id p = m_pool m \<and> m_agent m = (if a_root a = [] then a_id a else a_root a)
           \<and> a_id a = agent \<and> m_replaced_by m = None \<and> p_state p = OpenPool)
         (List.product (members db) (List.product (pools db) (agents db))))"

definition settle_pool_of :: "ext \<Rightarrow> string \<Rightarrow> db \<Rightarrow> pool_completion option res \<times> db" where
  "settle_pool_of x agent db =
     (case pool_of_agent db agent of
        None \<Rightarrow> (Inr None, db)
      | Some pool \<Rightarrow>
          (case parse_pool x pool of Inl e \<Rightarrow> (Inl e, db) | Inr pool \<Rightarrow> settle_pool x pool db))"

subsection \<open>The maintenance sweep\<close>

definition needs_settling :: "db \<Rightarrow> pool_row \<Rightarrow> bool" where
  "needs_settling db p \<longleftrightarrow>
     p_state p = OpenPool
     \<and> (list_ex (\<lambda>e. e_pool e = p_id p \<and> e_kind e = ProposalEntry) (entries db)
        \<or> list_ex (\<lambda>(j, m). m_agent m = j_agent j \<and> m_pool m = p_id p \<and> j_state j \<noteq> EnrollJoined
             \<and> m_replaced_by m = None) (List.product (enrollments db) (members db)))"

definition open_pools :: "db \<Rightarrow> string list" where
  "open_pools db = sort (map p_id (filter (needs_settling db) (pools db)))"

definition window_start :: "nat \<Rightarrow> nat \<Rightarrow> nat \<Rightarrow> nat" where
  "window_start limit seed count = seed * limit mod 2 ^ 64 mod count"

definition open_pool_candidates :: "ext \<Rightarrow> db \<Rightarrow> nat \<Rightarrow> nat \<Rightarrow> string list res" where
  "open_pool_candidates x db limit seed =
     (let ids = open_pools db; count = length ids in
      if count = 0 \<or> limit = 0 then Inr []
      else mapr (parse_pool x) (take limit (drop (window_start limit seed count) ids)))"

fun any_pending :: "ext \<Rightarrow> db \<Rightarrow> string list \<Rightarrow> bool res" where
  "any_pending x db [] = Inr False"
| "any_pending x db (pool # rest) =
     bindr (enrollment_changes x db pool) (\<lambda>cs.
       if cs \<noteq> [] then Inr True
       else bindr (evaluate x db pool) (\<lambda>ev.
         case ev of IsReady _ \<Rightarrow> Inr True | _ \<Rightarrow> any_pending x db rest))"

definition pool_settlement_pending :: "ext \<Rightarrow> db \<Rightarrow> nat \<Rightarrow> nat \<Rightarrow> bool res" where
  "pool_settlement_pending x db limit seed =
     bindr (open_pool_candidates x db limit seed) (any_pending x db)"

fun settle_all :: "ext \<Rightarrow> string list \<Rightarrow> nat \<Rightarrow> db \<Rightarrow> nat res \<times> db" where
  "settle_all x [] completed db = (Inr completed, db)"
| "settle_all x (pool # rest) completed db =
     (case settle_pool x pool db of
        (Inl e, db1) \<Rightarrow> (Inl e, db1)
      | (Inr c, db1) \<Rightarrow>
          settle_all x rest
            (case c of Some c \<Rightarrow> if pc_created c then completed + 1 else completed | None \<Rightarrow> completed) db1)"

definition settle_open_pools :: "ext \<Rightarrow> nat \<Rightarrow> nat \<Rightarrow> db \<Rightarrow> nat res \<times> db" where
  "settle_open_pools x limit seed db =
     (case open_pool_candidates x db limit seed of
        Inl e \<Rightarrow> (Inl e, db)
      | Inr ids \<Rightarrow> settle_all x ids 0 db)"

subsection \<open>Terminal notices and binding\<close>

definition record_root :: "agent_row \<Rightarrow> string" where
  "record_root a = (if a_root a = [] then a_id a else a_root a)"

definition member_success :: "db \<Rightarrow> string \<Rightarrow> bool" where
  "member_success db agent =
     list_ex (\<lambda>(a, m, p). m_agent m = record_root a \<and> p_id p = m_pool m \<and> a_id a = agent
         \<and> a_status a = Succeeded \<and> m_replaced_by m = None)
       (List.product (agents db) (List.product (members db) (pools db)))"

definition insert_terminal_notice ::
    "ext \<Rightarrow> db \<Rightarrow> string \<Rightarrow> string option \<Rightarrow> nat \<Rightarrow> rat \<Rightarrow> string option \<times> db" where
  "insert_terminal_notice x db agent session event tm =
     (if member_success db agent then (None, db)
      else case session of
        None \<Rightarrow> (None, db)
      | Some session \<Rightarrow>
          (case find (\<lambda>d. d_agent d = Some agent \<and> d_event d = Some event) (deliveries db) of
             Some d \<Rightarrow> (Some (d_id d), db)
           | None \<Rightarrow>
               let ntf = notification_id x db in
               (Some ntf, insert_delivery (new_delivery ntf agent (Some session) event ''pending'' (Some tm)) db)))"

definition terminal_event :: "db \<Rightarrow> string \<Rightarrow> nat option" where
  "terminal_event db agent =
     map_option (\<lambda>(e, a). v_seq e) (max_row (\<lambda>(e, a). v_seq e)
       (filter (\<lambda>(e, a). v_agent e = a_id a \<and> a_id a = agent
           \<and> a_status a \<in> {Succeeded, Failed, TimedOut, Cancelled, Lost}
           \<and> v_kind e = ''status'' \<and> v_to e = Some (a_status a)
           \<and> \<not> json_true (jfield ''service_restart'' (v_data e)))
         (List.product (events db) (agents db))))"

definition ensure_bound_terminal_notice :: "ext \<Rightarrow> db \<Rightarrow> string \<Rightarrow> string \<Rightarrow> rat \<Rightarrow> db" where
  "ensure_bound_terminal_notice x db agent session tm =
     (case terminal_event db agent of
        None \<Rightarrow> db
      | Some event \<Rightarrow> snd (insert_terminal_notice x db agent (Some session) event tm))"

definition seat_tips :: "ext \<Rightarrow> db \<Rightarrow> string \<Rightarrow> string list res" where
  "seat_tips x db pool =
     mapr (\<lambda>m. bindr (parse_agent x (m_agent m)) (tip_of x db)) (seats_by_slot db pool)"

definition tip_session :: "db \<Rightarrow> string \<Rightarrow> string option res" where
  "tip_session db tip = bindr (ok_or no_rows (agent_by_id db tip)) (\<lambda>a. Inr (a_session a))"

text \<open>The sessions already bound to the members; another orchestrator's session is refused.\<close>

fun bound_sessions :: "db \<Rightarrow> orchestrator_ref \<Rightarrow> string list \<Rightarrow> string list res" where
  "bound_sessions db r [] = Inr []"
| "bound_sessions db r (tip # tips) =
     bindr (tip_session db tip) (\<lambda>bound.
       case bound of
         None \<Rightarrow> bound_sessions db r tips
       | Some existing \<Rightarrow>
           bindr (session_matches_reference db existing r) (\<lambda>same.
             if \<not> same then Inl (Validation ''a pool member is bound to a different orchestrator'')
             else bindr (bound_sessions db r tips) (\<lambda>rest. Inr (existing # rest))))"

fun touch_sessions :: "string \<Rightarrow> orchestrator_ref \<Rightarrow> rat \<Rightarrow> string list \<Rightarrow> db \<Rightarrow> db res" where
  "touch_sessions session r tm [] db = Inr db"
| "touch_sessions session r tm (existing # rest) db =
     (if existing \<noteq> session
      then bindr (touch_session_reference db existing r tm) (touch_sessions session r tm rest)
      else touch_sessions session r tm rest db)"

definition set_agent_session :: "string \<Rightarrow> string \<Rightarrow> db \<Rightarrow> db" where
  "set_agent_session agent session db =
     db\<lparr> agents := map (\<lambda>a. if a_id a = agent then a\<lparr> a_session := Some session \<rparr> else a) (agents db) \<rparr>"

definition bind_tip :: "ext \<Rightarrow> string \<Rightarrow> rat \<Rightarrow> string \<Rightarrow> db \<Rightarrow> db res" where
  "bind_tip x session tm tip db =
     bindr (tip_session db tip) (\<lambda>bound.
       case bound of
         None \<Rightarrow> Inr (ensure_bound_terminal_notice x (set_agent_session tip session db) tip session tm)
       | Some existing \<Rightarrow> Inr (ensure_bound_terminal_notice x db tip existing tm))"

fun bind_tips :: "ext \<Rightarrow> string \<Rightarrow> rat \<Rightarrow> string list \<Rightarrow> db \<Rightarrow> db res" where
  "bind_tips x session tm [] db = Inr db"
| "bind_tips x session tm (tip # tips) db = bindr (bind_tip x session tm tip db) (bind_tips x session tm tips)"

definition set_pool_session :: "string \<Rightarrow> string \<Rightarrow> db \<Rightarrow> db" where
  "set_pool_session pool session db =
     db\<lparr> pools := map (\<lambda>p. if p_id p = pool then p\<lparr> p_session := Some session \<rparr> else p) (pools db) \<rparr>"

definition activate_notice :: "string \<Rightarrow> string \<Rightarrow> rat \<Rightarrow> db \<Rightarrow> db" where
  "activate_notice pool session tm db =
     (let target = Option.bind (pool_by_id db pool) p_completion_delivery in
      db\<lparr> deliveries := map (\<lambda>d. if d_state d = ''waiting_binding'' \<and> Some (d_id d) = target
        then d\<lparr> d_session := (case d_session d of Some s \<Rightarrow> Some s | None \<Rightarrow> Some session),
               d_state := ''pending'', d_next_attempt_at := Some tm \<rparr> else d) (deliveries db) \<rparr>)"

definition pool_session_for ::
    "ext \<Rightarrow> string option \<Rightarrow> orchestrator_ref \<Rightarrow> rat \<Rightarrow> db \<Rightarrow> (string \<times> db) res" where
  "pool_session_for x current r tm db =
     (case current of
        Some existing \<Rightarrow> bindr (touch_session_reference db existing r tm) (\<lambda>db1. Inr (existing, db1))
      | None \<Rightarrow> session_for_reference x db r tm)"

text \<open>The part of the transaction after the pool's own binding is checked.\<close>

definition bind_members ::
    "ext \<Rightarrow> string \<Rightarrow> pool_row \<Rightarrow> orchestrator_ref \<Rightarrow> rat \<Rightarrow> db \<Rightarrow> error + (string \<times> db)" where
  "bind_members x pool p r tm db =
     bindr (seat_tips x db pool) (\<lambda>tips.
     bindr (bound_sessions db r tips) (\<lambda>bound.
     bindr (pool_session_for x (p_session p) r tm db) (\<lambda>(session, db1).
     bindr (touch_sessions session r tm bound db1) (\<lambda>db2.
     bindr (bind_tips x session tm tips
              (if p_session p = None then set_pool_session pool session db2 else db2)) (\<lambda>db3.
       Inr (session, activate_notice pool session tm db3))))))"

definition bind_pool_tx :: "ext \<Rightarrow> string \<Rightarrow> orchestrator_ref \<Rightarrow> rat \<Rightarrow> db \<Rightarrow> error + (string \<times> db)" where
  "bind_pool_tx x pool r tm db =
     bindr (validate_ref r) (\<lambda>_.
     bindr (ok_or (NotFound pool) (pool_by_id db pool)) (\<lambda>p.
     bindr (case p_session p of
              None \<Rightarrow> Inr True | Some existing \<Rightarrow> session_matches_reference db existing r) (\<lambda>same.
     if \<not> same then Inl (Validation ''pool orchestration binding is immutable'')
     else bind_members x pool p r tm db)))"

definition bind_pool :: "ext \<Rightarrow> string \<Rightarrow> orchestrator_ref \<Rightarrow> rat \<Rightarrow> db \<Rightarrow> string res \<times> db" where
  "bind_pool x pool r tm db = commit db (bind_pool_tx x pool r tm db)"

end
