(* ===== verification/PoolSweep.thy ===== *)
theory PoolSweep
  imports PoolSettle
begin

text \<open>
  Properties of the settlement sweep of \<^verbatim>\<open>pool_settle.rs\<close>: rotating the seed reaches every open pool,
  and the frozen notice stays within its bound.
\<close>

section \<open>Fairness of the sweep\<close>

lemma congruent_in_range:
  fixes n :: nat
  assumes "0 < n"
  shows "\<exists>s. s0 \<le> s \<and> s < s0 + n \<and> s mod n = r mod n"
proof (intro exI conjI)
  let ?s = "s0 + (r + (n - s0 mod n)) mod n"
  show "s0 \<le> ?s" by simp
  show "?s < s0 + n" using assms by simp
  have "?s mod n = (s0 mod n + (r + (n - s0 mod n))) mod n" by (simp add: mod_add_eq mod_add_left_eq mod_add_right_eq)
  also have "s0 mod n + (r + (n - s0 mod n)) = r + n" using mod_le_divisor [OF assms, of s0] by linarith
  finally show "?s mod n = r mod n" by simp
qed

text \<open>The starts of the windows are the multiples of the greatest common divisor.\<close>

lemma window_start_reached:
  fixes n limit :: nat
  assumes "0 < n" and "0 < limit" and "gcd limit n dvd t" and "t < n"
  shows "\<exists>s. s0 \<le> s \<and> s < s0 + n \<and> s * limit mod n = t"
proof -
  let ?g = "gcd limit n"
  obtain a b where ab: "limit * a = n * b + ?g" using bezout_nat [of limit n] assms(2) by auto
  obtain k where t: "t = ?g * k" using assms(3) by (auto simp: dvd_def)
  obtain s where s: "s0 \<le> s" "s < s0 + n" "s mod n = a * k mod n"
    using congruent_in_range [OF assms(1)] by blast
  have "s * limit mod n = a * k * limit mod n" using s(3) by (metis mod_mult_left_eq)
  also have "a * k * limit = n * (b * k) + t" using ab t by (metis add_mult_distrib mult.assoc mult.commute)
  also have "\<dots> mod n = t" using assms(4) by simp
  finally show ?thesis using s by blast
qed

lemma mapr_parse_id: "\<forall>v \<in> set xs. f v = Inr v \<Longrightarrow> mapr f xs = Inr xs"
  by (simp add: mapr_id)

lemma nth_in_window: "t \<le> i \<Longrightarrow> i < t + k \<Longrightarrow> i < length xs \<Longrightarrow> xs ! i \<in> set (take k (drop t xs))"
proof -
  assume h: "t \<le> i" "i < t + k" "i < length xs"
  then have "take k (drop t xs) ! (i - t) = xs ! i" "i - t < length (take k (drop t xs))" by auto
  then show ?thesis by (metis nth_mem)
qed

text \<open>
  C34 (liveness). The rotation of the sweep leaves out no pool: while the open candidate pools stay the same,
  among any consecutive seeds, as many as there are candidates, one selects a page that contains a given
  candidate; a page never exceeds the limit. The seeds are those whose product with the limit does not wrap
  around 64 bits. The maintenance loop passes the second of each call as the seed, so a skipped second is a
  skipped seed: the statement counts seeds, not calls.
\<close>

theorem sweep_fair:
  assumes "pool \<in> set (open_pools db)" and "0 < limit"
    and "\<forall>i \<in> set (open_pools db). parse_pool x i = Inr i"
    and "(s0 + length (open_pools db)) * limit \<le> 2 ^ 64"
  shows "\<exists>s. s0 \<le> s \<and> s < s0 + length (open_pools db)
    \<and> (\<exists>ids. open_pool_candidates x db limit s = Inr ids \<and> pool \<in> set ids \<and> length ids \<le> limit)"
proof -
  let ?ids = "open_pools db" let ?n = "length ?ids" let ?g = "gcd limit ?n"
  obtain i where i: "i < ?n" "?ids ! i = pool" using assms(1) by (auto simp: in_set_conv_nth)
  define t where "t = i div ?g * ?g"
  have g: "0 < ?g" "?g \<le> limit" using assms(2) by (auto intro: dvd_imp_le)
  have t: "t \<le> i" "i < t + ?g"
    using div_mult_mod_eq [of i ?g] mod_less_divisor [OF g(1), of i] unfolding t_def by linarith+
  obtain s where s: "s0 \<le> s" "s < s0 + ?n" "s * limit mod ?n = t"
  proof -
    have "?g dvd t" "t < ?n" "0 < ?n" using i(1) t(1) by (simp add: t_def, linarith, linarith)
    then show thesis using window_start_reached [of ?n limit t s0] assms(2) that by blast
  qed
  have "s * limit < (s0 + ?n) * limit" using s(2) assms(2) by simp
  then have "s * limit < 2 ^ 64" using assms(4) by (rule order.strict_trans2)
  then have w: "window_start limit s ?n = t" using s(3) by (simp add: window_start_def)
  have "open_pool_candidates x db limit s = Inr (take limit (drop t ?ids))"
    using i(1) assms(2,3) mapr_parse_id [of "take limit (drop t ?ids)" "parse_pool x"]
    by (auto simp: open_pool_candidates_def Let_def w dest: in_set_takeD in_set_dropD)
  moreover have "pool \<in> set (take limit (drop t ?ids))"
    using nth_in_window [of t i limit ?ids] i t g(2) by simp
  ultimately show ?thesis using s by auto
qed

definition proposed_db :: db where
  "proposed_db = sample_db\<lparr> entries := [\<lparr> e_seq = 1, e_pool = sample_pool, e_author_kind = AuthorMember,
       e_author_agent = Some ag_a, e_author_name = Some ''n'', e_author_role = Some ''r'', e_direction = Team,
       e_kind = ProposalEntry, e_severity = None, e_proposal_seq = None, e_roster_revision = 1,
       e_decision = None, e_snapshot = Some ''s'', e_checks = None, e_body = ''b'', e_delivery = None,
       e_sender_run = Some ag_a, e_sender_attempt = Some ''t'', e_idem_scope = ''i'', e_request_id = ''q'',
       e_created_at = 0 \<rparr>], entry_seq := 1 \<rparr>"

lemma proposed_open: "open_pools proposed_db = [sample_pool]"
  by (simp add: open_pools_def needs_settling_def proposed_db_def sample_db_def)

theorem sweep_fair_witness:
  "\<exists>s < 1. \<exists>ids. open_pool_candidates sample_ext proposed_db 1 s = Inr ids \<and> sample_pool \<in> set ids"
  using sweep_fair [of sample_pool proposed_db 1 sample_ext 0] by (auto simp: proposed_open)

section \<open>The notice\<close>

lemma utf8_char_length: "length (utf8_char c) \<le> 4"
  by (simp add: utf8_char_def)

lemma utf8_length: "length (utf8 cs) \<le> 4 * length cs"
  by (induction cs) (use utf8_char_length in \<open>auto simp: utf8_def add_mono le_SucI\<close>)

lemma valid_utf8_length: "valid_utf8 s \<Longrightarrow> length s \<le> 4 * length (chars s)"
  using utf8_length [of "chars s"] by (simp add: utf8_chars)

lemma cut_length: "length (cut_str s k) \<le> k" "length (cut_str s k) \<le> length s"
  using boundary_down_le [of s "min k (length s)"] unfolding cut_str_def length_take by linarith+

lemma cut_valid: "valid_utf8 s \<Longrightarrow> valid_utf8 (cut_str s k)"
  by (simp add: cut_str_def valid_utf8_take)

lemma cut_near: "valid_utf8 s \<Longrightarrow> k \<le> length s \<Longrightarrow> k < length (cut_str s k) + 4"
  using boundary_down_near [of s k] boundary_down_le [of s k] by (simp add: cut_str_def min_absorb1 min_absorb2)

definition roster_ok :: "(string \<times> string \<times> string) list \<Rightarrow> bool" where
  "roster_ok roster \<longleftrightarrow> length roster \<le> 5
     \<and> (\<forall>(i, name, role) \<in> set roster. is_ascii i \<and> length i = 29
          \<and> valid_utf8 name \<and> length (chars name) \<le> 64 \<and> valid_utf8 role \<and> length (chars role) \<le> 48)"

lemma concat_length: "\<forall>v \<in> set vs. length v \<le> k \<Longrightarrow> length (concat vs) \<le> length vs * k"
  by (induction vs) (auto simp: add_mono)

lemma concat_valid: "\<forall>v \<in> set vs. valid_utf8 v \<Longrightarrow> valid_utf8 (concat vs)"
  by (induction vs) (auto simp: valid_utf8_append)

lemma join_concat: "join sep (v # vs) = concat (v # map (\<lambda>z. sep @ z) vs)"
  by (simp add: join_def)

definition entry_of_roster :: "string \<times> string \<times> string \<Rightarrow> string" where
  "entry_of_roster = (\<lambda>(i, name, role). name @ '' ('' @ role @ '', '' @ i @ '')'')"

lemma entry_of_roster_ok:
  assumes "roster_ok roster" and "t \<in> set roster"
  shows "length (entry_of_roster t) \<le> 482" and "valid_utf8 (entry_of_roster t)"
proof -
  obtain i name role where t: "t = (i, name, role)" by (cases t)
  have ok: "is_ascii i" "length i = 29" "valid_utf8 name" "length (chars name) \<le> 64" "valid_utf8 role"
    "length (chars role) \<le> 48"
    using assms t by (auto simp: roster_ok_def)
  show "length (entry_of_roster t) \<le> 482"
    using ok valid_utf8_length [OF ok(3)] valid_utf8_length [OF ok(5)] by (simp add: entry_of_roster_def t)
  have "valid_utf8 '' (''" "valid_utf8 '', ''" "valid_utf8 '')''"
    by (auto intro!: valid_utf8_ascii simp: is_ascii_def)
  with ok valid_utf8_ascii [OF ok(1)] show "valid_utf8 (entry_of_roster t)"
    unfolding entry_of_roster_def t prod.case by (intro valid_utf8_append)
qed

lemma notice_members_ok:
  assumes "roster_ok roster"
  shows "length (notice_members roster) \<le> 2420" and "valid_utf8 (notice_members roster)"
proof -
  have m: "notice_members ts = join ''; '' (map entry_of_roster ts)" for ts
    by (simp add: notice_members_def entry_of_roster_def)
  have sep: "valid_utf8 (''; '' @ z)" if "valid_utf8 z" for z
    by (rule valid_utf8_append [OF valid_utf8_ascii that]) (simp add: is_ascii_def)
  show "length (notice_members roster) \<le> 2420"
  proof (cases roster)
    case (Cons t ts)
    have "length (concat (map (\<lambda>z. ''; '' @ z) (map entry_of_roster ts)))
        \<le> length (map (\<lambda>z. ''; '' @ z) (map entry_of_roster ts)) * 484"
      using entry_of_roster_ok(1) [OF assms] Cons by (intro concat_length) auto
    moreover have "length ts \<le> 4" using assms Cons by (simp add: roster_ok_def)
    ultimately show ?thesis using entry_of_roster_ok(1) [OF assms, of t] Cons unfolding m
      by (simp add: join_def comp_def)
  qed (simp add: notice_members_def join_def)
  show "valid_utf8 (notice_members roster)"
  proof (cases roster)
    case (Cons t ts)
    have "valid_utf8 (concat (entry_of_roster t # map (\<lambda>z. ''; '' @ z) (map entry_of_roster ts)))"
      using entry_of_roster_ok(2) [OF assms] Cons sep by (intro concat_valid) auto
    then show ?thesis unfolding m Cons list.map join_concat .
  qed (simp add: notice_members_def join_def)
qed

lemma show_nat_valid: "valid_utf8 (show_nat n)"
  using show_nat_digits [of n]
  by (intro valid_utf8_ascii) (auto simp: is_ascii_def list_all_iff is_ascii_digit_def)

lemma goal_excerpt_ok:
  assumes "valid_utf8 goal"
  shows "length (goal_excerpt goal) \<le> 564" and "valid_utf8 (goal_excerpt goal)"
proof -
  have "valid_utf8 '' [goal excerpt; the full goal is in the pool record]''"
    by (rule valid_utf8_ascii) (simp add: is_ascii_def)
  then show "valid_utf8 (goal_excerpt goal)"
    using cut_valid [OF assms, of 512] by (auto simp: goal_excerpt_def Let_def intro: valid_utf8_append)
  show "length (goal_excerpt goal) \<le> 564"
    using cut_length(1) [of goal 512] by (simp add: goal_excerpt_def Let_def)
qed

lemma notice_checks_ok: "length notice_checks = 212" "valid_utf8 notice_checks"
  by (simp add: notice_checks_def) (rule valid_utf8_ascii, simp add: notice_checks_def is_ascii_def)

lemma nl_valid: "valid_utf8 nl" "length nl = 1"
  by (rule valid_utf8_ascii, simp add: nl_def is_ascii_def) (simp add: nl_def)

lemma notice_head_ok:
  assumes "is_ascii pool" and "length pool = 31" and "valid_utf8 goal" and "roster_ok roster"
    and "proposal < 2 ^ 63" and "revision < 2 ^ 32"
  shows "length (notice_head pool goal roster proposal revision) \<le> 3340"
    and "valid_utf8 (notice_head pool goal roster proposal revision)"
proof -
  have "length (show_nat proposal) \<le> 19" "length (show_nat revision) \<le> 10"
    using assms(5,6) by (auto intro!: show_nat_length)
  then show "length (notice_head pool goal roster proposal revision) \<le> 3340"
    using goal_excerpt_ok(1) [OF assms(3)] notice_members_ok(1) [OF assms(4)] notice_checks_ok nl_valid assms(2)
    by (simp add: notice_head_def)
  have "valid_utf8 ''Pool ''" "valid_utf8 ''Goal: ''" "valid_utf8 ''Members: ''"
    "valid_utf8 ''Accepted result (proposal #''" "valid_utf8 '', roster revision ''" "valid_utf8 ''):''"
    by (auto intro!: valid_utf8_ascii simp: is_ascii_def)
  then show "valid_utf8 (notice_head pool goal roster proposal revision)"
    using goal_excerpt_ok(2) [OF assms(3)] notice_members_ok(2) [OF assms(4)] notice_checks_ok nl_valid
      valid_utf8_ascii [OF assms(1)] show_nat_valid
    unfolding notice_head_def by (intro valid_utf8_append)
qed

lemma notice_marker_ok:
  assumes "proposal < 2 ^ 63"
  shows "length (notice_marker proposal) \<le> 84" and "valid_utf8 (notice_marker proposal)"
proof -
  have "length (show_nat proposal) \<le> 19" using assms by (auto intro!: show_nat_length)
  then show "length (notice_marker proposal) \<le> 84" using nl_valid by (simp add: notice_marker_def)
  have "valid_utf8 ''[truncated; the full result is proposal entry #''" "valid_utf8 '' in the pool log]''"
    by (auto intro!: valid_utf8_ascii simp: is_ascii_def)
  then show "valid_utf8 (notice_marker proposal)"
    using show_nat_valid nl_valid unfolding notice_marker_def by (intro valid_utf8_append)
qed

text \<open>
  The frozen notice of a pool of at most five members is valid UTF-8 of at most 4096 bytes. It
  always starts with the whole head, which names the goal, the members and the proposal. It carries the
  whole snapshot when that fits; otherwise the snapshot is cut on a character boundary, less than four
  bytes short of the bound, and the marker ends the text.
\<close>

theorem notice_bounded:
  assumes "is_ascii pool" and "length pool = 31" and "valid_utf8 goal" and "roster_ok roster"
    and "proposal < 2 ^ 63" and "revision < 2 ^ 32" and "valid_utf8 snapshot"
  shows "length (notice_text pool goal roster proposal revision snapshot) \<le> 4096
    \<and> valid_utf8 (notice_text pool goal roster proposal revision snapshot)
    \<and> prefix (notice_head pool goal roster proposal revision) (notice_text pool goal roster proposal revision snapshot)
    \<and> (if length (notice_head pool goal roster proposal revision) + length snapshot \<le> 4096
       then suffix snapshot (notice_text pool goal roster proposal revision snapshot)
       else 4092 < length (notice_text pool goal roster proposal revision snapshot)
         \<and> suffix (notice_marker proposal) (notice_text pool goal roster proposal revision snapshot))"
proof -
  define head where "head = notice_head pool goal roster proposal revision"
  define marker where "marker = notice_marker proposal"
  note h = notice_head_ok [OF assms(1-6), folded head_def] and m = notice_marker_ok [OF assms(5), folded marker_def]
  have body: "notice_text pool goal roster proposal revision snapshot =
      (if length head + length snapshot \<le> 4096 then head @ snapshot
       else head @ cut_str snapshot (4096 - (length head + length marker)) @ marker)"
    by (simp add: notice_text_def head_def marker_def NOTICE_BYTES_def Let_def)
  show ?thesis
  proof (cases "length head + length snapshot \<le> 4096")
    case True
    then show ?thesis using h assms(7) unfolding body head_def [symmetric] marker_def [symmetric]
      by (simp add: valid_utf8_append suffix_def)
  next
    case False
    let ?room = "4096 - (length head + length marker)"
    have "?room < length (cut_str snapshot ?room) + 4" using False h m by (intro cut_near assms(7)) simp
    then show ?thesis using False h m cut_length(1) [of snapshot ?room] cut_valid [OF assms(7), of ?room]
      unfolding body head_def [symmetric] marker_def [symmetric]
      by (simp add: valid_utf8_append suffix_def) linarith
  qed
qed

theorem notice_bounded_witness:
  "length (notice_text (replicate 31 CHR ''p'') ''g'' [(replicate 29 CHR ''a'', ''n'', ''r'')] 7 1 (replicate 5000 CHR ''x''))
     \<le> 4096"
proof -
  have "roster_ok [(replicate 29 CHR ''a'', ''n'', ''r'')]"
    by (auto simp: roster_ok_def is_ascii_def list_all_iff chars_ascii intro!: valid_utf8_ascii)
  moreover have "valid_utf8 (replicate 5000 CHR ''x'')" "valid_utf8 ''g''"
    by (auto intro!: valid_utf8_ascii simp: is_ascii_def list_all_iff)
  ultimately show ?thesis
    using notice_bounded [of "replicate 31 CHR ''p''" "''g''" "[(replicate 29 CHR ''a'', ''n'', ''r'')]" 7 1
        "replicate 5000 CHR ''x''"]
    by (simp add: is_ascii_def list_all_iff)
qed

end
