(* ===== verification/PoolLog.thy ===== *)
theory PoolLog
  imports PoolSettle
begin

text \<open>
  Authenticated writes to the pool log, from \<^verbatim>\<open>crates/agent-run-store/src/pool_log.rs\<close>: the membership a
  write is stamped with, the idempotent replay of a request, the budgets of messages, proposals and votes,
  the append with its event and fan-out, the operator's messages, and the settlement after a vote.
\<close>

section \<open>Model\<close>

definition CHAT_ROW_BUDGET :: nat where
  "CHAT_ROW_BUDGET = 200"

definition CHAT_BYTE_BUDGET :: nat where
  "CHAT_BYTE_BUDGET = 256 * 1024"

definition PROPOSAL_BUDGET :: nat where
  "PROPOSAL_BUDGET = 20"

definition VOTE_ROW_BUDGET :: nat where
  "VOTE_ROW_BUDGET = 8"

record membership =
  mb_seat_agent_id :: string
  mb_pool_id :: string
  mb_name :: string
  mb_role :: string
  mb_roster_revision :: nat
  mb_state :: pool_state
  mb_acceptance :: "(string \<times> string) list"

definition membership :: "db \<Rightarrow> string \<Rightarrow> membership option res" where
  "membership db rt =
     (case find (\<lambda>(m, p). p_id p = m_pool m \<and> m_agent m = rt \<and> m_replaced_by m = None)
         (List.product (members db) (pools db)) of
        None \<Rightarrow> Inr None
      | Some (m, p) \<Rightarrow>
          bindr (criteria_of (p_acceptance p)) (\<lambda>criteria.
            Inr (Some \<lparr> mb_seat_agent_id = m_agent m, mb_pool_id = p_id p, mb_name = m_name m,
              mb_role = m_role m, mb_roster_revision = p_roster_revision p, mb_state = p_state p,
              mb_acceptance = criteria \<rparr>)))"

datatype pool_write = WMessage pool_message | WProposal pool_propose | WVote pool_vote

definition vote_kind :: "vote_decision \<Rightarrow> entry_kind" where
  "vote_kind d = (if d = RevokeVote then RevokeEntry else VoteEntry)"

fun write_kind :: "pool_write \<Rightarrow> entry_kind" where
  "write_kind (WMessage _) = MessageEntry"
| "write_kind (WProposal _) = ProposalEntry"
| "write_kind (WVote v) = vote_kind (pv_decision v)"

fun write_request_id :: "pool_write \<Rightarrow> string" where
  "write_request_id (WMessage i) = pm_request_id i"
| "write_request_id (WProposal i) = pp_request_id i"
| "write_request_id (WVote i) = pv_request_id i"

fun validate_write :: "ext \<Rightarrow> pool_write \<Rightarrow> unit res" where
  "validate_write x (WMessage i) = validate_pool_message i"
| "validate_write x (WProposal i) = validate_pool_propose i"
| "validate_write x (WVote i) = validate_pool_vote (x_checks_json x) i"

fun check_status_as_str :: "check_status \<Rightarrow> string" where
  "check_status_as_str Met = ''met''"
| "check_status_as_str Unmet = ''unmet''"

definition check_doc :: "criterion_check \<Rightarrow> json" where
  "check_doc c = JObj [(''criterion_id'', JStr (cc_criterion_id c)),
     (''status'', JStr (check_status_as_str (cc_status c))), (''evidence'', JStr (cc_evidence c))]"

definition vote_decision_column :: "vote_decision \<Rightarrow> vote_decision option" where
  "vote_decision_column d = (if d = RevokeVote then None else Some d)"

definition vote_checks_column :: "criterion_check list \<Rightarrow> json option" where
  "vote_checks_column cs = (if cs = [] then None else Some (JArr (map check_doc cs)))"

definition vote_body :: "pool_vote \<Rightarrow> string" where
  "vote_body v = (case pv_message v of Some note \<Rightarrow> note | None \<Rightarrow> ''(no note)'')"

definition json_opt :: "json option \<Rightarrow> json" where
  "json_opt v = (case v of Some d \<Rightarrow> d | None \<Rightarrow> JNull)"

definition vote_shape :: "vote_decision option \<Rightarrow> nat option \<Rightarrow> json option \<Rightarrow> string \<Rightarrow> (string \<times> json) list" where
  "vote_shape decision proposal checks body =
     [(''decision'', jopt_str (map_option decision_as_str decision)),
      (''proposal_seq'', json_opt (map_option (\<lambda>n. JNum (int n)) proposal)),
      (''checks'', json_opt checks), (''body'', JStr body)]"

fun replay_shape :: "pool_write \<Rightarrow> (string \<times> json) list" where
  "replay_shape (WMessage i) = [(''body'', JStr (pm_message i))]"
| "replay_shape (WProposal i) = [(''body'', JStr (pp_message i)), (''snapshot'', JStr (pp_snapshot i))]"
| "replay_shape (WVote i) =
     vote_shape (vote_decision_column (pv_decision i)) (Some (pv_proposal_seq i))
       (vote_checks_column (pv_checks i)) (vote_body i)"

definition replay_shape_of :: "db \<Rightarrow> string \<Rightarrow> nat \<Rightarrow> (string \<times> json) list res" where
  "replay_shape_of db pool seq =
     bindr (ok_or no_rows (find (\<lambda>e. e_pool e = pool \<and> e_seq e = seq) (entries db))) (\<lambda>e.
       Inr (if e_kind e = MessageEntry then [(''body'', JStr (e_body e))]
            else if e_kind e = ProposalEntry
            then [(''body'', JStr (e_body e)), (''snapshot'', jopt_str (e_snapshot e))]
            else vote_shape (e_decision e) (e_proposal_seq e) (e_checks e) (e_body e)))"

record pool_write_receipt =
  wr_pool_id :: string
  wr_seq :: nat
  wr_duplicate :: bool

definition input_credentials :: "string \<Rightarrow> string \<Rightarrow> string \<Rightarrow> unit res" where
  "input_credentials run attempt token =
     (if attempt = [] \<or> 128 < length attempt \<or> length token \<noteq> 64 \<or> run = []
      then Inl (Validation ''invalid worker capability'') else Inr ())"

definition authenticated_member ::
    "ext \<Rightarrow> db \<Rightarrow> string \<Rightarrow> string \<Rightarrow> string \<Rightarrow> (pool_denial + membership) res" where
  "authenticated_member x db run attempt token =
     bindr (input_credentials run attempt token) (\<lambda>_.
     bindr (authenticate_attempt x db run attempt token (Finite (x_now x))) (\<lambda>auth.
       case auth of
         None \<Rightarrow> Inl (Validation ''invalid worker capability'')
       | Some a \<Rightarrow>
           if \<not> au_running a then Inl (Validation ''worker attempt is not running'')
           else bindr (membership db (au_root a)) (\<lambda>m.
             Inr (case m of Some member \<Rightarrow> Inr member | None \<Rightarrow> Inl NotPoolMember))))"

subsection \<open>Appending\<close>

record new_entry =
  ne_kind :: entry_kind
  ne_proposal :: "nat option"
  ne_decision :: "vote_decision option"
  ne_checks :: "json option"
  ne_snapshot :: "string option"
  ne_body :: string
  ne_request_id :: string

definition stamped :: "ext \<Rightarrow> membership \<Rightarrow> string \<Rightarrow> string \<Rightarrow> new_entry \<Rightarrow> entry_row" where
  "stamped x m run attempt n =
     \<lparr> e_seq = 0, e_pool = mb_pool_id m, e_author_kind = AuthorMember,
       e_author_agent = Some (mb_seat_agent_id m), e_author_name = Some (mb_name m),
       e_author_role = Some (mb_role m), e_direction = Team, e_kind = ne_kind n, e_severity = None,
       e_proposal_seq = ne_proposal n, e_roster_revision = mb_roster_revision m,
       e_decision = ne_decision n, e_snapshot = ne_snapshot n, e_checks = ne_checks n,
       e_body = ne_body n, e_delivery = None, e_sender_run = Some run, e_sender_attempt = Some attempt,
       e_idem_scope = run, e_request_id = ne_request_id n, e_created_at = x_now x \<rparr>"

definition append_entry ::
    "ext \<Rightarrow> membership \<Rightarrow> string \<Rightarrow> string \<Rightarrow> new_entry \<Rightarrow> db \<Rightarrow> (nat \<times> db) res" where
  "append_entry x m run attempt n db = insert_entry x Conflict (stamped x m run attempt n) db"

definition message_entry :: "pool_message \<Rightarrow> new_entry" where
  "message_entry i = \<lparr> ne_kind = MessageEntry, ne_proposal = None, ne_decision = None, ne_checks = None,
     ne_snapshot = None, ne_body = pm_message i, ne_request_id = pm_request_id i \<rparr>"

definition proposal_entry :: "pool_propose \<Rightarrow> new_entry" where
  "proposal_entry i = \<lparr> ne_kind = ProposalEntry, ne_proposal = None, ne_decision = None, ne_checks = None,
     ne_snapshot = Some (pp_snapshot i), ne_body = pp_message i, ne_request_id = pp_request_id i \<rparr>"

definition vote_entry :: "nat \<Rightarrow> pool_vote \<Rightarrow> new_entry" where
  "vote_entry current i = \<lparr> ne_kind = vote_kind (pv_decision i), ne_proposal = Some current,
     ne_decision = vote_decision_column (pv_decision i), ne_checks = vote_checks_column (pv_checks i),
     ne_snapshot = None, ne_body = vote_body i, ne_request_id = pv_request_id i \<rparr>"

definition chat_rows :: "db \<Rightarrow> string \<Rightarrow> entry_row list" where
  "chat_rows db pool = filter (\<lambda>e. e_kind e = MessageEntry) (pool_entries db pool)"

definition chat_bytes :: "db \<Rightarrow> string \<Rightarrow> nat" where
  "chat_bytes db pool = sum_list (map (length \<circ> e_body) (chat_rows db pool))"

definition chat_exhausted :: "db \<Rightarrow> string \<Rightarrow> string \<Rightarrow> bool" where
  "chat_exhausted db pool message \<longleftrightarrow>
     CHAT_ROW_BUDGET \<le> length (chat_rows db pool)
     \<or> CHAT_BYTE_BUDGET < chat_bytes db pool + length message"

type_synonym append_result = "(pool_denial + nat \<times> db) res"

definition append_message ::
    "ext \<Rightarrow> membership \<Rightarrow> string \<Rightarrow> string \<Rightarrow> pool_message \<Rightarrow> db \<Rightarrow> append_result" where
  "append_message x m run attempt i db =
     (if chat_exhausted db (mb_pool_id m) (pm_message i) then Inr (Inl ChatBudgetExhausted)
      else bindr (append_entry x m run attempt (message_entry i) db) (\<lambda>r. Inr (Inr r)))"

definition append_proposal ::
    "ext \<Rightarrow> membership \<Rightarrow> string \<Rightarrow> string \<Rightarrow> pool_propose \<Rightarrow> db \<Rightarrow> append_result" where
  "append_proposal x m run attempt i db =
     (if PROPOSAL_BUDGET \<le> length (filter (\<lambda>e. e_kind e = ProposalEntry) (pool_entries db (mb_pool_id m)))
      then Inr (Inl ProposalBudgetExhausted)
      else bindr (append_entry x m run attempt (proposal_entry i) db) (\<lambda>r. Inr (Inr r)))"

definition votes_spent :: "db \<Rightarrow> string \<Rightarrow> string \<Rightarrow> nat \<Rightarrow> nat" where
  "votes_spent db pool member proposal =
     length (filter (is_vote_on member proposal) (pool_entries db pool))"

definition vote_budget_exhausted :: "nat \<Rightarrow> vote_decision \<Rightarrow> bool" where
  "vote_budget_exhausted spent decision \<longleftrightarrow>
     VOTE_ROW_BUDGET \<le> spent
     \<or> (spent = VOTE_ROW_BUDGET - 1 \<and> decision \<notin> {Block, RevokeVote})"

definition append_vote ::
    "ext \<Rightarrow> membership \<Rightarrow> string \<Rightarrow> string \<Rightarrow> pool_vote \<Rightarrow> db \<Rightarrow> append_result" where
  "append_vote x m run attempt i db =
     (case current_proposal db (mb_pool_id m) of
        None \<Rightarrow> Inr (Inl (StaleProposal None))
      | Some (current, _, _) \<Rightarrow>
          if pv_proposal_seq i \<noteq> current then Inr (Inl (StaleProposal (Some current)))
          else if pv_decision i = Ready
            \<and> sort (map fst (mb_acceptance m)) \<noteq> sort (map cc_criterion_id (pv_checks i))
          then Inr (Inl MalformedChecks)
          else if vote_budget_exhausted
              (votes_spent db (mb_pool_id m) (mb_seat_agent_id m) current) (pv_decision i)
          then Inr (Inl VoteBudgetExhausted)
          else if pv_checks i \<noteq> [] \<and> x_checks_json x (pv_checks i) = None
          then Inl (Json ''checks'')
          else bindr (append_entry x m run attempt (vote_entry current i) db) (\<lambda>r. Inr (Inr r)))"

subsection \<open>Writes\<close>

datatype write_outcome = Denied pool_denial | Replayed pool_write_receipt | Appended string nat

definition prior_entry :: "db \<Rightarrow> string \<Rightarrow> string \<Rightarrow> string \<Rightarrow> entry_row option" where
  "prior_entry db pool scope request =
     find (\<lambda>e. e_pool e = pool \<and> e_idem_scope e = scope \<and> e_request_id e = request) (entries db)"

definition replay_write ::
    "ext \<Rightarrow> membership \<Rightarrow> nat \<Rightarrow> pool_write \<Rightarrow> db \<Rightarrow> error + (write_outcome \<times> db)" where
  "replay_write x m seq write db =
     bindr (replay_shape_of db (mb_pool_id m) seq) (\<lambda>shape.
       if shape = replay_shape write
       then bindr (parse_pool x (mb_pool_id m)) (\<lambda>pool.
         Inr (Replayed \<lparr> wr_pool_id = pool, wr_seq = seq, wr_duplicate = True \<rparr>, db))
       else Inr (Denied DenialConflict, db))"

fun ack_request :: "pool_write \<Rightarrow> string option" where
  "ack_request (WMessage i) = Some (pm_request_id i)"
| "ack_request _ = None"

fun append_write ::
    "ext \<Rightarrow> membership \<Rightarrow> string \<Rightarrow> string \<Rightarrow> bool \<Rightarrow> pool_write \<Rightarrow> db \<Rightarrow> append_result" where
  "append_write x m run attempt ack (WMessage i) db =
     (if ack then bindr (append_entry x m run attempt (message_entry i) db) (\<lambda>r. Inr (Inr r))
      else append_message x m run attempt i db)"
| "append_write x m run attempt ack (WProposal i) db = append_proposal x m run attempt i db"
| "append_write x m run attempt ack (WVote i) db = append_vote x m run attempt i db"

definition finish_write ::
    "ext \<Rightarrow> membership \<Rightarrow> string \<Rightarrow> bool \<Rightarrow> pool_write \<Rightarrow> nat \<Rightarrow> db \<Rightarrow> error + (write_outcome \<times> db)" where
  "finish_write x m run ack write seq db =
     bindr (if ack then acknowledge x (mb_seat_agent_id m) seq db else Inr db) (\<lambda>db1.
     let db2 = snd (tx_event x db1 run ''pool_entry_appended'' None None
           (JObj [(''seq'', JNum (int seq)), (''kind'', JStr (entry_kind_as_str (write_kind write)))])) in
     bindr (fanout_entry x (mb_pool_id m) (mb_seat_agent_id m) seq db2) (\<lambda>db3.
       Inr (Appended (mb_pool_id m) seq, db3)))"

definition new_write ::
    "ext \<Rightarrow> membership \<Rightarrow> string \<Rightarrow> string \<Rightarrow> pool_write \<Rightarrow> db \<Rightarrow> error + (write_outcome \<times> db)" where
  "new_write x m run attempt write db =
     (if mb_state m = CompletedPool then Inr (Denied PoolCompleted, db)
      else
      bindr (validate_write x write) (\<lambda>_.
      bindr (bindr (parse_agent x (mb_seat_agent_id m)) (\<lambda>seat.
          ack_allowed db seat run attempt (ack_request write))) (\<lambda>ack.
      bindr (append_write x m run attempt ack write db) (\<lambda>r.
        case r of
          Inl denial \<Rightarrow> Inr (Denied denial, db)
        | Inr (seq, db1) \<Rightarrow> finish_write x m run ack write seq db1))))"

definition pool_write_tx ::
    "ext \<Rightarrow> string \<Rightarrow> string \<Rightarrow> string \<Rightarrow> pool_write \<Rightarrow> db \<Rightarrow> error + (write_outcome \<times> db)" where
  "pool_write_tx x run attempt token write db =
     bindr (authenticated_member x db run attempt token) (\<lambda>r.
       case r of
         Inl denial \<Rightarrow> Inr (Denied denial, db)
       | Inr m \<Rightarrow>
           bindr (bindr (parse_agent x (mb_seat_agent_id m)) (\<lambda>seat.
               validate_ack_replay db seat run attempt (write_request_id write)
                 (write_kind write = MessageEntry))) (\<lambda>_.
           case prior_entry db (mb_pool_id m) run (write_request_id write) of
             Some e \<Rightarrow> replay_write x m (e_seq e) write db
           | None \<Rightarrow> new_write x m run attempt write db))"

text \<open>After the commit a vote settles its pool; a failure of that is ignored.\<close>

definition after_append ::
    "ext \<Rightarrow> pool_write \<Rightarrow> string \<Rightarrow> nat \<Rightarrow> db \<Rightarrow> (pool_denial + pool_write_receipt) res \<times> db" where
  "after_append x write pool seq db =
     (case parse_pool x pool of
        Inl e \<Rightarrow> (Inl e, db)
      | Inr pool \<Rightarrow>
          (Inr (Inr \<lparr> wr_pool_id = pool, wr_seq = seq, wr_duplicate = False \<rparr>),
           case write of WVote _ \<Rightarrow> snd (settle_pool x pool db) | _ \<Rightarrow> db))"

definition pool_write ::
    "ext \<Rightarrow> string \<Rightarrow> string \<Rightarrow> string \<Rightarrow> pool_write \<Rightarrow> db \<Rightarrow> (pool_denial + pool_write_receipt) res \<times> db" where
  "pool_write x run attempt token write db =
     (case commit db (pool_write_tx x run attempt token write db) of
        (Inl e, db1) \<Rightarrow> (Inl e, db1)
      | (Inr (Denied d), db1) \<Rightarrow> (Inr (Inl d), db1)
      | (Inr (Replayed r), db1) \<Rightarrow> (Inr (Inr r), db1)
      | (Inr (Appended pool seq), db1) \<Rightarrow> after_append x write pool seq db1)"

subsection \<open>Operator messages\<close>

definition operator_entry :: "ext \<Rightarrow> pool_row \<Rightarrow> string \<Rightarrow> string \<Rightarrow> entry_row" where
  "operator_entry x p request message =
     \<lparr> e_seq = 0, e_pool = p_id p, e_author_kind = AuthorOperator, e_author_agent = None,
       e_author_name = None, e_author_role = None, e_direction = Team, e_kind = MessageEntry,
       e_severity = None, e_proposal_seq = None, e_roster_revision = p_roster_revision p,
       e_decision = None, e_snapshot = None, e_checks = None, e_body = message, e_delivery = None,
       e_sender_run = None, e_sender_attempt = None, e_idem_scope = ''op'', e_request_id = request,
       e_created_at = x_now x \<rparr>"

definition operator_replay ::
    "string \<Rightarrow> nat \<Rightarrow> string \<Rightarrow> db \<Rightarrow> error + ((pool_denial + pool_write_receipt) \<times> db)" where
  "operator_replay pool seq message db =
     bindr (replay_shape_of db pool seq) (\<lambda>shape.
       Inr (if shape = [(''body'', JStr message)]
            then Inr \<lparr> wr_pool_id = pool, wr_seq = seq, wr_duplicate = True \<rparr>
            else Inl DenialConflict, db))"

definition pool_operator_post_tx ::
    "ext \<Rightarrow> string \<Rightarrow> string \<Rightarrow> string \<Rightarrow> db \<Rightarrow> error + ((pool_denial + pool_write_receipt) \<times> db)" where
  "pool_operator_post_tx x pool request message db =
     (case pool_by_id db pool of
        None \<Rightarrow> Inr (Inl PoolNotFound, db)
      | Some p \<Rightarrow>
          (case prior_entry db pool ''op'' request of
             Some e \<Rightarrow> operator_replay pool (e_seq e) message db
           | None \<Rightarrow>
               if p_state p = CompletedPool then Inr (Inl PoolCompleted, db)
               else if chat_exhausted db pool message then Inr (Inl ChatBudgetExhausted, db)
               else
               bindr (insert_entry x constraint_failed (operator_entry x p request message) db) (\<lambda>(seq, db1).
               bindr (fanout_entry x pool [] seq db1) (\<lambda>db2.
                 Inr (Inr \<lparr> wr_pool_id = pool, wr_seq = seq, wr_duplicate = False \<rparr>, db2)))))"

definition pool_operator_post ::
    "ext \<Rightarrow> string \<Rightarrow> string \<Rightarrow> string \<Rightarrow> db \<Rightarrow> (pool_denial + pool_write_receipt) res \<times> db" where
  "pool_operator_post x pool request message db =
     commit db (pool_operator_post_tx x pool request message db)"

definition pool_has_entries_after ::
    "ext \<Rightarrow> db \<Rightarrow> string \<Rightarrow> string \<Rightarrow> string \<Rightarrow> nat \<Rightarrow> (pool_denial + bool) res" where
  "pool_has_entries_after x db run attempt token after_seq =
     bindr (authenticated_member x db run attempt token) (\<lambda>r.
       Inr (case r of
              Inl _ \<Rightarrow> Inl NotPoolMemberRead
            | Inr m \<Rightarrow> Inr (list_ex (\<lambda>e. e_pool e = mb_pool_id m \<and> after_seq < e_seq e) (entries db))))"

definition pool_exists :: "db \<Rightarrow> string \<Rightarrow> bool" where
  "pool_exists db pool = list_ex (\<lambda>p. p_id p = pool) (pools db)"

end
