(* ===== verification/PoolCompletion.thy ===== *)
theory PoolCompletion
  imports PoolSettle "HOL-Library.Multiset"
begin

text \<open>
  What a completion promises: an abstract specification of a finished team, the proof that settlement
  implements it, and that a completion happens once and stays frozen.
\<close>

section \<open>Specification\<close>

definition criterion_ids :: "json list \<Rightarrow> string list" where
  "criterion_ids items = List.map_filter (\<lambda>c. as_str (jfield ''criterion_id'' c)) items"

definition ready_vote :: "(string \<times> string) list \<Rightarrow> string \<Rightarrow> entry_row \<Rightarrow> bool" where
  "ready_vote criteria tip e \<longleftrightarrow>
     e_kind e = VoteEntry \<and> e_decision e = Some Ready \<and> e_sender_run e = Some tip
     \<and> (\<exists>items. e_checks e = Some (JArr items) \<and> all_met items
          \<and> mset (criterion_ids items) = mset (map fst criteria))"

definition seat_done :: "db \<Rightarrow> string \<Rightarrow> (string \<times> string) list \<Rightarrow> nat \<Rightarrow> string \<Rightarrow> bool" where
  "seat_done db pool criteria proposal member \<longleftrightarrow>
     (\<forall>j. enrollment_of db member = Some j \<longrightarrow> j_state j = EnrollJoined)
     \<and> (\<exists>tip e. tip_row db member = Some tip \<and> \<not> is_restart_stop db (a_id tip)
          \<and> agent_status db (a_id tip) = Inr Succeeded
          \<and> latest_vote_row db pool member proposal = Some e \<and> ready_vote criteria (a_id tip) e)
     \<and> (\<forall>t \<in> set (attempts db). t_agent t \<in> a_id ` set (lineage db member) \<longrightarrow> \<not> attempt_uncleaned t)"

definition team_done :: "db \<Rightarrow> pool_row \<Rightarrow> bool" where
  "team_done db p \<longleftrightarrow>
     (\<exists>proposal snapshot criteria.
        current_proposal db (p_id p) = Some (proposal, snapshot, p_roster_revision p)
        \<and> criteria_of (p_acceptance p) = Inr criteria
        \<and> 2 \<le> length (current_seats db (p_id p))
        \<and> (\<forall>m \<in> set (current_seats db (p_id p)). seat_done db (p_id p) criteria proposal (m_agent m)))"

text \<open>The identifiers of the seats and of their latest executions are well formed.\<close>

definition seat_ids_ok :: "ext \<Rightarrow> db \<Rightarrow> string \<Rightarrow> bool" where
  "seat_ids_ok x db pool \<longleftrightarrow>
     (\<forall>m \<in> set (current_seats db pool). parse_agent x (m_agent m) = Inr (m_agent m)
        \<and> (\<forall>tip. tip_row db (m_agent m) = Some tip \<longrightarrow> parse_agent x (a_id tip) = Inr (a_id tip)))"

section \<open>Evaluation implements the specification\<close>

lemma parse_agent_same: "parse_agent x s = Inr t \<Longrightarrow> t = s"
  by (auto simp: parse_agent_def agent_id_from_str_def split: if_splits)

lemma checks_exact_iff:
  "checks_exact criteria checks \<longleftrightarrow>
     (\<exists>items. checks = Some (JArr items) \<and> all_met items
        \<and> mset (criterion_ids items) = mset (map fst criteria))"
proof -
  have s: "sort a = sort b \<longleftrightarrow> mset a = mset b" for a b :: "string list"
    by (metis mset_sort properties_for_sort sorted_sort)
  show ?thesis
  proof (cases checks)
    case (Some j)
    then show ?thesis
      by (cases j) (simp_all add: checks_exact_def checks_items_def s criterion_ids_def conj_commute)
  qed (simp add: checks_exact_def checks_items_def)
qed

lemma latest_vote_shape:
  assumes "log_wf db" and "latest_vote_row db pool member proposal = Some e"
  shows "e_kind e \<in> {VoteEntry, RevokeEntry}" and "e_sender_run e \<noteq> None"
    and "e_kind e = VoteEntry \<longleftrightarrow> e_decision e \<noteq> None" and "e_decision e \<in> {None, Some Ready, Some Block}"
proof -
  from assms(2) have "e \<in> set (entries db)" and v: "is_vote_on member proposal e"
    by (auto simp: latest_vote_row_def pool_entries_def dest!: max_row_in)
  then have sh: "entry_shape e" using assms(1) by (simp add: log_wf_def)
  show "e_kind e \<in> {VoteEntry, RevokeEntry}" using v by (simp add: is_vote_on_def)
  have "e_author_agent e \<noteq> None" using v by (simp add: is_vote_on_def)
  with sh [unfolded entry_shape_def, THEN conjunct1] show "e_sender_run e \<noteq> None"
    by (cases "e_author_kind e = AuthorMember") simp_all
  show "e_kind e = VoteEntry \<longleftrightarrow> e_decision e \<noteq> None"
    using sh unfolding entry_shape_def by (elim conjE)
  show "e_decision e \<in> {None, Some Ready, Some Block}"
    using sh unfolding entry_shape_def by (elim conjE)
qed

lemma vote_ready_iff:
  assumes "log_wf db" and "latest_vote_row db pool member proposal = Some e"
  shows "snd (vote_validity (latest_vote db pool member proposal) rv rv tip Succeeded) = ''valid''
      \<and> checks_exact criteria (Option.bind (latest_vote db pool member proposal) vv_checks)
    \<longleftrightarrow> ready_vote criteria tip e"
  using latest_vote_shape [OF assms] assms(2)
  by (auto simp: vote_validity_valid latest_vote_def ready_vote_def checks_exact_iff checks_items_def)

lemma latest_vote_None: "latest_vote_row db pool member proposal = None \<Longrightarrow> latest_vote db pool member proposal = None"
  by (simp add: latest_vote_def)

lemma lineage_cleanup_iff:
  "lineage_cleanup_complete db rt \<longleftrightarrow>
     (\<forall>t \<in> set (attempts db). t_agent t \<in> a_id ` set (lineage db rt) \<longrightarrow> \<not> attempt_uncleaned t)"
  by (auto simp: lineage_cleanup_complete_def filter_empty_conv)

lemma evaluate_seat_done:
  assumes "log_wf db" and "evaluate_seat x pool criteria rv proposal rv m db = Inr (Some sp)"
  shows "seat_done db pool criteria proposal (m_agent m)"
    and "sp_roster sp = (m_agent m, m_name m, m_role m)"
    and "\<exists>tip. tip_row db (m_agent m) = Some tip \<and> sp_anchor sp = a_id tip
      \<and> parse_agent x (a_id tip) = Inr (a_id tip)"
proof -
  let ?v = "latest_vote db pool (m_agent m) proposal"
  from assms(2) obtain rt tip st where p: "parse_agent x (m_agent m) = Inr rt"
    and en: "\<not> (case enrollment_of db rt of Some j \<Rightarrow> j_state j \<noteq> EnrollJoined | None \<Rightarrow> False)"
    and tip: "tip_of x db rt = Inr tip" and stop: "\<not> is_restart_stop db tip"
    and st: "agent_status db tip = Inr st" "st = Succeeded"
    and v: "snd (vote_validity ?v rv rv tip st) = ''valid''" "checks_exact criteria (Option.bind ?v vv_checks)"
    and clean: "lineage_cleanup_complete db rt"
    and ev: "seat_evidence pool proposal m tip st (Option.bind ?v vv_checks) db = Inr sp"
    by (auto simp: evaluate_seat_def Let_def split: if_split_asm)
  have rt: "rt = m_agent m" using parse_agent_same [OF p] .
  from tip obtain row where row: "tip_row db (m_agent m) = Some row" "parse_agent x (a_id row) = Inr tip"
    by (auto simp: tip_of_def rt)
  have tip_id: "tip = a_id row" using parse_agent_same [OF row(2)] .
  from ev obtain e where e: "latest_vote_row db pool (m_agent m) proposal = Some e"
    and sp: "sp_roster sp = (m_agent m, m_name m, m_role m)" "sp_anchor sp = tip"
    by (auto simp: seat_evidence_def)
  have "ready_vote criteria tip e" using vote_ready_iff [OF assms(1) e] v st(2) by blast
  moreover have "\<forall>j. enrollment_of db (m_agent m) = Some j \<longrightarrow> j_state j = EnrollJoined" using en rt by auto
  ultimately show "seat_done db pool criteria proposal (m_agent m)"
    unfolding seat_done_def using row(1) stop st e tip_id clean rt by (auto simp: lineage_cleanup_iff)
  show "sp_roster sp = (m_agent m, m_name m, m_role m)" by (rule sp(1))
  show "\<exists>tip. tip_row db (m_agent m) = Some tip \<and> sp_anchor sp = a_id tip
      \<and> parse_agent x (a_id tip) = Inr (a_id tip)"
    using row sp(2) tip_id by simp
qed

lemma evaluate_seat_ready:
  assumes "log_wf db" and "seat_done db pool criteria proposal (m_agent m)"
    and "parse_agent x (m_agent m) = Inr (m_agent m)"
    and "\<forall>tip. tip_row db (m_agent m) = Some tip \<longrightarrow> parse_agent x (a_id tip) = Inr (a_id tip)"
  shows "\<exists>sp. evaluate_seat x pool criteria rv proposal rv m db = Inr (Some sp)"
proof -
  from assms(2) obtain tip e where en: "\<forall>j. enrollment_of db (m_agent m) = Some j \<longrightarrow> j_state j = EnrollJoined"
    and tip: "tip_row db (m_agent m) = Some tip" "\<not> is_restart_stop db (a_id tip)"
    and st: "agent_status db (a_id tip) = Inr Succeeded"
    and e: "latest_vote_row db pool (m_agent m) proposal = Some e" "ready_vote criteria (a_id tip) e"
    and clean: "lineage_cleanup_complete db (m_agent m)"
    unfolding seat_done_def lineage_cleanup_iff [symmetric] by blast
  have "\<not> (case enrollment_of db (m_agent m) of Some j \<Rightarrow> j_state j \<noteq> EnrollJoined | None \<Rightarrow> False)"
    using en by (simp split: option.split)
  moreover have "tip_of x db (m_agent m) = Inr (a_id tip)" using tip(1) assms(4) by (simp add: tip_of_def)
  moreover note vote_ready_iff [OF assms(1) e(1), THEN iffD2, OF e(2)]
  ultimately show ?thesis using assms(3) tip(2) st e(1) clean
    unfolding evaluate_seat_def seat_evidence_def by simp
qed

lemma evaluate_seats_iff:
  "(\<exists>ps. evaluate_seats x pool criteria rv proposal prv ms db = Inr (Some ps)) \<longleftrightarrow>
     (\<forall>m \<in> set ms. \<exists>sp. evaluate_seat x pool criteria rv proposal prv m db = Inr (Some sp))"
proof (induction ms)
  case (Cons m ms)
  show ?case
  proof (cases "\<exists>sp. evaluate_seat x pool criteria rv proposal prv m db = Inr (Some sp)")
    case True
    then obtain sp where sp: "evaluate_seat x pool criteria rv proposal prv m db = Inr (Some sp)" by blast
    have "(\<exists>ps. evaluate_seats x pool criteria rv proposal prv (m # ms) db = Inr (Some ps)) \<longleftrightarrow>
        (\<exists>ps. evaluate_seats x pool criteria rv proposal prv ms db = Inr (Some ps))"
      using sp by auto
    then show ?thesis using Cons.IH sp by simp
  next
    case False
    then have "\<nexists>ps. evaluate_seats x pool criteria rv proposal prv (m # ms) db = Inr (Some ps)"
      by (cases "evaluate_seat x pool criteria rv proposal prv m db") (auto split: option.splits)
    with False show ?thesis by auto
  qed
qed simp

lemma evaluate_seats_hd:
  assumes "evaluate_seats x pool criteria rv proposal prv (m # ms) db = Inr (Some ps)"
  shows "evaluate_seat x pool criteria rv proposal prv m db = Inr (Some (hd ps))"
  using assms by (auto split: option.splits)

lemma pool_by_id_id: "pool_by_id db pool = Some p \<Longrightarrow> p_id p = pool"
  by (auto simp: pool_by_id_def dest: find_Some_in)

lemma seats_by_slot_set [simp]: "set (seats_by_slot db pool) = set (current_seats db pool)"
  "length (seats_by_slot db pool) = length (current_seats db pool)"
  by (simp_all add: seats_by_slot_def)

lemma evaluate_open_done:
  assumes "log_wf db" and "evaluate_open x db p = Inr (IsReady r)"
  shows "team_done db p"
proof -
  from assms(2) obtain proposal snapshot criteria ps where
    cur: "current_proposal db (p_id p) = Some (proposal, snapshot, p_roster_revision p)"
    and cr: "criteria_of (p_acceptance p) = Inr criteria" and two: "2 \<le> length (current_seats db (p_id p))"
    and ps: "evaluate_seats x (p_id p) criteria (p_roster_revision p) proposal (p_roster_revision p)
        (seats_by_slot db (p_id p)) db = Inr (Some ps)"
    unfolding evaluate_open_def by (auto simp: Let_def split: option.splits if_split_asm)
  have "seat_done db (p_id p) criteria proposal (m_agent m)" if "m \<in> set (current_seats db (p_id p))" for m
    using evaluate_seats_iff [THEN iffD1, OF exI, OF ps] that evaluate_seat_done(1) [OF assms(1)]
    by (metis seats_by_slot_set(1))
  with cur cr two show ?thesis unfolding team_done_def by blast
qed

lemma evaluate_open_ready:
  assumes "log_wf db" and "team_done db p" and "seat_ids_ok x db (p_id p)"
  shows "\<exists>r. evaluate_open x db p = Inr (IsReady r)"
proof -
  from assms(2) obtain proposal snapshot criteria where
    cur: "current_proposal db (p_id p) = Some (proposal, snapshot, p_roster_revision p)"
    and cr: "criteria_of (p_acceptance p) = Inr criteria" and two: "2 \<le> length (current_seats db (p_id p))"
    and fin: "\<forall>m \<in> set (current_seats db (p_id p)). seat_done db (p_id p) criteria proposal (m_agent m)"
    unfolding team_done_def by blast
  let ?eval = "\<lambda>ms. evaluate_seats x (p_id p) criteria (p_roster_revision p) proposal (p_roster_revision p) ms db"
  have "\<forall>m \<in> set (seats_by_slot db (p_id p)). \<exists>sp. evaluate_seat x (p_id p) criteria (p_roster_revision p)
      proposal (p_roster_revision p) m db = Inr (Some sp)"
    using fin assms(3) evaluate_seat_ready [OF assms(1)] by (simp add: seat_ids_ok_def)
  then obtain ps where ps: "?eval (seats_by_slot db (p_id p)) = Inr (Some ps)"
    using evaluate_seats_iff by blast
  obtain m ms where seats: "seats_by_slot db (p_id p) = m # ms"
    using two by (metis list.size(3) neq_Nil_conv not_numeral_le_zero seats_by_slot_set(2))
  obtain tip :: agent_row where "sp_anchor (hd ps) = a_id tip" "parse_agent x (a_id tip) = Inr (a_id tip)"
    using evaluate_seat_done(3) [OF assms(1) evaluate_seats_hd [OF ps [unfolded seats]]] by blast
  then show ?thesis using cur cr two ps unfolding evaluate_open_def by (simp add: Let_def ready_of_def)
qed

section \<open>Reconciliation keeps the specification\<close>

lemma reconcile_facts: "reconcile_pool_enrollments x pool db = (r, db') \<Longrightarrow> same_facts db db'"
proof -
  have all: "reconcile_all x pool cs db = Inr db' \<Longrightarrow> same_facts db db'" for cs db db'
  proof (induction cs arbitrary: db)
    case (Cons c cs)
    then obtain db1 where "reconcile_change x pool (fst c, snd c) db = Inr db1"
      "reconcile_all x pool cs db1 = Inr db'" by auto
    with Cons.IH reconcile_change_Inr(1) same_facts_trans show ?case by blast
  qed simp
  assume h: "reconcile_pool_enrollments x pool db = (r, db')"
  have "reconcile_pool_enrollments x pool db =
      (case enrollment_changes x db pool of
         Inl e \<Rightarrow> (Inl e, db)
       | Inr cs \<Rightarrow> commit db (bindr (reconcile_all x pool cs db) (\<lambda>db'. Inr ((), db'))))"
    by (simp add: reconcile_pool_enrollments_def split: sum.split list.split)
  with h show ?thesis
    by (auto simp: commit_def bindr_def dest: all split: sum.splits)
qed

lemma enrollment_pin: "map_option pin (enrollment_of db u) = find (\<lambda>q. fst q = u) (map pin (enrollments db))"
proof -
  have "map_option pin (find (\<lambda>j. j_agent j = u) js) = find (\<lambda>q. fst q = u) (map pin js)" for js
    by (induction js) (simp_all add: pin_def)
  then show ?thesis unfolding enrollment_of_def .
qed

lemma joined_same_facts:
  assumes "same_facts db db'"
  shows "(\<forall>j. enrollment_of db' u = Some j \<longrightarrow> j_state j = EnrollJoined) \<longleftrightarrow>
    (\<forall>j. enrollment_of db u = Some j \<longrightarrow> j_state j = EnrollJoined)"
proof -
  have "map_option pin (enrollment_of db' u) = map_option pin (enrollment_of db u)"
    using assms by (simp add: enrollment_pin same_facts_def)
  then show ?thesis by (cases "enrollment_of db u"; cases "enrollment_of db' u") (simp_all add: pin_def)
qed

lemma team_done_same_facts:
  assumes "same_facts db db'"
  shows "team_done db' p = team_done db p"
proof -
  have t: "agents db' = agents db" "attempts db' = attempts db" "members db' = members db"
    "entries db' = entries db" "is_restart_stop db' = is_restart_stop db"
    using assms by (simp_all add: same_facts_def)
  have seat: "seat_done db' = seat_done db"
    by (intro ext) (simp only: seat_done_def joined_same_facts [OF assms] tip_row_def lineage_def t
        agent_status_def agent_by_id_def latest_vote_row_def pool_entries_def)
  have seats: "current_seats db' = current_seats db" by (intro ext) (simp only: current_seats_def t)
  have cur: "current_proposal db' = current_proposal db"
    by (intro ext) (simp only: current_proposal_def pool_entries_def t)
  show ?thesis unfolding team_done_def seat seats cur by (rule refl)
qed

lemma team_done_joined:
  assumes "team_done db p" and "distinct (map j_agent (enrollments db))" and "enrollments db' = enrollments db"
    and "members db' = members db"
  shows "open_enrollments db' (p_id p) = []"
proof -
  have "j_state j = EnrollJoined"
    if "j \<in> set (enrollments db)" "m \<in> set (members db)" "m_agent m = j_agent j" "m_pool m = p_id p"
      "m_replaced_by m = None" for j m
  proof -
    have "m \<in> set (current_seats db (p_id p))" using that by (simp add: current_seats_def)
    with assms(1) have "\<forall>k. enrollment_of db (m_agent m) = Some k \<longrightarrow> j_state k = EnrollJoined"
      unfolding team_done_def seat_done_def by blast
    with enrollment_of_member [OF assms(2) that(1)] that(3) show ?thesis by simp
  qed
  then show ?thesis unfolding open_enrollments_def assms(3,4) by (auto simp: filter_empty_conv)
qed

lemma reconcile_nothing: "open_enrollments db pool = [] \<Longrightarrow> reconcile_pool_enrollments x pool db = (Inr (), db)"
  by (simp add: reconcile_pool_enrollments_def enrollment_changes_def)

section \<open>Completion\<close>

lemma write_completion_Inr:
  assumes "write_completion x pool r db = Inr (c, db')"
  obtains d v n where
    "c = Some \<lparr> pc_pool_id = pool, pc_delivery_id = d_id d, pc_bound = (rd_session r \<noteq> None), pc_created = True \<rparr>"
    "db' = db\<lparr> events := events db @ [v], event_seq := n, deliveries := deliveries db @ [d],
       pools := map (complete_pool pool (x_now x) (d_id d)) (pools db) \<rparr>"
    "v_kind v = ''pool_completed''" "v_data v = completion_data pool r"
proof -
  let ?v = "\<lparr> v_seq = Suc (event_seq db), v_agent = rd_anchor r, v_attempt = owned_attempt db (rd_anchor r),
    v_at = x_now x, v_kind = ''pool_completed'', v_from = None, v_to = None, v_data = completion_data pool r \<rparr>"
  let ?db1 = "db\<lparr> events := events db @ [?v], event_seq := Suc (event_seq db) \<rparr>"
  let ?d = "new_delivery (notification_id x ?db1) (rd_anchor r) (rd_session r) (Suc (event_seq db))
    (if rd_session r \<noteq> None then ''pending'' else ''waiting_binding'')
    (if rd_session r \<noteq> None then Some (x_now x) else None)"
  have "d_id ?d = notification_id x ?db1" by (simp only: new_delivery_def delivery_row.select_convs)
  with assms show thesis
    by (intro that [where d = ?d and v = ?v and n = "Suc (event_seq db)"])
      (simp_all add: write_completion_def tx_event_def insert_event_def insert_delivery_def Let_def
        split: if_split_asm)
qed

lemma write_completion_ok:
  assumes "x_json_len x (completion_data pool r) \<le> EVENT_BYTES"
    and "distinct (map p_id (pools db))" and "pool_by_id db pool = Some p" and "p_state p = OpenPool"
  shows "\<exists>c db'. write_completion x pool r db = Inr (Some c, db') \<and> pc_created c"
proof -
  have "filter (\<lambda>q. p_id q = pool \<and> p_state q = OpenPool) qs = [p]"
    if "distinct (map p_id qs)" "find (\<lambda>q. p_id q = pool) qs = Some p" for qs
    using that assms(4)
  proof (induction qs)
    case (Cons q qs)
    show ?case
    proof (cases "p_id q = pool")
      case True
      then have "\<forall>q' \<in> set qs. p_id q' \<noteq> pool"
        using Cons.prems(1) by (metis distinct.simps(2) image_eqI list.set_map list.simps(9))
      then have "filter (\<lambda>q. p_id q = pool \<and> p_state q = OpenPool) qs = []" by simp
      with True Cons.prems show ?thesis by simp
    qed (use Cons in simp)
  qed simp
  then have "length (filter (\<lambda>q. p_id q = pool \<and> p_state q = OpenPool) (pools db)) = 1"
    using assms(2,3) by (simp add: pool_by_id_def)
  with assms(1) show ?thesis
    by (simp add: write_completion_def tx_event_def insert_event_def insert_delivery_def Let_def not_less)
qed

lemma evaluate_open_cases:
  assumes "evaluate_open x db p = Inr ev"
  shows "ev = NotReady \<or> (\<exists>r. ev = IsReady r \<and> rd_session r = p_session p)"
  using assms unfolding evaluate_open_def ready_of_def
  by (auto simp: Let_def split: option.splits if_split_asm)

lemma evaluate_cases:
  assumes "evaluate x db pool = Inr ev"
  obtains (missing) "ev = Missing"
    | (frozen) c where "ev = Completed c" "\<not> pc_created c"
    | (not_ready) "ev = NotReady"
    | (ready) p r where "pool_by_id db pool = Some p" "p_state p = OpenPool" "ev = IsReady r"
        "evaluate_open x db p = Inr (IsReady r)" "rd_session r = p_session p"
proof (cases "pool_by_id db pool")
  case None
  with assms missing show thesis by (simp add: evaluate_def)
next
  case (Some p)
  show thesis
  proof (cases "p_state p")
    case OpenPool
    with assms Some have "evaluate_open x db p = Inr ev" by (simp add: evaluate_def)
    with evaluate_open_cases [OF this] Some OpenPool not_ready ready show thesis by blast
  next
    case CompletedPool
    with assms Some have "ev = (case p_completion_delivery p of
        Some d \<Rightarrow> Completed \<lparr> pc_pool_id = pool, pc_delivery_id = d, pc_bound = (p_session p \<noteq> None),
                    pc_created = False \<rparr>
      | None \<Rightarrow> NotReady)"
      by (simp add: evaluate_def)
    with frozen not_ready show thesis by (cases "p_completion_delivery p") simp_all
  qed
qed

lemma settle_created:
  assumes "log_wf db" and "distinct (map j_agent (enrollments db))"
    and "settle_pool x pool db = (Inr (Some c), db')" and "pc_created c"
  obtains p r where "pool_by_id db pool = Some p" "p_state p = OpenPool" "team_done db p"
    "evaluate x db pool = Inr (IsReady r)" "write_completion x pool r db = Inr (Some c, db')"
proof -
  obtain u db1 where rec: "reconcile_pool_enrollments x pool db = (u, db1)" by fastforce
  note facts = reconcile_facts [OF rec]
  have u: "\<exists>ev. u = Inr () \<and> evaluate x db1 pool = Inr ev"
    using assms(3) rec by (auto simp: settle_pool_def split: sum.splits)
  then obtain ev where ev0: "u = Inr ()" "evaluate x db1 pool = Inr ev" by blast
  from ev0(2) obtain p r where p: "pool_by_id db1 pool = Some p" "p_state p = OpenPool"
    and ev: "evaluate x db1 pool = Inr (IsReady r)" and op: "evaluate_open x db1 p = Inr (IsReady r)"
    by (rule evaluate_cases) (use assms(3,4) rec ev0 in \<open>auto simp: settle_pool_def\<close>)
  have tx: "settle_in_tx x pool db1 = Inr (Some c, db')"
    using assms(3) rec ev0(1) ev by (auto simp: settle_pool_def commit_def split: sum.splits prod.splits)
  have wf1: "log_wf db1" using assms(1) facts log_wf_cong [of db1 db] by (simp add: same_facts_def)
  have "team_done db1 p" using evaluate_open_done [OF wf1 op] .
  then have td: "team_done db p" using team_done_same_facts [OF facts] by simp
  have "db1 = db" using reconcile_nothing [OF team_done_joined [OF td assms(2) refl refl]] rec
    pool_by_id_id [OF p(1)] by simp
  with p td ev tx that show thesis by (auto simp: settle_in_tx_def)
qed

lemma team_done_ready:
  assumes "log_wf db" and "distinct (map j_agent (enrollments db))" and "distinct (map p_id (pools db))"
    and "pool_by_id db pool = Some p" and "p_state p = OpenPool" and "seat_ids_ok x db pool" and td: "team_done db p"
  obtains r where "evaluate x db pool = Inr (IsReady r)" "settle_pool x pool db = commit db (write_completion x pool r db)"
proof -
  note p = pool_by_id_id [OF assms(4)]
  have rec: "reconcile_pool_enrollments x pool db = (Inr (), db)"
    using reconcile_nothing team_done_joined [OF td assms(2) refl refl] p by simp
  obtain r where "evaluate_open x db p = Inr (IsReady r)"
    using evaluate_open_ready [OF assms(1) td] assms(6) p by blast
  then have ev: "evaluate x db pool = Inr (IsReady r)" using assms(4,5) by (simp add: evaluate_def)
  have "settle_pool x pool db = commit db (write_completion x pool r db)"
    by (simp add: settle_pool_def rec ev settle_in_tx_def)
  with ev that show thesis by blast
qed

lemma team_done_settles:
  assumes "log_wf db" and "distinct (map j_agent (enrollments db))" and "distinct (map p_id (pools db))"
    and "pool_by_id db pool = Some p" and "p_state p = OpenPool" and "seat_ids_ok x db pool" and "team_done db p"
  obtains (completed) r c db' where "evaluate x db pool = Inr (IsReady r)"
      "x_json_len x (completion_data pool r) \<le> EVENT_BYTES" "settle_pool x pool db = (Inr (Some c), db')" "pc_created c"
  | (refused) r where "evaluate x db pool = Inr (IsReady r)" "EVENT_BYTES < x_json_len x (completion_data pool r)"
      "settle_pool x pool db = (Inl (Integrity ''pool completion record exceeds its bound''), db)"
proof -
  obtain r where r: "evaluate x db pool = Inr (IsReady r)"
    "settle_pool x pool db = commit db (write_completion x pool r db)" using team_done_ready [OF assms] .
  show thesis
  proof (cases "x_json_len x (completion_data pool r) \<le> EVENT_BYTES")
    case True
    obtain c db' where w: "write_completion x pool r db = Inr (Some c, db')" "pc_created c"
      using write_completion_ok [OF True assms(3-5)] by blast
    with r True completed show thesis by simp
  next
    case False
    then have "write_completion x pool r db = Inl (Integrity ''pool completion record exceeds its bound'')"
      by (simp add: write_completion_def)
    with r False refused show thesis by simp
  qed
qed

text \<open>
  C1 (refinement). Settlement completes an open pool exactly when the team is done and the completion record
  fits its bound of 256 KiB. The team is done when the current proposal was made at the current roster
  revision, at least two seats are filled, and for every current member the enrollment is joined, the latest
  execution succeeded and was not stopped by a service restart, its latest vote on the proposal is ready, was
  cast by that execution and reports each acceptance criterion exactly once as met, and every attempt of the
  member's lineage is cleaned up. If the team is done and the record is larger, the call is refused with an
  integrity error and changes nothing; if the team is not done, no completion is recorded.
\<close>

theorem settle_iff_team_done:
  assumes "log_wf db" and "distinct (map j_agent (enrollments db))" and "distinct (map p_id (pools db))"
    and "pool_by_id db pool = Some p" and "p_state p = OpenPool" and "seat_ids_ok x db pool"
  shows "if team_done db p
    then \<exists>r. evaluate x db pool = Inr (IsReady r)
      \<and> (if x_json_len x (completion_data pool r) \<le> EVENT_BYTES
         then \<exists>c db'. settle_pool x pool db = (Inr (Some c), db') \<and> pc_created c
         else settle_pool x pool db = (Inl (Integrity ''pool completion record exceeds its bound''), db))
    else \<not> (\<exists>c db'. settle_pool x pool db = (Inr (Some c), db') \<and> pc_created c)"
proof (cases "team_done db p")
  case True
  from assms True show ?thesis by (cases rule: team_done_settles) (simp_all add: True)
next
  case False
  then show ?thesis using assms(4) by (metis settle_created [OF assms(1,2)] option.inject)
qed

text \<open>
  C4 (invariant). A completion happens once and stays frozen: it appends exactly one event, which carries the
  notice, and one delivery; it changes no agent, attempt, membership or log entry; and settling the pool
  again reports the same delivery as already recorded and changes nothing.
\<close>

theorem completion_once:
  assumes "log_wf db" and "distinct (map j_agent (enrollments db))"
    and "settle_pool x pool db = (Inr (Some c), db')" and "pc_created c"
  shows "settle_pool x pool db' = (Inr (Some (c\<lparr> pc_created := False \<rparr>)), db')
    \<and> (\<exists>d. deliveries db' = deliveries db @ [d] \<and> d_id d = pc_delivery_id c)
    \<and> (\<exists>v r. events db' = events db @ [v] \<and> v_kind v = ''pool_completed''
          \<and> jfield ''notice'' (v_data v) = JStr (completion_notice pool r) \<and> evaluate x db pool = Inr (IsReady r))
    \<and> entries db' = entries db \<and> agents db' = agents db \<and> members db' = members db
    \<and> attempts db' = attempts db"
proof -
  from settle_created [OF assms] obtain p r where p: "pool_by_id db pool = Some p" "p_state p = OpenPool"
    and td: "team_done db p" and ev: "evaluate x db pool = Inr (IsReady r)"
    and w: "write_completion x pool r db = Inr (Some c, db')" by blast
  from write_completion_Inr [OF w] obtain d v n where
    c: "c = \<lparr> pc_pool_id = pool, pc_delivery_id = d_id d, pc_bound = (rd_session r \<noteq> None), pc_created = True \<rparr>"
    and db': "db' = db\<lparr> events := events db @ [v], event_seq := n, deliveries := deliveries db @ [d],
       pools := map (complete_pool pool (x_now x) (d_id d)) (pools db) \<rparr>"
    and v: "v_kind v = ''pool_completed''" "v_data v = completion_data pool r" by blast
  have rec: "reconcile_pool_enrollments x pool db' = (Inr (), db')"
    using reconcile_nothing team_done_joined [OF td assms(2), of db'] pool_by_id_id [OF p(1)]
    by (simp add: db')
  have "pool_by_id db' pool = Some (complete_pool pool (x_now x) (d_id d) p)"
    using p(1) by (simp add: db' pool_by_id_def find_map_same complete_pool_def)
  moreover have "rd_session r = p_session p"
    using ev p(1) by (auto elim!: evaluate_cases)
  ultimately have "evaluate x db' pool = Inr (Completed (c\<lparr> pc_created := False \<rparr>))"
    using p pool_by_id_id [OF p(1)] by (simp add: evaluate_def complete_pool_def c)
  with rec have "settle_pool x pool db' = (Inr (Some (c\<lparr> pc_created := False \<rparr>)), db')"
    by (simp add: settle_pool_def)
  with v ev show ?thesis by (simp add: db' c completion_data_def)
qed

section \<open>A finished team\<close>

definition done_entry :: "nat \<Rightarrow> string \<Rightarrow> entry_kind \<Rightarrow> entry_row" where
  "done_entry n member kind =
     \<lparr> e_seq = n, e_pool = sample_pool, e_author_kind = AuthorMember, e_author_agent = Some member,
       e_author_name = Some ''n'', e_author_role = Some ''r'', e_direction = Team, e_kind = kind,
       e_severity = None, e_proposal_seq = (if kind = VoteEntry then Some 1 else None),
       e_roster_revision = 1, e_decision = (if kind = VoteEntry then Some Ready else None),
       e_snapshot = (if kind = ProposalEntry then Some ''s'' else None),
       e_checks = (if kind = VoteEntry
         then Some (JArr [JObj [(''criterion_id'', JStr ''c1''), (''status'', JStr ''met'')]]) else None),
       e_body = ''b'', e_delivery = None, e_sender_run = Some member, e_sender_attempt = Some ''t'',
       e_idem_scope = member, e_request_id = (if kind = VoteEntry then ''v'' else ''p''), e_created_at = 0 \<rparr>"

definition done_attempt :: "string \<Rightarrow> attempt_row" where
  "done_attempt i = (sample_attempt i)\<lparr> t_phase := Some ''cleanup_complete'', t_cleanup_proof := Some JNull \<rparr>"

definition done_db :: db where
  "done_db = sample_db\<lparr> agents := map (\<lambda>i. (sample_agent i)\<lparr> a_status := Succeeded \<rparr>) [ag_a, ag_b],
     attempts := [done_attempt ag_a, done_attempt ag_b],
     entries := [done_entry 1 ag_a ProposalEntry, done_entry 2 ag_a VoteEntry, done_entry 3 ag_b VoteEntry],
     entry_seq := 3 \<rparr>"

definition done_pool :: pool_row where
  "done_pool = hd (pools sample_db)"

lemma done_pool_simps [simp]:
  "pools done_db = [done_pool]" "p_id done_pool = sample_pool" "p_roster_revision done_pool = 1"
  "p_state done_pool = OpenPool" "criteria_of (p_acceptance done_pool) = Inr [(''c1'', ''x'')]"
  "members done_db = members sample_db" "enrollments done_db = []"
  by (simp_all add: done_pool_def done_db_def sample_db_def criteria_of_def)

lemma done_log: "log_wf done_db"
  by (auto simp: log_wf_def done_db_def done_entry_def entry_shape_def idem_key_def)

lemma done_tips:
  "tip_row done_db ag_a = Some ((sample_agent ag_a)\<lparr> a_status := Succeeded \<rparr>)"
  "tip_row done_db ag_b = Some ((sample_agent ag_b)\<lparr> a_status := Succeeded \<rparr>)"
  "agent_status done_db ag_a = Inr Succeeded" "agent_status done_db ag_b = Inr Succeeded"
  "is_restart_stop done_db i = False" "enrollment_of done_db i = None"
  by (simp_all add: tip_row_def lineage_def agent_status_def agent_by_id_def done_db_def)
    (simp_all add: is_restart_stop_def enrollment_of_def sample_db_def)

lemma done_votes:
  "latest_vote_row done_db sample_pool ag_a 1 = Some (done_entry 2 ag_a VoteEntry)"
  "latest_vote_row done_db sample_pool ag_b 1 = Some (done_entry 3 ag_b VoteEntry)"
  "current_proposal done_db sample_pool = Some (1, ''s'', 1)"
  by (simp_all add: latest_vote_row_def pool_entries_def done_db_def is_vote_on_def done_entry_def
      current_proposal_def)

lemma done_team: "team_done done_db done_pool"
proof -
  have vote: "ready_vote [(''c1'', ''x'')] i (done_entry n i VoteEntry)" for i n
    by (simp add: ready_vote_def done_entry_def all_met_def criterion_ids_def List.map_filter_def)
  have clean: "\<not> attempt_uncleaned t" if "t \<in> set (attempts done_db)" for t
    using that by (auto simp: done_db_def done_attempt_def attempt_uncleaned_def)
  have "seat_done done_db sample_pool [(''c1'', ''x'')] 1 i" if "i \<in> {ag_a, ag_b}" for i
    using that vote clean by (auto simp: seat_done_def done_tips done_votes [unfolded One_nat_def])
  then show ?thesis
    using sample_seats [of done_db] done_votes(3) by (simp add: team_done_def sample_member_def)
qed

lemma done_ids: "seat_ids_ok sample_ext done_db sample_pool"
  using sample_seats [of done_db] by (simp add: seat_ids_ok_def sample_member_def done_tips)

lemma done_found: "pool_by_id done_db sample_pool = Some done_pool"
  by (simp add: pool_by_id_def)

lemma done_fits: "x_json_len sample_ext (completion_data sample_pool r) \<le> EVENT_BYTES"
  by (simp add: sample_ext_def EVENT_BYTES_def)

theorem settle_iff_team_done_witness:
  "\<exists>c db'. settle_pool sample_ext sample_pool done_db = (Inr (Some c), db') \<and> pc_created c"
  using settle_iff_team_done [OF done_log _ _ done_found _ done_ids] done_team done_fits by simp

theorem completion_once_witness:
  "\<exists>c db'. settle_pool sample_ext sample_pool done_db = (Inr (Some c), db') \<and> pc_created c
     \<and> settle_pool sample_ext sample_pool db' = (Inr (Some (c\<lparr> pc_created := False \<rparr>)), db')"
proof -
  have d: "distinct (map j_agent (enrollments done_db))" "distinct (map p_id (pools done_db))" "p_state done_pool = OpenPool"
    by simp_all
  from done_log d(1,2) done_found d(3) done_ids done_team
  obtain c db' where s: "settle_pool sample_ext sample_pool done_db = (Inr (Some c), db')" "pc_created c"
    by (cases rule: team_done_settles) (use done_fits in \<open>auto simp: not_less [symmetric]\<close>)
  from completion_once [OF done_log _ s] s show ?thesis by auto
qed

end
