(* ===== verification/PoolLogFacts.thy ===== *)
theory PoolLogFacts
  imports PoolLog PoolCompletion
begin

text \<open>
  What each step of a pool write changes: the effects of appending, acknowledging, recording the event and
  fanning out, from which the properties of the log follow.
\<close>

section \<open>Frames\<close>

lemma tx_event_frame [simp]:
  "entries (snd (tx_event x db a k f t d)) = entries db" "entry_seq (snd (tx_event x db a k f t d)) = entry_seq db"
  "same_core db (snd (tx_event x db a k f t d))" "enrollments (snd (tx_event x db a k f t d)) = enrollments db"
  "commands (snd (tx_event x db a k f t d)) = commands db"
  "notifications (snd (tx_event x db a k f t d)) = notifications db"
  by (simp_all add: tx_event_def insert_event_def same_core_def Let_def)

definition ack_row :: "ext \<Rightarrow> nat \<Rightarrow> string \<Rightarrow> enrollment_row \<Rightarrow> enrollment_row" where
  "ack_row x seq rt j =
     (if j_agent j = rt \<and> j_state j \<noteq> EnrollJoined
      then j\<lparr> j_state := EnrollJoined, j_ack_seq := Some seq, j_ack_at := Some (x_now x), j_failure := None \<rparr>
      else j)"

lemma acknowledge_Inr:
  assumes "acknowledge x rt seq db = Inr db'"
  shows "entries db' = entries db" "entry_seq db' = entry_seq db" "same_core db db'"
    "enrollments db' = map (ack_row x seq rt) (enrollments db)" "commands db' = commands db"
    "notifications db' = notifications db"
  using assms
  by (auto simp: acknowledge_def Let_def cancel_delivery_def update_enrollment_def same_core_def ack_row_def
      split: if_split_asm)

lemma append_entry_Inr:
  assumes "append_entry x m run attempt n db = Inr (seq, db')"
  shows "entry_constraints x db (stamped x m run attempt n)" "seq = Suc (entry_seq db)"
    "entries db' = entries db @ [(stamped x m run attempt n)\<lparr> e_seq := seq \<rparr>]" "entry_seq db' = seq"
    "same_core db db'" "enrollments db' = enrollments db" "commands db' = commands db"
    "notifications db' = notifications db"
  using assms by (auto simp: append_entry_def insert_entry_Inr same_core_def)

lemma finish_write_Inr:
  assumes "finish_write x m run ack write seq db = Inr (w, db')"
  shows "w = Appended (mb_pool_id m) seq" "entries db' = entries db" "entry_seq db' = entry_seq db"
    "same_core db db'" "notifications db' = notifications db"
    "enrollments db' = (if ack then map (ack_row x seq (mb_seat_agent_id m)) (enrollments db) else enrollments db)"
    "\<exists>cs. commands db' = commands db @ cs \<and> map c_agent cs = recipients db (mb_pool_id m) (mb_seat_agent_id m)
       \<and> (\<forall>c \<in> set cs. c_kind c = ''pool'' \<and> c_payload c = JObj [(''seq'', JNum (int seq))]
            \<and> c_state c = ''pending'')"
proof -
  from assms obtain db1 where a: "(if ack then acknowledge x (mb_seat_agent_id m) seq db else Inr db) = Inr db1"
    and w: "w = Appended (mb_pool_id m) seq"
    and f: "fanout_entry x (mb_pool_id m) (mb_seat_agent_id m) seq
      (snd (tx_event x db1 run ''pool_entry_appended'' None None
        (JObj [(''seq'', JNum (int seq)), (''kind'', JStr (entry_kind_as_str (write_kind write)))]))) = Inr db'"
    by (auto simp: finish_write_def Let_def)
  let ?db2 = "snd (tx_event x db1 run ''pool_entry_appended'' None None
        (JObj [(''seq'', JNum (int seq)), (''kind'', JStr (entry_kind_as_str (write_kind write)))]))"
  have d1: "entries db1 = entries db" "entry_seq db1 = entry_seq db" "same_core db db1" "commands db1 = commands db"
    "notifications db1 = notifications db"
    "enrollments db1 = (if ack then map (ack_row x seq (mb_seat_agent_id m)) (enrollments db) else enrollments db)"
    using a acknowledge_Inr [of x "mb_seat_agent_id m" seq db db1] by (auto split: if_split_asm)
  obtain cs n where cs: "db' = add_commands cs n ?db2"
    "map c_agent cs = recipients ?db2 (mb_pool_id m) (mb_seat_agent_id m)"
    "\<forall>c \<in> set cs. c_kind c = ''pool'' \<and> c_payload c = JObj [(''seq'', JNum (int seq))] \<and> c_state c = ''pending''"
    using f by (rule fanout_entry_Inr)
  have core: "same_core db ?db2" using same_core_trans [OF d1(3) tx_event_frame(3)] .
  have "recipients ?db2 = recipients db"
  proof (intro ext)
    fix p s
    have t: "agents ?db2 = agents db" "members ?db2 = members db" using core by (simp_all add: same_core_def)
    show "recipients ?db2 p s = recipients db p s"
      unfolding recipients_def current_seats_def live_tip_def [abs_def] tip_row_def lineage_def agent_by_id_def t
      by (rule refl)
  qed
  then show "\<exists>cs. commands db' = commands db @ cs \<and> map c_agent cs = recipients db (mb_pool_id m) (mb_seat_agent_id m)
       \<and> (\<forall>c \<in> set cs. c_kind c = ''pool'' \<and> c_payload c = JObj [(''seq'', JNum (int seq))]
            \<and> c_state c = ''pending'')"
    using cs d1(4) by (intro exI [of _ cs]) simp
  show "w = Appended (mb_pool_id m) seq" by (rule w)
  show "entries db' = entries db" "entry_seq db' = entry_seq db" "notifications db' = notifications db"
    using d1 by (simp_all add: cs(1))
  show "same_core db db'" unfolding cs(1) using same_core_trans [OF core add_commands_same_core] .
  show "enrollments db' = (if ack then map (ack_row x seq (mb_seat_agent_id m)) (enrollments db) else enrollments db)"
    using d1(6) by (simp add: cs(1))
qed

section \<open>The effect of a write\<close>

fun entry_of_write :: "pool_write \<Rightarrow> new_entry" where
  "entry_of_write (WMessage i) = message_entry i"
| "entry_of_write (WProposal i) = proposal_entry i"
| "entry_of_write (WVote i) = vote_entry (pv_proposal_seq i) i"

definition proposal_rows :: "db \<Rightarrow> string \<Rightarrow> entry_row list" where
  "proposal_rows db pool = filter (\<lambda>e. e_kind e = ProposalEntry) (pool_entries db pool)"

fun write_allowed :: "db \<Rightarrow> membership \<Rightarrow> bool \<Rightarrow> pool_write \<Rightarrow> bool" where
  "write_allowed db m ack (WMessage i) \<longleftrightarrow> ack \<or> \<not> chat_exhausted db (mb_pool_id m) (pm_message i)"
| "write_allowed db m ack (WProposal i) \<longleftrightarrow> length (proposal_rows db (mb_pool_id m)) < PROPOSAL_BUDGET"
| "write_allowed db m ack (WVote i) \<longleftrightarrow>
     (\<exists>snapshot revision. current_proposal db (mb_pool_id m) = Some (pv_proposal_seq i, snapshot, revision))
     \<and> (pv_decision i = Ready \<longrightarrow> sort (map fst (mb_acceptance m)) = sort (map cc_criterion_id (pv_checks i)))
     \<and> \<not> vote_budget_exhausted (votes_spent db (mb_pool_id m) (mb_seat_agent_id m) (pv_proposal_seq i))
          (pv_decision i)"

lemma entry_of_write_simps [simp]:
  "ne_kind (entry_of_write w) = write_kind w" "ne_request_id (entry_of_write w) = write_request_id w"
  by (cases w; simp add: message_entry_def proposal_entry_def vote_entry_def)+

lemma append_write_Inr:
  assumes "append_write x m run attempt ack w db = Inr (Inr (seq, db'))"
  shows "append_entry x m run attempt (entry_of_write w) db = Inr (seq, db')" and "write_allowed db m ack w"
proof -
  have "append_entry x m run attempt (entry_of_write w) db = Inr (seq, db') \<and> write_allowed db m ack w"
  proof (cases w)
    case (WMessage i)
    with assms show ?thesis by (auto simp: append_message_def split: if_split_asm)
  next
    case (WProposal i)
    with assms show ?thesis by (auto simp: append_proposal_def proposal_rows_def not_le split: if_split_asm)
  next
    case (WVote i)
    with assms show ?thesis by (auto simp: append_vote_def split: if_split_asm option.splits)
  qed
  then show "append_entry x m run attempt (entry_of_write w) db = Inr (seq, db')" "write_allowed db m ack w"
    by simp_all
qed

definition appends ::
    "ext \<Rightarrow> string \<Rightarrow> string \<Rightarrow> pool_write \<Rightarrow> membership \<Rightarrow> bool \<Rightarrow> nat \<Rightarrow> db \<Rightarrow> db \<Rightarrow> bool" where
  "appends x run attempt w m ack seq db db' \<longleftrightarrow>
     mb_state m = OpenPool \<and> validate_write x w = Inr ()
     \<and> prior_entry db (mb_pool_id m) run (write_request_id w) = None
     \<and> ack_allowed db (mb_seat_agent_id m) run attempt (ack_request w) = Inr ack
     \<and> write_allowed db m ack w
     \<and> entry_constraints x db (stamped x m run attempt (entry_of_write w)) \<and> seq = Suc (entry_seq db)
     \<and> entries db' = entries db @ [(stamped x m run attempt (entry_of_write w))\<lparr> e_seq := seq \<rparr>]
     \<and> entry_seq db' = seq \<and> same_core db db' \<and> notifications db' = notifications db
     \<and> enrollments db' = (if ack then map (ack_row x seq (mb_seat_agent_id m)) (enrollments db)
                          else enrollments db)
     \<and> (\<exists>cs. commands db' = commands db @ cs \<and> map c_agent cs = recipients db (mb_pool_id m) (mb_seat_agent_id m)
          \<and> (\<forall>c \<in> set cs. c_kind c = ''pool'' \<and> c_payload c = JObj [(''seq'', JNum (int seq))]
               \<and> c_state c = ''pending''))"

lemma recipients_same_core: "same_core db db' \<Longrightarrow> recipients db' = recipients db"
proof (intro ext)
  fix p s
  assume "same_core db db'"
  then have t: "agents db' = agents db" "members db' = members db" by (simp_all add: same_core_def)
  show "recipients db' p s = recipients db p s"
    unfolding recipients_def current_seats_def live_tip_def [abs_def] tip_row_def lineage_def agent_by_id_def t
    by (rule refl)
qed

lemma new_write_cases:
  assumes "new_write x m run attempt w db = Inr (out, db')"
    and "prior_entry db (mb_pool_id m) run (write_request_id w) = None"
  obtains (denied) d where "out = Denied d" "db' = db"
    | (appended) ack seq where "out = Appended (mb_pool_id m) seq" "appends x run attempt w m ack seq db db'"
proof (cases "mb_state m")
  case CompletedPool
  with assms(1) have "out = Denied PoolCompleted" "db' = db" by (simp_all add: new_write_def)
  then show ?thesis by (rule denied)
next
  case OpenPool
  with assms obtain seat ack r where v: "validate_write x w = Inr ()"
    and seat: "parse_agent x (mb_seat_agent_id m) = Inr seat"
    and ack: "ack_allowed db seat run attempt (ack_request w) = Inr ack"
    and app: "append_write x m run attempt ack w db = Inr r"
    and rest: "(case r of Inl denial \<Rightarrow> Inr (Denied denial, db)
        | Inr (seq, db1) \<Rightarrow> finish_write x m run ack w seq db1) = Inr (out, db')"
    by (auto simp: new_write_def)
  show ?thesis
  proof (cases r)
    case (Inl d)
    with rest have "out = Denied d" "db' = db" by simp_all
    then show ?thesis by (rule denied)
  next
    case (Inr sd)
    obtain seq db1 where sd: "sd = (seq, db1)" by (cases sd)
    note a = append_write_Inr [OF app [unfolded Inr sd]] and e = append_entry_Inr [OF append_write_Inr(1) [OF app [unfolded Inr sd]]]
    have "finish_write x m run ack w seq db1 = Inr (out, db')" using rest Inr sd by simp
    note f = finish_write_Inr [OF this]
    have "appends x run attempt w m ack seq db db'"
      unfolding appends_def
      using OpenPool v assms(2) ack parse_agent_same [OF seat] a(2) e f same_core_trans [OF e(5) f(4)]
        recipients_same_core [OF e(5)]
      by simp
    with f(1) appended show ?thesis by blast
  qed
qed

lemma pool_write_tx_cases:
  assumes "pool_write_tx x run attempt token w db = Inr (out, db')"
  obtains (denied) d where "out = Denied d" "db' = db"
    | (replayed) r where "out = Replayed r" "db' = db" "wr_duplicate r"
    | (appended) m ack seq where "out = Appended (mb_pool_id m) seq"
        "authenticated_member x db run attempt token = Inr (Inr m)"
        "validate_ack_replay db (mb_seat_agent_id m) run attempt (write_request_id w) (write_kind w = MessageEntry) = Inr ()"
        "appends x run attempt w m ack seq db db'"
proof -
  from assms obtain r where auth: "authenticated_member x db run attempt token = Inr r"
    by (auto simp: pool_write_tx_def)
  show ?thesis
  proof (cases r)
    case (Inl d)
    with assms auth have "out = Denied d" "db' = db" by (simp_all add: pool_write_tx_def)
    then show ?thesis by (rule denied)
  next
    case (Inr m)
    with assms auth obtain seat where seat: "parse_agent x (mb_seat_agent_id m) = Inr seat"
      and v: "validate_ack_replay db seat run attempt (write_request_id w) (write_kind w = MessageEntry) = Inr ()"
      and rest: "(case prior_entry db (mb_pool_id m) run (write_request_id w) of
             Some e \<Rightarrow> replay_write x m (e_seq e) w db
           | None \<Rightarrow> new_write x m run attempt w db) = Inr (out, db')"
      by (auto simp: pool_write_tx_def)
    show ?thesis
    proof (cases "prior_entry db (mb_pool_id m) run (write_request_id w)")
      case None
      with rest have "new_write x m run attempt w db = Inr (out, db')" by simp
      then show ?thesis using None
      proof (cases rule: new_write_cases)
        case (appended ack seq)
        with that(3) auth Inr v parse_agent_same [OF seat] show ?thesis by simp
      qed (rule denied)
    next
      case (Some e)
      with rest have "db' = db \<and> (out = Denied DenialConflict \<or> (\<exists>r. out = Replayed r \<and> wr_duplicate r))"
        by (auto simp: replay_write_def split: if_split_asm)
      with denied replayed show ?thesis by blast
    qed
  qed
qed

section \<open>Settlement and the log\<close>

text \<open>What settlement leaves alone, and how it may change the pools.\<close>

definition same_log :: "db \<Rightarrow> db \<Rightarrow> bool" where
  "same_log db db' \<longleftrightarrow>
     agents db' = agents db \<and> attempts db' = attempts db \<and> capabilities db' = capabilities db
     \<and> worker_lifecycle db' = worker_lifecycle db \<and> members db' = members db \<and> entries db' = entries db
     \<and> entry_seq db' = entry_seq db \<and> notifications db' = notifications db \<and> commands db' = commands db
     \<and> map pin (enrollments db') = map pin (enrollments db)
     \<and> (pools db' = pools db \<or> (\<exists>pool tm d. pools db' = map (complete_pool pool tm d) (pools db)))"

lemma same_facts_log: "same_facts db db' \<Longrightarrow> same_log db db'"
  by (simp add: same_facts_def same_log_def)

lemma same_log_refl [simp]: "same_log db db"
  by (simp add: same_log_def)

lemma settle_pool_log: "settle_pool x pool db = (r, db') \<Longrightarrow> same_log db db'"
proof -
  assume s: "settle_pool x pool db = (r, db')"
  obtain u db1 where rec: "reconcile_pool_enrollments x pool db = (u, db1)" by fastforce
  note facts = reconcile_facts [OF rec]
  have "db' = db1 \<or> (\<exists>r' c. write_completion x pool r' db1 = Inr (c, db'))"
    using s rec
    by (auto simp: settle_pool_def settle_in_tx_def commit_def bindr_def split: sum.splits evaluation.splits prod.splits)
  then show ?thesis
  proof
    assume "\<exists>r' c. write_completion x pool r' db1 = Inr (c, db')"
    then obtain r' c where "write_completion x pool r' db1 = Inr (c, db')" by blast
    then obtain d v n where "db' = db1\<lparr> events := events db1 @ [v], event_seq := n, deliveries := deliveries db1 @ [d],
       pools := map (complete_pool pool (x_now x) (d_id d)) (pools db1) \<rparr>"
      by (rule write_completion_Inr)
    then show ?thesis using facts by (auto simp: same_facts_def same_log_def)
  qed (use facts same_facts_log in blast)
qed

section \<open>Operator messages and reports\<close>

definition posts :: "ext \<Rightarrow> string \<Rightarrow> string \<Rightarrow> string \<Rightarrow> nat \<Rightarrow> db \<Rightarrow> db \<Rightarrow> bool" where
  "posts x pool request message seq db db' \<longleftrightarrow>
     (\<exists>p. pool_by_id db pool = Some p \<and> p_state p = OpenPool
        \<and> prior_entry db pool ''op'' request = None \<and> \<not> chat_exhausted db pool message
        \<and> entry_constraints x db (operator_entry x p request message) \<and> seq = Suc (entry_seq db)
        \<and> entries db' = entries db @ [(operator_entry x p request message)\<lparr> e_seq := seq \<rparr>]
        \<and> entry_seq db' = seq \<and> same_core db db' \<and> notifications db' = notifications db
        \<and> enrollments db' = enrollments db
        \<and> (\<exists>cs. commands db' = commands db @ cs \<and> map c_agent cs = recipients db pool []))"

lemma operator_post_cases:
  assumes "pool_operator_post_tx x pool request message db = Inr (out, db')"
  obtains (same) "db' = db" "\<forall>r. out = Inr r \<longrightarrow> wr_duplicate r"
    | (posted) seq where "out = Inr \<lparr> wr_pool_id = pool, wr_seq = seq, wr_duplicate = False \<rparr>"
        "posts x pool request message seq db db'"
proof (cases "pool_by_id db pool")
  case None
  with assms same show ?thesis by (auto simp: pool_operator_post_tx_def)
next
  case (Some p)
  show ?thesis
  proof (cases "prior_entry db pool ''op'' request")
    case (Some e)
    with assms \<open>pool_by_id db pool = Some p\<close> have "db' = db \<and> (\<forall>r. out = Inr r \<longrightarrow> wr_duplicate r)"
      by (auto simp: pool_operator_post_tx_def operator_replay_def split: if_split_asm)
    with same show ?thesis by blast
  next
    case None
    note found = \<open>pool_by_id db pool = Some p\<close>
    show ?thesis
    proof (cases "p_state p = CompletedPool \<or> chat_exhausted db pool message")
      case True
      with assms found None have "db' = db \<and> (\<forall>r. out = Inr r \<longrightarrow> wr_duplicate r)"
        by (auto simp: pool_operator_post_tx_def split: if_split_asm)
      with same show ?thesis by blast
    next
      case False
      with assms found None obtain seq db1 where
        i: "insert_entry x constraint_failed (operator_entry x p request message) db = Inr (seq, db1)"
        and f: "fanout_entry x pool [] seq db1 = Inr db'"
        and out: "out = Inr \<lparr> wr_pool_id = pool, wr_seq = seq, wr_duplicate = False \<rparr>"
        by (auto simp: pool_operator_post_tx_def)
      obtain cs n where cs: "db' = add_commands cs n db1" "map c_agent cs = recipients db1 pool []"
        using f by (rule fanout_entry_Inr)
      have st: "p_state p = OpenPool" using False by (cases "p_state p") simp_all
      have "same_core db db1" using insert_entry_same_core [OF i] .
      then have "posts x pool request message seq db db'"
        unfolding posts_def using found None False st i cs same_core_trans [OF _ add_commands_same_core, of db db1 cs n]
          recipients_same_core [of db db1]
        by (auto simp: insert_entry_Inr)
      with out posted show ?thesis by blast
    qed
  qed
qed

end
