(* ===== verification/PoolBinding.thy ===== *)
theory PoolBinding
  imports PoolSettle
begin

text \<open>
  The binding of a pool to an orchestrator session (\<^verbatim>\<open>Store::bind_pool\<close> in \<^verbatim>\<open>pool_settle.rs\<close> over the
  session helpers of \<^verbatim>\<open>lib.rs\<close>) is immutable.
\<close>

text \<open>The conversation a stored session stands for.\<close>

definition session_key :: "db \<Rightarrow> string \<Rightarrow> (string res \<times> string) option" where
  "session_key db sid =
     map_option (\<lambda>s. (canonical_transport_name (s_transport s), s_external s)) (session_by_id db sid)"

definition ref_key :: "orchestrator_ref \<Rightarrow> string res \<times> string" where
  "ref_key r = (canonical_transport r, external_session_id r)"

lemma session_matches_iff:
  assumes "validate_ref r = Inr ()"
  shows "session_matches_reference db sid r = Inr (session_key db sid = Some (ref_key r))"
proof -
  from assms obtain c where c: "canonical_transport r = Inr c" by (auto simp: validate_ref_def)
  show ?thesis
    by (cases "session_by_id db sid")
      (auto simp: session_matches_reference_def assms c session_key_def ref_key_def)
qed

lemma session_key_set_turn [simp]: "session_key (set_turn sid r tm db) u = session_key db u"
proof -
  have "session_by_id (set_turn sid r tm db) u =
      map_option (\<lambda>s. if s_id s = sid then s\<lparr> s_turn := external_turn_id r, s_last_seen_at := tm \<rparr> else s)
        (session_by_id db u)"
    by (simp add: session_by_id_def set_turn_def find_map_same)
  then show ?thesis by (auto simp: session_key_def option.map_comp comp_def intro: option.map_cong0)
qed

lemma touch_session_key:
  assumes "touch_session_reference db sid r tm = Inr db'"
  shows "session_key db' = session_key db" "pools db' = pools db" "session_key db sid = Some (ref_key r)"
    "agents db' = agents db"
proof -
  have v: "validate_ref r = Inr ()"
    using assms by (auto simp: touch_session_reference_def session_matches_reference_def)
  show "session_key db' = session_key db" "pools db' = pools db" "session_key db sid = Some (ref_key r)"
    "agents db' = agents db"
    using assms by (auto simp: touch_session_reference_def session_matches_iff [OF v] fun_eq_iff
        split: if_splits) (auto simp: set_turn_def)
qed

lemma touch_sessions_key:
  "touch_sessions session r tm bound db = Inr db' \<Longrightarrow>
     session_key db' = session_key db \<and> pools db' = pools db"
  by (induction bound arbitrary: db) (auto split: if_splits dest: touch_session_key)

lemma canonical_legacy:
  assumes "canonical_transport r = Inr c" and "legacy_transport r = Inr l" and "t = c \<or> t = l"
  shows "canonical_transport_name t = Inr c"
  using assms by (auto simp: canonical_transport_def legacy_transport_def canonical_transport_name_def
      split: if_splits)

lemma session_for_reference_key:
  assumes "session_for_reference x db r tm = Inr (sid, db')" and "distinct (map s_id (sessions db))"
    and "''os-'' @ x_uuid x (length (sessions db)) \<notin> s_id ` set (sessions db)"
  shows "session_key db' sid = Some (ref_key r)" "pools db' = pools db" "agents db' = agents db"
proof -
  from assms(1) obtain c l where c: "canonical_transport r = Inr c" and l: "legacy_transport r = Inr l"
    by (auto simp: session_for_reference_def session_id_for_reference_def session_ids_for_reference_def)
  let ?rows = "sort_key (\<lambda>s. (s_transport s \<noteq> c, s_id s))
    (filter (\<lambda>s. s_external s = external_session_id r \<and> (s_transport s = c \<or> s_transport s = l)) (sessions db))"
  have v: "validate_ref r = Inr ()" using assms(1) by (auto simp: session_for_reference_def)
  have ids: "session_id_for_reference db r = Inr (case ?rows of [] \<Rightarrow> None | s # _ \<Rightarrow> Some (s_id s))"
    by (simp add: session_id_for_reference_def session_ids_for_reference_def c l v split: list.split)
  have "session_key db' sid = Some (ref_key r) \<and> pools db' = pools db \<and> agents db' = agents db"
  proof (cases ?rows)
    case Nil
    then have db': "sid = ''os-'' @ x_uuid x (length (sessions db))"
      "db' = db\<lparr> sessions := sessions db @ [\<lparr> s_id = sid, s_transport = c, s_external = external_session_id r,
        s_turn = external_turn_id r, s_created_at = tm, s_last_seen_at = tm \<rparr>] \<rparr>"
      using assms(1) by (auto simp: session_for_reference_def ids v c Let_def)
    have "find (\<lambda>s. s_id s = sid) (sessions db) = None"
      using assms(3) unfolding db'(1) [symmetric] by (auto simp: find_None_iff)
    then show ?thesis using canonical_legacy [OF c l, of c]
      by (simp add: db'(2) session_key_def session_by_id_def find_append ref_key_def c)
  next
    case (Cons s ss)
    then have db': "sid = s_id s" "db' = set_turn sid r tm db"
      using assms(1) by (auto simp: session_for_reference_def ids v c)
    have "s \<in> set ?rows" by (simp add: Cons)
    then have s: "s \<in> set (sessions db)" "s_external s = external_session_id r" "s_transport s = c \<or> s_transport s = l"
      by auto
    have "session_by_id db sid = Some s"
      unfolding session_by_id_def db'(1) using find_key [OF assms(2) s(1)] .
    then have "session_key db sid = Some (ref_key r)"
      using canonical_legacy [OF c l s(3)] s(2) by (simp add: session_key_def ref_key_def c)
    then show ?thesis by (simp add: db'(2)) (simp add: set_turn_def)
  qed
  then show "session_key db' sid = Some (ref_key r)" "pools db' = pools db" "agents db' = agents db" by simp_all
qed

lemma insert_terminal_notice_frame:
  "sessions (snd (insert_terminal_notice x db agent session event tm)) = sessions db"
  "pools (snd (insert_terminal_notice x db agent session event tm)) = pools db"
  "agents (snd (insert_terminal_notice x db agent session event tm)) = agents db"
  by (auto simp: insert_terminal_notice_def insert_delivery_def Let_def split: option.split)

lemma ensure_notice_frame [simp]:
  "sessions (ensure_bound_terminal_notice x db agent session tm) = sessions db"
  "pools (ensure_bound_terminal_notice x db agent session tm) = pools db"
  by (simp_all add: ensure_bound_terminal_notice_def insert_terminal_notice_frame split: option.split)

lemma bind_tips_frame: "bind_tips x session tm tips db = Inr db' \<Longrightarrow> sessions db' = sessions db \<and> pools db' = pools db"
proof (induction tips arbitrary: db)
  case (Cons tip tips)
  then obtain db1 where t: "bind_tip x session tm tip db = Inr db1" "bind_tips x session tm tips db1 = Inr db'"
    by auto
  have "sessions db1 = sessions db \<and> pools db1 = pools db"
    using t(1) by (auto simp: bind_tip_def set_agent_session_def split: option.splits)
  with Cons.IH [OF t(2)] show ?case by simp
qed simp

lemma session_key_cong: "sessions db' = sessions db \<Longrightarrow> session_key db' = session_key db"
  by (simp add: session_key_def session_by_id_def fun_eq_iff)

lemma pool_session_for_key:
  assumes "pool_session_for x current r tm db = Inr (sid, db')" and "validate_ref r = Inr ()"
    and "distinct (map s_id (sessions db))"
    and "''os-'' @ x_uuid x (length (sessions db)) \<notin> s_id ` set (sessions db)"
  shows "session_key db' sid = Some (ref_key r) \<and> pools db' = pools db
    \<and> (\<forall>existing. current = Some existing \<longrightarrow> sid = existing)"
proof (cases current)
  case None
  with assms(1) have "session_for_reference x db r tm = Inr (sid, db')" by (simp add: pool_session_for_def)
  with session_for_reference_key [OF this assms(3,4)] None show ?thesis by simp
next
  case (Some existing)
  with assms(1) have "touch_session_reference db existing r tm = Inr db'" "sid = existing"
    by (auto simp: pool_session_for_def)
  with touch_session_key [OF this(1)] Some show ?thesis by simp
qed

lemma bind_pool_bound:
  assumes "bind_pool_tx x pool r tm db = Inr (sid, db')" and "distinct (map s_id (sessions db))"
    and "''os-'' @ x_uuid x (length (sessions db)) \<notin> s_id ` set (sessions db)"
  shows "\<exists>p. pool_by_id db' pool = Some p \<and> p_session p = Some sid"
    and "session_key db' sid = Some (ref_key r)"
proof -
  from assms(1) obtain p where v: "validate_ref r = Inr ()" and p: "pool_by_id db pool = Some p"
    and m: "bind_members x pool p r tm db = Inr (sid, db')"
    by (auto simp: bind_pool_tx_def split: if_split_asm)
  from m obtain tips db1 db2 bound db3 where s: "pool_session_for x (p_session p) r tm db = Inr (sid, db1)"
    and t: "touch_sessions sid r tm bound db1 = Inr db2"
    and b: "bind_tips x sid tm tips (if p_session p = None then set_pool_session pool sid db2 else db2) = Inr db3"
    and db': "db' = activate_notice pool sid tm db3"
    by (auto simp: bind_members_def split del: if_split)
  note k = pool_session_for_key [OF s v assms(2,3)] and tk = touch_sessions_key [OF t]
  have s3: "sessions db' = sessions db3" "pools db' = pools db3"
    by (simp_all add: db' activate_notice_def Let_def)
  have "sessions db3 = sessions db2" "pools db3 = (if p_session p = None then pools (set_pool_session pool sid db2) else pools db)"
    using bind_tips_frame [OF b] tk k by (auto simp: set_pool_session_def)
  then show "session_key db' sid = Some (ref_key r)"
    using session_key_cong [of db' db2] s3 tk k by simp
  have pid: "p_id p = pool" using p by (auto simp: pool_by_id_def dest: find_Some_in)
  have pools2: "pools db2 = pools db" using tk k by simp
  show "\<exists>p. pool_by_id db' pool = Some p \<and> p_session p = Some sid"
  proof (cases "p_session p")
    case None
    then have "pools db' = map (\<lambda>p. if p_id p = pool then p\<lparr> p_session := Some sid \<rparr> else p) (pools db)"
      using \<open>pools db3 = _\<close> s3 pools2 by (simp add: set_pool_session_def)
    then have "pool_by_id db' pool = Some (p\<lparr> p_session := Some sid \<rparr>)"
      using p pid by (simp add: pool_by_id_def find_map_same)
    then show ?thesis by simp
  next
    case (Some e)
    then have "pools db' = pools db" using \<open>pools db3 = _\<close> s3 by simp
    then show ?thesis using p k Some by (simp add: pool_by_id_def)
  qed
qed

text \<open>
  C33 (invariant). A pool's orchestrator binding is immutable: once it is bound, binding it to a reference of
  another conversation fails and changes nothing. The session it is bound to stands for the conversation of
  the reference it was bound with.
\<close>

theorem binding_immutable:
  assumes "bind_pool x pool r tm db = (Inr sid, db')" and "distinct (map s_id (sessions db))"
    and "''os-'' @ x_uuid x (length (sessions db)) \<notin> s_id ` set (sessions db)"
    and "validate_ref other = Inr ()" and "ref_key other \<noteq> ref_key r"
  shows "bind_pool x pool other tm' db' = (Inl (Validation ''pool orchestration binding is immutable''), db')
    \<and> session_key db' sid = Some (ref_key r)"
proof -
  have tx: "bind_pool_tx x pool r tm db = Inr (sid, db')"
    using assms(1) by (auto simp: bind_pool_def commit_def split: sum.splits prod.splits)
  obtain p where p: "pool_by_id db' pool = Some p" "p_session p = Some sid"
    using bind_pool_bound(1) [OF tx assms(2,3)] by blast
  have "session_matches_reference db' sid other = Inr False"
    using session_matches_iff [OF assms(4)] bind_pool_bound(2) [OF tx assms(2,3)] assms(5) by simp
  with p assms(4) have "bind_pool x pool other tm' db' =
      (Inl (Validation ''pool orchestration binding is immutable''), db')"
    by (simp add: bind_pool_def bind_pool_tx_def)
  with bind_pool_bound(2) [OF tx assms(2,3)] show ?thesis by blast
qed

definition sample_ref :: "string \<Rightarrow> orchestrator_ref" where
  "sample_ref t = \<lparr> transport = t, external_session_id = ''e'', external_turn_id = None \<rparr>"

lemma sample_ref_valid:
  "validate_ref (sample_ref ''codex'') = Inr ()" "validate_ref (sample_ref ''opencode'') = Inr ()"
  by (simp_all add: validate_ref_def sample_ref_def canonical_transport_def canonical_transport_name_def
      external_id_def nonblank_def nul_def text_eval del: bindr_eq_Inr)

lemma sample_bind: "fst (bind_pool sample_ext sample_pool (sample_ref ''codex'') 5 sample_db) = Inr ''s''"
proof -
  let ?r = "sample_ref ''codex''"
  define db1 where "db1 = set_turn ''s'' ?r 5 sample_db"
  have tables: "agents db1 = agents sample_db" "events db1 = []"
    by (simp_all add: db1_def set_turn_def sample_db_def)
  have match: "session_matches_reference sample_db ''s'' ?r = Inr True"
    unfolding session_matches_iff [OF sample_ref_valid(1)]
    by (simp add: session_key_def session_by_id_def sample_db_def ref_key_def sample_ref_def
        canonical_transport_def canonical_transport_name_def)
  obtain p where p: "pool_by_id sample_db sample_pool = Some p" "p_session p = Some ''s''"
    by (simp add: pool_by_id_def sample_db_def)
  have tips: "seat_tips sample_ext sample_db sample_pool = Inr [ag_a, ag_b]"
    by (simp add: seat_tips_def seats_by_slot_def sample_seats sample_member_def tip_of_def sample_tip
        del: bindr_eq_Inr)
  have bound: "bound_sessions sample_db ?r [ag_a, ag_b] = Inr [''s'', ''s'']"
    by (simp add: tip_session_def sample_tip match)
  have touch: "touch_session_reference sample_db ''s'' ?r 5 = Inr db1"
    by (simp add: touch_session_reference_def match db1_def)
  have "terminal_event db1 i = None" for i by (simp add: terminal_event_def tables)
  then have bind: "bind_tips sample_ext ''s'' 5 [ag_a, ag_b] db1 = Inr db1"
    by (simp add: bind_tip_def tip_session_def sample_tip [OF tables(1)] ensure_bound_terminal_notice_def)
  show ?thesis
    by (simp add: bind_pool_def bind_pool_tx_def bind_members_def sample_ref_valid p match tips bound
        pool_session_for_def touch bind del: bound_sessions.simps bind_tips.simps)
qed

theorem binding_immutable_witness:
  "\<exists>db'. bind_pool sample_ext sample_pool (sample_ref ''codex'') 5 sample_db = (Inr ''s'', db')
     \<and> bind_pool sample_ext sample_pool (sample_ref ''opencode'') 6 db' =
        (Inl (Validation ''pool orchestration binding is immutable''), db')"
proof -
  obtain db' where b: "bind_pool sample_ext sample_pool (sample_ref ''codex'') 5 sample_db = (Inr ''s'', db')"
    using sample_bind by (metis prod.collapse)
  have "distinct (map s_id (sessions sample_db))"
    "''os-'' @ x_uuid sample_ext (length (sessions sample_db)) \<notin> s_id ` set (sessions sample_db)"
    "ref_key (sample_ref ''opencode'') \<noteq> ref_key (sample_ref ''codex'')"
    by (simp_all add: sample_db_def ref_key_def sample_ref_def canonical_transport_def canonical_transport_name_def)
  from binding_immutable [OF b this(1,2) sample_ref_valid(2) this(3)] b show ?thesis by blast
qed

end
