(* ===== verification/PoolBudgets.thy ===== *)
theory PoolBudgets
  imports PoolLogFacts PoolBinding
begin

text \<open>
  The budgets of the pool log as an invariant of its rows, and what each store operation does to them.
\<close>

section \<open>Budgets\<close>

definition ack_seqs :: "db \<Rightarrow> nat set" where
  "ack_seqs db = {n. \<exists>j \<in> set (enrollments db). j_ack_seq j = Some n}"

text \<open>Chat other than the one reserved acknowledgement of each enrolled member.\<close>

definition ordinary_chat :: "db \<Rightarrow> string \<Rightarrow> entry_row list" where
  "ordinary_chat db pool = filter (\<lambda>e. e_seq e \<notin> ack_seqs db) (chat_rows db pool)"

definition chat_ok :: "db \<Rightarrow> string \<Rightarrow> bool" where
  "chat_ok db pool \<longleftrightarrow> length (ordinary_chat db pool) \<le> 200
     \<and> sum_list (map (length \<circ> e_body) (ordinary_chat db pool)) \<le> 262144"

definition control_row :: "entry_row \<Rightarrow> bool" where
  "control_row e \<longleftrightarrow> e_kind e = RevokeEntry \<or> e_decision e = Some Block"

definition votes_ok :: "db \<Rightarrow> string \<Rightarrow> string \<Rightarrow> nat \<Rightarrow> bool" where
  "votes_ok db pool member proposal \<longleftrightarrow> votes_spent db pool member proposal \<le> 8
     \<and> (votes_spent db pool member proposal = 8 \<longrightarrow>
          (\<exists>e. latest_vote_row db pool member proposal = Some e \<and> control_row e))"

definition budgets :: "db \<Rightarrow> bool" where
  "budgets db \<longleftrightarrow>
     (\<forall>pool. chat_ok db pool \<and> length (proposal_rows db pool) \<le> 20
        \<and> (\<forall>member proposal. votes_ok db pool member proposal))"

definition enroll_wf :: "db \<Rightarrow> bool" where
  "enroll_wf db \<longleftrightarrow> distinct (map j_agent (enrollments db))
     \<and> (\<forall>j \<in> set (enrollments db). j_state j = EnrollJoined \<or> j_ack_seq j = None)"

lemma pin_sets:
  assumes "map pin (enrollments db') = map pin (enrollments db)"
  shows "ack_seqs db' = ack_seqs db" and "enroll_wf db' = enroll_wf db"
proof -
  have "ack_seqs d = {n. \<exists>q \<in> set (map pin (enrollments d)). snd (snd (snd (snd (snd q)))) = Some n}" for d
    by (simp add: ack_seqs_def pin_def)
  then show "ack_seqs db' = ack_seqs db" by (simp only: assms)
  have "enroll_wf d \<longleftrightarrow> distinct (map fst (map pin (enrollments d)))
      \<and> (\<forall>q \<in> set (map pin (enrollments d)). fst (snd (snd (snd (snd q)))) \<or> snd (snd (snd (snd (snd q)))) = None)" for d
    by (simp add: enroll_wf_def pin_def comp_def)
  then show "enroll_wf db' = enroll_wf db" by (simp only: assms)
qed

lemma budgets_cong:
  assumes "entries db' = entries db" and "ack_seqs db' = ack_seqs db"
  shows "budgets db' = budgets db"
  unfolding budgets_def chat_ok_def votes_ok_def ordinary_chat_def chat_rows_def proposal_rows_def votes_spent_def
    latest_vote_row_def pool_entries_def assms by (rule refl)

section \<open>Appending one entry\<close>

lemma pool_entries_snoc:
  assumes "entries db' = entries db @ [e]"
  shows "pool_entries db' pool = pool_entries db pool @ (if e_pool e = pool then [e] else [])"
  using assms by (simp add: pool_entries_def)

lemma chat_ok_snoc:
  assumes "chat_ok db pool" and "entries db' = entries db @ [e]" and "ack_seqs db \<subseteq> ack_seqs db'"
    and "e_kind e = MessageEntry \<Longrightarrow> e_pool e = pool \<Longrightarrow>
      e_seq e \<in> ack_seqs db' \<or> \<not> chat_exhausted db pool (e_body e)"
  shows "chat_ok db' pool"
proof -
  define new where "new = (if e_pool e = pool \<and> e_kind e = MessageEntry \<and> e_seq e \<notin> ack_seqs db' then [e] else [])"
  have o: "ordinary_chat db' pool = filter (\<lambda>e. e_seq e \<notin> ack_seqs db') (ordinary_chat db pool) @ new"
    using assms(3) by (auto simp: ordinary_chat_def chat_rows_def pool_entries_snoc [OF assms(2)] new_def
        intro!: filter_cong)
  let ?old = "filter (\<lambda>e. e_seq e \<notin> ack_seqs db') (ordinary_chat db pool)"
  have sub2: "sum_list (map (length \<circ> e_body) (filter P es)) \<le> sum_list (map (length \<circ> e_body) es)"
    for P and es :: "entry_row list" by (induction es) auto
  show ?thesis
  proof (cases "new = []")
    case True
    have "length ?old \<le> length (ordinary_chat db pool)" by (rule length_filter_le)
    with assms(1) sub2 [of "\<lambda>e. e_seq e \<notin> ack_seqs db'" "ordinary_chat db pool"]
    show ?thesis unfolding chat_ok_def o True append_Nil2 by linarith
  next
    case False
    then have n: "new = [e]" and "\<not> chat_exhausted db pool (e_body e)"
      using assms(4) by (auto simp: new_def split: if_split_asm)
    then have "length (chat_rows db pool) < 200" "chat_bytes db pool + length (e_body e) \<le> 262144"
      by (simp_all add: chat_exhausted_def CHAT_ROW_BUDGET_def CHAT_BYTE_BUDGET_def not_le not_less)
    moreover have "length (ordinary_chat db pool) \<le> length (chat_rows db pool)"
      "sum_list (map (length \<circ> e_body) (ordinary_chat db pool)) \<le> chat_bytes db pool"
      unfolding ordinary_chat_def chat_bytes_def by (rule length_filter_le, rule sub2)
    moreover have "length ?old \<le> length (ordinary_chat db pool)"
      "sum_list (map (length \<circ> e_body) ?old) \<le> sum_list (map (length \<circ> e_body) (ordinary_chat db pool))"
      by (rule length_filter_le, rule sub2)
    moreover have "length (?old @ [e]) = Suc (length ?old)"
      "sum_list (map (length \<circ> e_body) (?old @ [e])) = sum_list (map (length \<circ> e_body) ?old) + length (e_body e)"
      by simp_all
    ultimately have "length (?old @ [e]) \<le> 200" "sum_list (map (length \<circ> e_body) (?old @ [e])) \<le> 262144"
      by linarith+
    then show ?thesis unfolding chat_ok_def o n by blast
  qed
qed

lemma proposals_snoc:
  assumes "length (proposal_rows db pool) \<le> 20" and "entries db' = entries db @ [e]"
    and "e_kind e = ProposalEntry \<Longrightarrow> e_pool e = pool \<Longrightarrow> length (proposal_rows db pool) < 20"
  shows "length (proposal_rows db' pool) \<le> 20"
  using assms by (auto simp: proposal_rows_def pool_entries_snoc [OF assms(2)])

lemma votes_snoc:
  assumes "votes_ok db pool member proposal" and "entries db' = entries db @ [e]" and "log_wf db"
    and "e_seq e = Suc (entry_seq db)"
    and "is_vote_on member proposal e \<Longrightarrow> e_pool e = pool \<Longrightarrow>
      votes_spent db pool member proposal < 8 \<and> (votes_spent db pool member proposal = 7 \<longrightarrow> control_row e)"
  shows "votes_ok db' pool member proposal"
proof (cases "is_vote_on member proposal e \<and> e_pool e = pool")
  case True
  let ?old = "filter (is_vote_on member proposal) (pool_entries db pool)"
  have rows: "filter (is_vote_on member proposal) (pool_entries db' pool) = ?old @ [e]"
    using True by (simp add: pool_entries_snoc [OF assms(2)])
  have "e_seq f < e_seq e" if "f \<in> set ?old" for f
    using that assms(3,4) by (auto simp: pool_entries_def log_wf_def less_Suc_eq_le)
  then have "latest_vote_row db' pool member proposal = Some e"
    unfolding latest_vote_row_def rows by (rule max_row_append_greatest)
  moreover have "votes_spent db' pool member proposal = Suc (votes_spent db pool member proposal)"
    by (simp add: votes_spent_def rows)
  ultimately show ?thesis using assms(5) True by (auto simp: votes_ok_def)
next
  case False
  then have "filter (is_vote_on member proposal) (pool_entries db' pool) =
      filter (is_vote_on member proposal) (pool_entries db pool)"
    by (auto simp: pool_entries_snoc [OF assms(2)])
  with assms(1) show ?thesis by (simp add: votes_ok_def votes_spent_def latest_vote_row_def)
qed

lemma budgets_snoc:
  assumes "budgets db" and "log_wf db" and "entries db' = entries db @ [e]" and "e_seq e = Suc (entry_seq db)"
    and "ack_seqs db \<subseteq> ack_seqs db'"
    and "e_kind e = MessageEntry \<Longrightarrow> e_seq e \<in> ack_seqs db' \<or> \<not> chat_exhausted db (e_pool e) (e_body e)"
    and "e_kind e = ProposalEntry \<Longrightarrow> length (proposal_rows db (e_pool e)) < 20"
    and "\<And>member proposal. is_vote_on member proposal e \<Longrightarrow> votes_spent db (e_pool e) member proposal < 8
      \<and> (votes_spent db (e_pool e) member proposal = 7 \<longrightarrow> control_row e)"
  shows "budgets db'"
proof -
  have "chat_ok db' pool" for pool
    using assms(1) assms(6) by (intro chat_ok_snoc [OF _ assms(3,5)]) (auto simp: budgets_def)
  moreover have "length (proposal_rows db' pool) \<le> 20" for pool
    using assms(1) assms(7) by (intro proposals_snoc [OF _ assms(3)]) (auto simp: budgets_def)
  moreover have "votes_ok db' pool member proposal" for pool member proposal
    using assms(1) assms(8) by (intro votes_snoc [OF _ assms(3,2,4)]) (auto simp: budgets_def)
  ultimately show ?thesis by (simp add: budgets_def)
qed

section \<open>Writes\<close>

lemma stamped_simps [simp]:
  "e_pool (stamped x m run attempt n) = mb_pool_id m" "e_kind (stamped x m run attempt n) = ne_kind n"
  "e_body (stamped x m run attempt n) = ne_body n" "e_decision (stamped x m run attempt n) = ne_decision n"
  "e_proposal_seq (stamped x m run attempt n) = ne_proposal n"
  "e_author_agent (stamped x m run attempt n) = Some (mb_seat_agent_id m)"
  "e_idem_scope (stamped x m run attempt n) = run" "e_request_id (stamped x m run attempt n) = ne_request_id n"
  by (simp_all add: stamped_def)

lemma new_entry_simps [simp]:
  "ne_kind (message_entry i) = MessageEntry" "ne_kind (proposal_entry p) = ProposalEntry"
  "ne_kind (vote_entry q v) = vote_kind (pv_decision v)" "ne_body (message_entry i) = pm_message i"
  "ne_proposal (message_entry i) = None" "ne_proposal (proposal_entry p) = None"
  "ne_proposal (vote_entry q v) = Some q" "ne_decision (vote_entry q v) = vote_decision_column (pv_decision v)"
  by (simp_all add: message_entry_def proposal_entry_def vote_entry_def)

lemma vote_kind_neq [simp]: "vote_kind d \<noteq> MessageEntry" "vote_kind d \<noteq> ProposalEntry"
  by (simp_all add: vote_kind_def)

lemma ack_row_seqs:
  assumes "enroll_wf db" and "enrollments db' = map (ack_row x seq rt) (enrollments db)"
  shows "ack_seqs db \<subseteq> ack_seqs db'" and "enroll_wf db'"
    and "enrollment_of db rt = Some j \<Longrightarrow> j_state j \<noteq> EnrollJoined \<Longrightarrow> seq \<in> ack_seqs db'"
proof -
  show "ack_seqs db \<subseteq> ack_seqs db'"
    using assms by (fastforce simp: ack_seqs_def enroll_wf_def ack_row_def)
  have "j_agent \<circ> ack_row x seq rt = j_agent" by (simp add: fun_eq_iff ack_row_def)
  moreover have "j_state (ack_row x seq rt j) = EnrollJoined \<or> j_ack_seq (ack_row x seq rt j) = None"
    if "j_state j = EnrollJoined \<or> j_ack_seq j = None" for j
    using that by (simp add: ack_row_def)
  ultimately show "enroll_wf db'" using assms by (simp add: enroll_wf_def)
  assume j: "enrollment_of db rt = Some j" "j_state j \<noteq> EnrollJoined"
  then have "j \<in> set (enrollments db)" "j_agent j = rt"
    by (auto simp: enrollment_of_def dest: find_Some_in)
  moreover from this have "j_ack_seq (ack_row x seq rt j) = Some seq" using j(2) by (simp add: ack_row_def)
  ultimately show "seq \<in> ack_seqs db'" unfolding ack_seqs_def assms(2) by auto
qed

lemma appends_log_wf:
  assumes "appends x run attempt w m ack seq db db'" and "log_wf db"
  shows "log_wf db'"
proof -
  have "entries db' = entries db @ [(stamped x m run attempt (entry_of_write w))\<lparr> e_seq := seq \<rparr>]"
    "seq = Suc (entry_seq db)" "entry_seq db' = seq" "entry_constraints x db (stamped x m run attempt (entry_of_write w))"
    using assms(1) by (simp_all add: appends_def)
  then have "insert_entry x Conflict (stamped x m run attempt (entry_of_write w)) db =
      Inr (seq, db\<lparr> entries := entries db', entry_seq := seq \<rparr>)" and s: "entry_seq db' = seq"
    by (simp_all add: insert_entry_Inr)
  from insert_entry_wf [OF assms(2) this(1)] show ?thesis
    using log_wf_cong [of db' "db\<lparr> entries := entries db', entry_seq := seq \<rparr>"] s by simp
qed

lemma appends_budgets:
  assumes "appends x run attempt w m ack seq db db'" and "budgets db" and "log_wf db" and "enroll_wf db"
  shows "budgets db' \<and> enroll_wf db'"
proof -
  let ?e = "(stamped x m run attempt (entry_of_write w))\<lparr> e_seq := seq \<rparr>"
  have a: "entries db' = entries db @ [?e]" "seq = Suc (entry_seq db)" "write_allowed db m ack w"
    "ack_allowed db (mb_seat_agent_id m) run attempt (ack_request w) = Inr ack" "entry_seq db' = seq"
    "enrollments db' = (if ack then map (ack_row x seq (mb_seat_agent_id m)) (enrollments db) else enrollments db)"
    using assms(1) by (simp_all add: appends_def)
  have ack: "ack \<Longrightarrow> \<exists>j. enrollment_of db (mb_seat_agent_id m) = Some j \<and> j_state j \<noteq> EnrollJoined"
    using a(4) by (auto simp: ack_allowed_def split: option.splits if_split_asm)
  have en: "ack_seqs db \<subseteq> ack_seqs db' \<and> enroll_wf db' \<and> (ack \<longrightarrow> seq \<in> ack_seqs db')"
  proof (cases ack)
    case True
    with a(6) ack ack_row_seqs [OF assms(4), of db' x seq "mb_seat_agent_id m"] show ?thesis by auto
  next
    case False
    with a(6) have "enrollments db' = enrollments db" by simp
    with assms(4) False show ?thesis by (simp add: ack_seqs_def enroll_wf_def)
  qed
  have "budgets db'"
  proof (rule budgets_snoc [OF assms(2,3) a(1)])
    show "e_seq ?e = Suc (entry_seq db)" by (simp add: a(2))
    show "ack_seqs db \<subseteq> ack_seqs db'" using en by blast
    show "e_seq ?e \<in> ack_seqs db' \<or> \<not> chat_exhausted db (e_pool ?e) (e_body ?e)" if "e_kind ?e = MessageEntry"
      using that a(3) en by (cases w) auto
    show "length (proposal_rows db (e_pool ?e)) < 20" if "e_kind ?e = ProposalEntry"
      using that a(3) by (cases w) (auto simp: PROPOSAL_BUDGET_def)
    show "votes_spent db (e_pool ?e) member proposal < 8
        \<and> (votes_spent db (e_pool ?e) member proposal = 7 \<longrightarrow> control_row ?e)"
      if v: "is_vote_on member proposal ?e" for member proposal
    proof -
      obtain i where w: "w = WVote i" using v by (cases w) (auto simp: is_vote_on_def)
      have "member = mb_seat_agent_id m" "proposal = pv_proposal_seq i"
        using v by (auto simp: is_vote_on_def w)
      then show ?thesis using a(3) by (cases "pv_decision i")
        (auto simp: w vote_budget_exhausted_def VOTE_ROW_BUDGET_def control_row_def vote_kind_def
          vote_decision_column_def)
    qed
  qed
  then show ?thesis using en by blast
qed

end
