(* ===== verification/WorkerReports.thy ===== *)
theory WorkerReports
  imports Sample
begin

text \<open>
  The properties of the worker reports of \<^verbatim>\<open>crates/agent-run-store/src/worker.rs\<close>: their limits, their
  replay, and the binding of a capability to one attempt.
\<close>

text \<open>
  C30 (invariant). Reports stay within their limits whatever a worker sends: at most 20 per run, every two
  of one run at least 30 seconds apart. A refused report changes nothing; an accepted one keeps the log
  well formed and only appends to it.
\<close>

theorem notify_limits:
  assumes "report_limits db" and "log_wf db"
    and "notify_orchestrator x run attempt token input tm db = (res, db')"
  shows "report_limits db' \<and> log_wf db' \<and> prefix (entries db) (entries db')
    \<and> (case res of Inl e \<Rightarrow> db' = db | Inr r \<Rightarrow> (if nt_duplicate r then db' = db
         else length (run_reports db' run) = Suc (length (run_reports db run))))"
proof (cases "notify_orchestrator_tx x db run attempt token input tm")
  case (Inl e)
  with assms show ?thesis by (auto simp: notify_orchestrator_def)
next
  case (Inr a)
  obtain r where a: "a = (r, db')" and res: "res = Inr r"
    using Inr assms(3) by (cases a) (simp add: notify_orchestrator_def)
  from Inr [unfolded a] obtain t auth session where
    "accept_report x auth session run attempt input t db = Inr (r, db')"
    by (auto simp: notify_tx_Inr)
  then show ?thesis
  proof (cases rule: accept_report_cases)
    case replay
    with assms res show ?thesis by simp
  next
    case new
    note q = queue_report_Inr [OF new(4)]
    have rows: "run_reports db' u = run_reports db u @
        (if run = u then [report_row x db run attempt input t] else [])" for u
      using run_reports_snoc [OF q(3)] by (simp add: report_row_def)
    have "length (run_reports db' u) \<le> 20" for u
      using assms(1) new(2) by (auto simp: rows report_limits_def MAX_MESSAGES_def)
    moreover have "sorted_wrt (\<lambda>a b. a + 30 \<le> b) (map n_created_at (run_reports db' u))" for u
      using assms(1) new(3)
      by (auto simp: rows report_limits_def MIN_INTERVAL_def sorted_wrt_append report_row_def)
    ultimately show ?thesis
      using q assms(2) res by (simp add: report_limits_def rows report_receipt_def)
  qed
qed

lemma find_unique:
  assumes "v \<in> set xs" and "P v" and "\<And>w. w \<in> set xs \<Longrightarrow> P w \<Longrightarrow> w = v"
  shows "find P xs = Some v"
proof (cases "find P xs")
  case None
  with assms(1,2) show ?thesis by (auto simp: find_None_iff)
next
  case (Some w)
  have "w = v" using find_Some_in [OF Some] by (intro assms(3)) simp_all
  with Some show ?thesis by simp
qed

lemma report_row_simps [simp]:
  "n_delivery (report_row x db run attempt input t) = notification_id x db"
  "n_agent (report_row x db run attempt input t) = run"
  "n_request_id (report_row x db run attempt input t) = nr_request_id input"
  "n_kind (report_row x db run attempt input t) = nr_kind input"
  "n_message (report_row x db run attempt input t) = nr_message input"
  by (simp_all add: report_row_def)

lemma new_delivery_simps [simp]:
  "d_id (new_delivery i agent session event state tm) = i"
  "d_state (new_delivery i agent session event state tm) = state"
  by (simp_all add: new_delivery_def)

text \<open>The report just accepted is the one a later request of its key finds.\<close>

lemma accepted_prior:
  assumes "accept_report x auth session run attempt input t db = Inr (r, db')"
    and "\<forall>n \<in> set (notifications db). n_delivery n \<in> d_id ` set (deliveries db)"
    and "notification_id x db \<notin> d_id ` set (deliveries db)"
  shows "\<exists>n d. prior_report db' run (nr_request_id input) = Some (n, d)
    \<and> n_kind n = nr_kind input \<and> n_message n = nr_message input
    \<and> r\<lparr> nt_duplicate := True \<rparr> = \<lparr> nt_notification_id = n_delivery n, nt_state = d_state d, nt_duplicate = True \<rparr>"
proof (cases "prior_report db run (nr_request_id input)")
  case (Some nd)
  with assms(1) show ?thesis by (cases nd) (auto simp: accept_report_def split: if_splits)
next
  case None
  with assms(1) have q: "queue_report x auth session run attempt input t db = Inr (r, db')"
    by (auto simp: accept_report_def split: if_splits)
  note eff = queue_report_Inr [OF q]
  let ?n = "report_row x db run attempt input t"
  let ?d = "new_delivery (notification_id x db) run (Some session) (Suc (event_seq db)) ''pending'' (Some t)"
  have old: "\<not> (n_agent n = run \<and> n_request_id n = nr_request_id input \<and> d_id d = n_delivery n)"
    if "n \<in> set (notifications db)" "d \<in> set (deliveries db)" for n d
    using None that by (auto simp: prior_report_def find_None_iff)
  have only: "n = ?n \<and> d = ?d"
    if "n \<in> set (notifications db @ [?n])" "d \<in> set (deliveries db @ [?d])"
      "n_agent n = run" "n_request_id n = nr_request_id input" "d_id d = n_delivery n" for n d
  proof (cases "n \<in> set (notifications db)")
    case True
    then have "d \<noteq> ?d" using assms(2,3) that(5) by force
    with that old [OF True, of d] show ?thesis by simp
  next
    case False
    then have n: "n = ?n" using that(1) by simp
    then have "d_id d = notification_id x db" using that(5) by simp
    then have "d \<notin> set (deliveries db)" using assms(3) by force
    with that(2) n show ?thesis by simp
  qed
  have "prior_report db' run (nr_request_id input) = Some (?n, ?d)"
    unfolding prior_report_def eff(3,4)
  proof (rule find_unique)
    fix w :: "notification_row \<times> delivery_row"
    obtain n d where w: "w = (n, d)" by fastforce
    assume "w \<in> set (List.product (notifications db @ [?n]) (deliveries db @ [?d]))"
      and "case w of (n, d) \<Rightarrow> n_agent n = run \<and> n_request_id n = nr_request_id input \<and> d_id d = n_delivery n"
    then have "n = ?n \<and> d = ?d"
      unfolding w set_product mem_Times_iff fst_conv snd_conv prod.case by (elim conjE, intro only)
    then show "w = (?n, ?d)" by (simp add: w)
  qed simp_all
  then show ?thesis using eff(1) by (simp add: report_receipt_def)
qed

lemma report_sender_cong:
  assumes "same_core db db'" and "time_of tm \<noteq> None" and "time_of tm' \<noteq> None"
  shows "report_sender x db' run attempt token tm' = report_sender x db run attempt token tm"
  unfolding report_sender_def authenticate_same_core [OF assms(1)] bound_session_same_core [OF assms(1)]
    authenticate_time [OF assms(3,2)] by (rule refl)

lemma accept_report_same_core: "accept_report x auth session run attempt input t db = Inr (r, db') \<Longrightarrow> same_core db db'"
  by (erule accept_report_cases) (simp_all add: queue_report_Inr)

text \<open>
  C31 (functional). A report is idempotent under its request key: repeating an accepted report, at any valid
  later time, returns the same notification marked as a duplicate and changes nothing, and another report
  under the same key of the run is refused as a conflict and changes nothing.
\<close>

theorem notify_replay:
  assumes "notify_orchestrator x run attempt token input tm db = (Inr r, db')"
    and "\<forall>n \<in> set (notifications db). n_delivery n \<in> d_id ` set (deliveries db)"
    and "notification_id x db \<notin> d_id ` set (deliveries db)"
    and "nr_request_id again = nr_request_id input" and "time_of tm' \<noteq> None"
    and "validate_notify again = Inr ()" and "\<not> str_contains (nr_message again) token"
  shows "notify_orchestrator x run attempt token again tm' db' =
    (if nr_kind again = nr_kind input \<and> nr_message again = nr_message input
     then Inr (r\<lparr> nt_duplicate := True \<rparr>) else Inl Conflict, db')"
proof -
  obtain t' where t': "time_of tm' = Some t'" using assms(5) by blast
  from assms(1) have "notify_orchestrator_tx x db run attempt token input tm = Inr (r, db')"
    by (auto simp: notify_orchestrator_def commit_def split: sum.splits prod.splits)
  then obtain t auth session where tok: "valid_token token" and t: "time_of tm = Some t"
    and sender: "report_sender x db run attempt token tm = Inr (auth, session)"
    and acc: "accept_report x auth session run attempt input t db = Inr (r, db')"
    by (auto simp: notify_tx_Inr)
  have "report_sender x db' run attempt token tm' = Inr (auth, session)"
    using report_sender_cong [OF accept_report_same_core [OF acc], of tm tm' x run attempt token] t t' sender
    by simp
  moreover obtain n d where "prior_report db' run (nr_request_id input) = Some (n, d)"
    "n_kind n = nr_kind input" "n_message n = nr_message input"
    "r\<lparr> nt_duplicate := True \<rparr> = \<lparr> nt_notification_id = n_delivery n, nt_state = d_state d, nt_duplicate = True \<rparr>"
    using accepted_prior [OF acc assms(2,3)] by blast
  ultimately show ?thesis
    using assms(4,6,7) t' tok
    unfolding notify_orchestrator_def notify_orchestrator_tx_def accept_report_def by simp
qed

text \<open>Authentication succeeds only for the holder of the stored secret of a live, owned attempt.\<close>

lemma authenticate_sound:
  assumes "authenticate_attempt x db run attempt token tm = Inr (Some auth)"
  obtains c t a where "capability_of db attempt = Some c" "k_token_sha256 c = x_sha256 x token"
    "t \<in> set (attempts db)" "owned_live run attempt t"
    "a \<in> set (agents db)" "a_id a = run" "a_finished_at a = None" "au_session auth = a_session a"
    "au_running auth \<Longrightarrow> a_status a = Running"
proof -
  from assms obtain t c a where "find (owned_live run attempt) (attempts db) = Some t"
    "capability_of db attempt = Some c" "k_token_sha256 c = x_sha256 x token"
    "find (\<lambda>a. a_id a = run \<and> a_finished_at a = None) (agents db) = Some a"
    "au_session auth = a_session a" "au_running auth \<longrightarrow> a_status a = Running"
    by (auto simp: authenticate_attempt_def split: if_splits option.splits)
  then show thesis using that by (auto dest!: find_Some_in)
qed

lemma issue_Inr:
  assumes "issue_worker_capability x run attempt token tm db = (Inr (), db')"
  obtains c t where "capability_of db' attempt = Some c" "k_token_sha256 c = x_sha256 x token"
    "time_of tm = Some t" "list_ex (owned_live run attempt) (attempts db')"
    "attempts db' = attempts db" "agents db' = agents db"
  using assms
  by (auto simp: issue_worker_capability_def issue_worker_capability_tx_def Let_def commit_def
      capability_of_def find_append
      split: option.splits bool.splits if_splits sum.splits prod.splits)

text \<open>
  C35 (safety). A capability is bound once: after a secret is issued for an attempt, issuing it again is
  harmless, every other secret is refused as a conflict, and no secret with another digest authenticates
  that attempt.
\<close>

theorem capability_once:
  assumes "issue_worker_capability x run attempt token tm db = (Inr (), db')"
    and "valid_token other" and "time_of tm' \<noteq> None"
  shows "issue_worker_capability x run attempt other tm' db' =
      (if x_sha256 x other = x_sha256 x token then Inr () else Inl Conflict, db')
    \<and> (\<forall>auth. authenticate_attempt x db' run attempt other tm' = Inr (Some auth) \<longrightarrow>
          x_sha256 x other = x_sha256 x token)"
  using assms(1)
proof (rule issue_Inr)
  fix c t
  assume c: "capability_of db' attempt = Some c" "k_token_sha256 c = x_sha256 x token"
    and own: "list_ex (owned_live run attempt) (attempts db')"
  obtain t' where "time_of tm' = Some t'" using assms(3) by blast
  with c own assms(2) have "issue_worker_capability x run attempt other tm' db' =
      (if x_sha256 x other = x_sha256 x token then Inr () else Inl Conflict, db')"
    by (simp add: issue_worker_capability_def issue_worker_capability_tx_def Let_def)
  moreover have "x_sha256 x other = x_sha256 x token"
    if "authenticate_attempt x db' run attempt other tm' = Inr (Some auth)" for auth
    using that c by (auto elim: authenticate_sound)
  ultimately show ?thesis by blast
qed

theorem capability_once_witness:
  "issue_worker_capability sample_ext ag_a (''t'' @ ag_a) sample_token (Finite 1)
      (snd (issue_worker_capability sample_ext ag_a (''t'' @ ag_a) sample_token (Finite 0)
        (sample_db\<lparr> capabilities := [] \<rparr>)))
    = (Inr (), snd (issue_worker_capability sample_ext ag_a (''t'' @ ag_a) sample_token (Finite 0)
        (sample_db\<lparr> capabilities := [] \<rparr>)))"
proof -
  let ?r = "issue_worker_capability sample_ext ag_a (''t'' @ ag_a) sample_token (Finite 0)
    (sample_db\<lparr> capabilities := [] \<rparr>)"
  have "fst ?r = Inr ()"
    by (simp add: issue_worker_capability_def issue_worker_capability_tx_def Let_def time_of_def
        capability_of_def sample_db_def)
  then have "?r = (Inr (), snd ?r)" by (metis prod.collapse)
  from capability_once [OF this sample_token_valid, of "Finite 1"] show ?thesis
    by (simp add: time_of_def)
qed

subsection \<open>Concrete reports\<close>

definition sample_report :: notify_request where
  "sample_report = \<lparr> nr_request_id = ''k'', nr_kind = Notice, nr_message = ''m'' \<rparr>"

lemma sample_report_valid [simp]: "validate_notify sample_report = Inr ()"
  by (simp add: validate_notify_def sample_report_def request_key_def bounded_text_def text_eval
      del: bindr_eq_Inr)

lemma sample_report_token [simp]: "\<not> str_contains (nr_message sample_report) sample_token"
  by (auto simp: sample_report_def sample_token_def Cons_replicate_eq)

lemma sample_sender [simp]:
  "report_sender sample_ext sample_db ag_a (''t'' @ ag_a) sample_token (Finite 50) =
     Inr (\<lparr> au_root = ag_a, au_session = Some ''s'', au_running = True \<rparr>, ''s'')"
proof -
  have "bound_session sample_db \<lparr> au_root = ag_a, au_session = Some ''s'', au_running = True \<rparr> = Some ''s''"
    by (simp add: bound_session_def session_by_id_def sample_db_def canonical_transport_name_def)
  then show ?thesis using sample_auth [of 50] by (simp add: report_sender_def)
qed

lemma sample_report_accepted:
  "\<exists>r db'. notify_orchestrator sample_ext ag_a (''t'' @ ag_a) sample_token sample_report (Finite 50) sample_db
      = (Inr r, db') \<and> \<not> nt_duplicate r \<and> length (entries db') = 1"
proof -
  let ?n = "record_report sample_ext ''s'' ag_a (''t'' @ ag_a) sample_report 50 sample_db"
  let ?auth = "\<lparr> au_root = ag_a, au_session = Some ''s'', au_running = True \<rparr>"
  obtain p where seat: "open_seat sample_db ag_a = Some (sample_member ag_a 0, p)"
    and p: "p_id p = sample_pool" "p_roster_revision p = 1"
    by (simp add: open_seat_def sample_db_def sample_member_def)
  have seat': "open_seat ?n ag_a = Some (sample_member ag_a 0, p)"
    using seat record_report_simps(1) [of sample_db sample_ext "''s''" ag_a "''t'' @ ag_a" sample_report 50]
    by (simp add: open_seat_def same_core_def)
  let ?e = "report_entry (sample_member ag_a 0) p ag_a ag_a (''t'' @ ag_a)
    (notification_id sample_ext sample_db) sample_report 50"
  have shape: "entry_shape ?e" by (simp add: entry_shape_def report_entry_def)
  have sizes: "entry_sizes sample_ext ?e"
    using sample_scope(2) p
    by (simp add: entry_sizes_def report_entry_def sample_report_def chars_ascii is_ascii_def)
  have refs: "entry_references ?n ?e"
    using record_report_simps(1) [of sample_db sample_ext "''s''" ag_a "''t'' @ ag_a" sample_report 50] p
    by (simp add: entry_references_def report_entry_def same_core_def)
      (simp add: sample_db_def sample_member_def)
  have uniq: "entry_unique ?n ?e" by (simp add: entry_unique_def sample_db_def)
  define db2 where "db2 = ?n\<lparr> entries := entries ?n @ [?e\<lparr> e_seq := Suc (entry_seq ?n) \<rparr>],
    entry_seq := Suc (entry_seq ?n) \<rparr>"
  have ins: "insert_entry sample_ext constraint_failed ?e ?n = Inr (Suc (entry_seq ?n), db2)"
    using shape sizes refs uniq by (simp add: insert_entry_def entry_constraints_def db2_def Let_def)
  have core: "agents db2 = agents sample_db" "members db2 = members sample_db"
    using record_report_simps(1) [of sample_db sample_ext "''s''" ag_a "''t'' @ ag_a" sample_report 50]
    by (simp_all add: db2_def same_core_def)
  have len: "length (entries db2) = 1" by (simp add: db2_def sample_db_def)
  have queue: "\<exists>r db'. queue_report sample_ext ?auth ''s'' ag_a (''t'' @ ag_a) sample_report 50 sample_db = Inr (r, db')
      \<and> \<not> nt_duplicate r \<and> length (entries db') = 1"
    using seat' ins sample_fanout [OF core] len p(1)
    by (simp add: queue_report_def Let_def insert_command_def)
  have "prior_report sample_db ag_a (nr_request_id sample_report) = None" "run_reports sample_db ag_a = []"
    by (simp_all add: prior_report_def run_reports_def sample_db_def)
  moreover obtain r db' where
    "queue_report sample_ext ?auth ''s'' ag_a (''t'' @ ag_a) sample_report 50 sample_db = Inr (r, db')"
    "\<not> nt_duplicate r" "length (entries db') = 1"
    using queue by blast
  ultimately show ?thesis
    by (intro exI [of _ r] exI [of _ db'])
      (simp add: notify_orchestrator_def notify_orchestrator_tx_def accept_report_def time_of_def
        MAX_MESSAGES_def del: append.simps)
qed

theorem notify_limits_witness:
  "\<exists>r db'. notify_orchestrator sample_ext ag_a (''t'' @ ag_a) sample_token sample_report (Finite 50) sample_db
      = (Inr r, db') \<and> report_limits db' \<and> log_wf db' \<and> length (run_reports db' ag_a) = 1"
proof -
  obtain r db' where n: "notify_orchestrator sample_ext ag_a (''t'' @ ag_a) sample_token sample_report
      (Finite 50) sample_db = (Inr r, db')" "\<not> nt_duplicate r"
    using sample_report_accepted by blast
  have "report_limits sample_db" "run_reports sample_db ag_a = []"
    by (simp_all add: report_limits_def run_reports_def sample_db_def)
  with notify_limits [OF _ sample_log_wf n(1)] n show ?thesis by auto
qed

theorem notify_replay_witness:
  "\<exists>r db'. notify_orchestrator sample_ext ag_a (''t'' @ ag_a) sample_token sample_report (Finite 50) sample_db
      = (Inr r, db')
    \<and> notify_orchestrator sample_ext ag_a (''t'' @ ag_a) sample_token sample_report (Finite 51) db'
      = (Inr (r\<lparr> nt_duplicate := True \<rparr>), db')"
proof -
  obtain r db' where n: "notify_orchestrator sample_ext ag_a (''t'' @ ag_a) sample_token sample_report
      (Finite 50) sample_db = (Inr r, db')"
    using sample_report_accepted by blast
  have "notifications sample_db = []" "deliveries sample_db = []" by (simp_all add: sample_db_def)
  with notify_replay [OF n _ _ refl, of "Finite 51"] n show ?thesis by (simp add: time_of_def)
qed

end
