(* ===== verification/StoreRuns.thy ===== *)
theory StoreRuns
  imports PoolBudgets WorkerReports
begin

text \<open>
  The store operations of the pool and worker components as steps on one database, and the invariants that
  hold after every interleaving of them, whatever their arguments and outcomes.
\<close>

section \<open>Steps\<close>

datatype store_op =
    OpWrite string string string pool_write
  | OpPost string string string
  | OpNotify string string string notify_request f64
  | OpIssue string string string f64
  | OpCatalog worker_catalog_proof f64
  | OpReconcile string
  | OpSettle string
  | OpBind string orchestrator_ref rat

fun exec :: "ext \<times> store_op \<Rightarrow> db \<Rightarrow> db" where
  "exec (x, OpWrite run attempt token w) db = snd (pool_write x run attempt token w db)"
| "exec (x, OpPost pool request message) db = snd (pool_operator_post x pool request message db)"
| "exec (x, OpNotify run attempt token input tm) db = snd (notify_orchestrator x run attempt token input tm db)"
| "exec (x, OpIssue run attempt token tm) db = snd (issue_worker_capability x run attempt token tm db)"
| "exec (x, OpCatalog p tm) db = snd (register_worker_catalog x p tm db)"
| "exec (x, OpReconcile pool) db = snd (reconcile_pool_enrollments x pool db)"
| "exec (x, OpSettle pool) db = snd (settle_pool x pool db)"
| "exec (x, OpBind pool r tm) db = snd (bind_pool x pool r tm db)"

text \<open>
  The interface a run relies on: every step keeps the invariant and relates the states before and after by
  a preorder.
\<close>

locale kept_by_steps =
  fixes step :: "'o \<Rightarrow> 's \<Rightarrow> 's" and inv :: "'s \<Rightarrow> bool" and rel :: "'s \<Rightarrow> 's \<Rightarrow> bool"
  assumes rel_refl: "rel s s"
    and rel_trans: "rel s t \<Longrightarrow> rel t u \<Longrightarrow> rel s u"
    and step_keeps: "inv s \<Longrightarrow> inv (step a s) \<and> rel s (step a s)"
begin

lemma run_keeps: "inv s \<Longrightarrow> inv (fold step as s) \<and> rel s (fold step as s)"
proof (induction as arbitrary: s)
  case Nil
  then show ?case by (simp add: rel_refl)
next
  case (Cons a as)
  then show ?case using step_keeps [of s a] Cons.IH [of "step a s"] rel_trans by auto
qed

end

section \<open>The invariant\<close>

definition store_inv :: "db \<Rightarrow> bool" where
  "store_inv db \<longleftrightarrow> log_wf db \<and> enroll_wf db \<and> budgets db \<and> distinct (map p_id (pools db))"

text \<open>A completed pool keeps its completion and its log.\<close>

definition frozen :: "db \<Rightarrow> db \<Rightarrow> bool" where
  "frozen db db' \<longleftrightarrow>
     (\<forall>pool p. pool_by_id db pool = Some p \<and> p_state p = CompletedPool \<longrightarrow>
        (\<exists>p'. pool_by_id db' pool = Some p' \<and> p_state p' = CompletedPool
           \<and> p_completed_at p' = p_completed_at p \<and> p_completion_delivery p' = p_completion_delivery p)
        \<and> pool_entries db' pool = pool_entries db pool)"

definition extends :: "db \<Rightarrow> db \<Rightarrow> bool" where
  "extends db db' \<longleftrightarrow>
     prefix (entries db) (entries db') \<and> frozen db db' \<and> map p_id (pools db') = map p_id (pools db)"

lemma extends_refl: "extends db db"
  by (simp add: extends_def frozen_def)

lemma frozen_trans: "frozen a b \<Longrightarrow> frozen b c \<Longrightarrow> frozen a c"
  unfolding frozen_def by metis

lemma extends_trans: "extends a b \<Longrightarrow> extends b c \<Longrightarrow> extends a c"
  using frozen_trans prefix_order.trans unfolding extends_def by metis

text \<open>What one operation keeps: the log alone, and the log with the budgets it is filled under.\<close>

definition log_inv :: "db \<Rightarrow> bool" where
  "log_inv db \<longleftrightarrow> log_wf db \<and> distinct (map p_id (pools db))"

definition store_step :: "db \<Rightarrow> db \<Rightarrow> bool" where
  "store_step db db' \<longleftrightarrow>
     (log_inv db \<longrightarrow> log_inv db' \<and> extends db db') \<and> (store_inv db \<longrightarrow> store_inv db')"

lemma store_inv_log: "store_inv db \<Longrightarrow> log_inv db"
  by (simp add: store_inv_def log_inv_def)

lemma store_step_refl [simp]: "store_step db db"
  by (simp add: store_step_def extends_refl)

lemma store_step_trans: "store_step a b \<Longrightarrow> store_step b c \<Longrightarrow> store_step a c"
  unfolding store_step_def using extends_trans by blast

lemma store_stepI:
  assumes "log_inv db \<Longrightarrow> log_wf db' \<and> extends db db'" and "store_inv db \<Longrightarrow> enroll_wf db' \<and> budgets db'"
  shows "store_step db db'"
  using assms store_inv_log [of db] unfolding store_step_def store_inv_def log_inv_def extends_def by metis

text \<open>Pool rows may change only in ways that keep identities and completions.\<close>

definition pools_kept :: "db \<Rightarrow> db \<Rightarrow> bool" where
  "pools_kept db db' \<longleftrightarrow>
     (\<exists>f. pools db' = map f (pools db)
        \<and> (\<forall>p. p_id (f p) = p_id p \<and> (p_state p = CompletedPool \<longrightarrow> p_state (f p) = CompletedPool
              \<and> p_completed_at (f p) = p_completed_at p \<and> p_completion_delivery (f p) = p_completion_delivery p)))"

lemma pools_kept_same: "pools db' = pools db \<Longrightarrow> pools_kept db db'"
  unfolding pools_kept_def by (intro exI [of _ "\<lambda>p. p"]) simp

lemma pools_kept_complete: "pools db' = map (complete_pool pool tm d) (pools db) \<Longrightarrow> pools_kept db db'"
  unfolding pools_kept_def by (intro exI [of _ "complete_pool pool tm d"]) (simp add: complete_pool_def)

lemma pools_kept_session:
  "pools db' = map (\<lambda>p. if p_id p = pool then p\<lparr> p_session := Some s \<rparr> else p) (pools db) \<Longrightarrow> pools_kept db db'"
  unfolding pools_kept_def
  by (intro exI [of _ "\<lambda>p. if p_id p = pool then p\<lparr> p_session := Some s \<rparr> else p"]) simp

lemma pools_kept_distinct: "pools_kept db db' \<Longrightarrow> distinct (map p_id (pools db)) \<Longrightarrow> distinct (map p_id (pools db'))"
  by (auto simp: pools_kept_def comp_def)

lemma pools_kept_ids: "pools_kept db db' \<Longrightarrow> map p_id (pools db') = map p_id (pools db)"
  by (auto simp: pools_kept_def)

lemma pools_kept_frozen:
  assumes "pools_kept db db'" and "\<And>pool p. pool_by_id db pool = Some p \<Longrightarrow> p_state p = CompletedPool \<Longrightarrow>
      pool_entries db' pool = pool_entries db pool"
  shows "frozen db db'"
proof -
  from assms(1) obtain f where f: "pools db' = map f (pools db)" "\<forall>p. p_id (f p) = p_id p"
    "\<forall>p. p_state p = CompletedPool \<longrightarrow> p_state (f p) = CompletedPool
      \<and> p_completed_at (f p) = p_completed_at p \<and> p_completion_delivery (f p) = p_completion_delivery p"
    unfolding pools_kept_def by blast
  have "pool_by_id db' pool = map_option f (pool_by_id db pool)" for pool
    using f(1,2) by (simp add: pool_by_id_def find_map_same)
  with f(3) assms(2) show ?thesis by (simp add: frozen_def)
qed

text \<open>One entry for an open pool.\<close>

lemma open_append_frozen:
  assumes "pools db' = pools db" and "entries db' = entries db @ [e]" and "distinct (map p_id (pools db))"
    and "p \<in> set (pools db)" and "p_id p = e_pool e" and "p_state p = OpenPool"
  shows "extends db db'"
proof -
  have "pool_entries db' pool = pool_entries db pool" if "pool_by_id db pool = Some q" "p_state q = CompletedPool" for pool q
  proof -
    have "q \<in> set (pools db)" "p_id q = pool" using that(1) by (auto simp: pool_by_id_def dest: find_Some_in)
    then have "p = q" if "e_pool e = pool"
      using that assms(3-5) unfolding distinct_map by (metis inj_onD)
    then have "e_pool e \<noteq> pool" using assms(6) that(2) by auto
    then show ?thesis by (simp add: pool_entries_snoc [OF assms(2)])
  qed
  with pools_kept_frozen [OF pools_kept_same [OF assms(1)]] assms(1,2) show ?thesis by (simp add: extends_def)
qed

lemma store_step_entries:
  assumes "entries db' = entries db" and "entry_seq db' = entry_seq db"
    and "map pin (enrollments db') = map pin (enrollments db)" and "pools_kept db db'"
  shows "store_step db db'"
proof (rule store_stepI)
  have "pool_entries db' = pool_entries db" by (simp add: pool_entries_def assms(1) fun_eq_iff)
  then show "log_wf db' \<and> extends db db'" if "log_inv db"
    using that pools_kept_frozen [OF assms(4)] pools_kept_ids [OF assms(4)] log_wf_cong [OF assms(1,2)] assms(1)
    by (simp add: extends_def log_inv_def)
  show "enroll_wf db' \<and> budgets db'" if "store_inv db"
    using that pin_sets [OF assms(3)] budgets_cong [OF assms(1)] by (simp add: store_inv_def)
qed

lemma same_log_kept: "same_log db db' \<Longrightarrow> store_step db db'"
  by (rule store_step_entries) (auto simp: same_log_def intro: pools_kept_same pools_kept_complete)

section \<open>Every step keeps the invariant\<close>

lemma membership_open:
  assumes "authenticated_member x db run attempt token = Inr (Inr m)"
  shows "\<exists>p \<in> set (pools db). p_id p = mb_pool_id m \<and> p_state p = mb_state m"
  using assms
  by (fastforce simp: authenticated_member_def membership_def dest: find_Some_in
      split: option.splits if_split_asm)

lemma appends_kept:
  assumes "appends x run attempt w m ack seq db db'" and "authenticated_member x db run attempt token = Inr (Inr m)"
  shows "store_step db db'"
proof (rule store_stepI)
  have pools: "pools db' = pools db" using assms(1) by (simp add: appends_def same_core_def)
  have st: "mb_state m = OpenPool" using assms(1) by (simp add: appends_def)
  obtain p where p: "p \<in> set (pools db)" "p_id p = mb_pool_id m" "p_state p = OpenPool"
    using membership_open [OF assms(2)] st by auto
  have e: "entries db' = entries db @ [(stamped x m run attempt (entry_of_write w))\<lparr> e_seq := seq \<rparr>]"
    using assms(1) by (simp add: appends_def)
  show "log_wf db' \<and> extends db db'" if "log_inv db"
    using that open_append_frozen [OF pools e _ p(1)] p appends_log_wf [OF assms(1)] by (simp add: log_inv_def)
  show "enroll_wf db' \<and> budgets db'" if "store_inv db"
    using that appends_budgets [OF assms(1)] by (simp add: store_inv_def)
qed

lemma pool_write_kept: "store_step db (snd (pool_write x run attempt token w db))"
proof (cases "pool_write_tx x run attempt token w db")
  case (Inr od)
  obtain out db1 where od: "od = (out, db1)" by (cases od)
  from Inr [unfolded od] show ?thesis
  proof (cases rule: pool_write_tx_cases)
    case (appended m ack seq)
    let ?db2 = "snd (after_append x w (mb_pool_id m) seq db1)"
    have "same_log db1 ?db2"
      by (cases "parse_pool x (mb_pool_id m)"; cases w)
        (auto simp: after_append_def intro: settle_pool_log [OF surjective_pairing])
    then have "store_step db ?db2"
      using store_step_trans [OF appends_kept [OF appended(4,2)]] same_log_kept by blast
    with Inr od appended(1) show ?thesis by (simp add: pool_write_def)
  qed (use Inr od in \<open>simp_all add: pool_write_def\<close>)
qed (simp add: pool_write_def)

lemma posts_kept:
  assumes "posts x pool request message seq db db'"
  shows "store_step db db'"
proof (rule store_stepI)
  from assms(1) obtain p where p: "pool_by_id db pool = Some p" "p_state p = OpenPool"
    and chat: "\<not> chat_exhausted db pool message" and c: "entry_constraints x db (operator_entry x p request message)"
    and seq: "seq = Suc (entry_seq db)" "entry_seq db' = seq"
    and e: "entries db' = entries db @ [(operator_entry x p request message)\<lparr> e_seq := seq \<rparr>]"
    and core: "same_core db db'" and en: "enrollments db' = enrollments db"
    unfolding posts_def by blast
  have pools: "pools db' = pools db" using core by (simp add: same_core_def)
  have pid: "p_id p = pool" "p \<in> set (pools db)" using p(1) by (auto simp: pool_by_id_def dest: find_Some_in)
  let ?e = "(operator_entry x p request message)\<lparr> e_seq := seq \<rparr>"
  have shape: "e_pool ?e = pool" "e_kind ?e = MessageEntry" "e_body ?e = message" "e_seq ?e = seq"
    by (simp_all add: operator_entry_def pid)
  have i: "insert_entry x constraint_failed (operator_entry x p request message) db =
      Inr (seq, db\<lparr> entries := entries db', entry_seq := seq \<rparr>)"
    using c e seq by (simp add: insert_entry_Inr)
  show "log_wf db' \<and> extends db db'" if "log_inv db"
    using that insert_entry_wf [OF _ i] log_wf_cong [of db' "db\<lparr> entries := entries db', entry_seq := seq \<rparr>"] seq
      open_append_frozen [OF pools e _ pid(2)] p shape pid
    by (simp add: log_inv_def)
  have ack: "ack_seqs db' = ack_seqs db" by (simp add: ack_seqs_def en)
  show "enroll_wf db' \<and> budgets db'" if inv: "store_inv db"
  proof
    show "enroll_wf db'" using inv by (simp add: store_inv_def enroll_wf_def en)
    show "budgets db'"
    proof (rule budgets_snoc [OF _ _ e])
      show "is_vote_on member proposal ?e \<Longrightarrow> votes_spent db (e_pool ?e) member proposal < 8
          \<and> (votes_spent db (e_pool ?e) member proposal = 7 \<longrightarrow> control_row ?e)" for member proposal
        using shape(2) by (simp add: is_vote_on_def)
    qed (use inv chat shape seq ack in \<open>simp_all add: store_inv_def\<close>)
  qed
qed

lemma operator_post_kept: "store_step db (snd (pool_operator_post x pool request message db))"
proof (cases "pool_operator_post_tx x pool request message db")
  case (Inr od)
  obtain out db1 where od: "od = (out, db1)" by (cases od)
  from Inr [unfolded od] have "store_step db db1"
    by (cases rule: operator_post_cases) (use posts_kept in auto)
  with Inr od show ?thesis by (simp add: pool_operator_post_def)
qed (simp add: pool_operator_post_def)

lemma report_kept:
  assumes "queue_report x auth session run attempt input t db = Inr (r, db')"
  shows "store_step db db'"
proof -
  note q = queue_report_Inr [OF assms(1)]
  let ?db1 = "record_report x session run attempt input t db"
  have pools: "pools db' = pools db" using q(2) by (simp add: same_core_def)
  have ack: "ack_seqs db' = ack_seqs db" "enroll_wf db' = enroll_wf db"
    using q(7) by (simp_all add: ack_seqs_def enroll_wf_def)
  from assms(1) show ?thesis
  proof (cases rule: queue_report_cases)
    case alone
    have k: "pools_kept db db'" by (rule pools_kept_same [OF pools])
    show ?thesis
    proof (rule store_stepI)
      show "log_wf db' \<and> extends db db'" if "log_inv db"
        using that q(6) pools_kept_frozen [OF k] alone(2) pools by (simp add: extends_def pool_entries_def log_inv_def)
      show "enroll_wf db' \<and> budgets db'" if "store_inv db"
        using that budgets_cong [of db' db] ack alone(2) by (simp add: store_inv_def)
    qed
  next
    case (pool m p seq db2 cs n)
    note seat = pool(4)
    let ?e = "(report_entry m p (au_root auth) run attempt (notification_id x db) input t)\<lparr> e_seq := seq \<rparr>"
    have e: "entries db' = entries db @ [?e]" "seq = Suc (entry_seq db)"
      using pool(2,3) by (simp_all add: insert_entry_Inr)
    have p: "p \<in> set (pools db)" "p_state p = OpenPool" "e_pool ?e = p_id p" "e_kind ?e = ReportEntry"
      using seat record_report_simps(1) [of db x session run attempt input t]
      by (auto simp: open_seat_def report_entry_def same_core_def dest: find_Some_in)
    show ?thesis
    proof (rule store_stepI)
      show "log_wf db' \<and> extends db db'" if "log_inv db"
        using that q(6) open_append_frozen [OF pools e(1) _ p(1)] p by (simp add: log_inv_def)
      show "enroll_wf db' \<and> budgets db'" if inv: "store_inv db"
      proof
        show "enroll_wf db'" using inv ack by (simp add: store_inv_def)
        show "budgets db'"
        proof (rule budgets_snoc [OF _ _ e(1)])
          show "is_vote_on member proposal ?e \<Longrightarrow> votes_spent db (e_pool ?e) member proposal < 8
              \<and> (votes_spent db (e_pool ?e) member proposal = 7 \<longrightarrow> control_row ?e)" for member proposal
            using p(4) by (simp add: is_vote_on_def)
        qed (use inv p e ack in \<open>simp_all add: store_inv_def\<close>)
      qed
    qed
  qed
qed

lemma notify_kept: "store_step db (snd (notify_orchestrator x run attempt token input tm db))"
proof (cases "notify_orchestrator_tx x db run attempt token input tm")
  case (Inr rd)
  obtain r db1 where rd: "rd = (r, db1)" by (cases rd)
  from Inr [unfolded rd] obtain t auth session where
    "accept_report x auth session run attempt input t db = Inr (r, db1)" by (auto simp: notify_tx_Inr)
  then have "store_step db db1"
    by (cases rule: accept_report_cases) (use report_kept in auto)
  with Inr rd show ?thesis by (simp add: notify_orchestrator_def)
qed (simp add: notify_orchestrator_def)

lemma log_untouched:
  assumes "entries db' = entries db" and "entry_seq db' = entry_seq db" and "enrollments db' = enrollments db"
    and "pools_kept db db'"
  shows "store_step db db'"
  by (rule store_step_entries) (use assms in simp_all)

lemma issue_kept: "store_step db (snd (issue_worker_capability x run attempt token tm db))"
proof -
  obtain cs where "snd (issue_worker_capability x run attempt token tm db) = db\<lparr> capabilities := cs \<rparr>"
    by atomize_elim (auto simp: issue_worker_capability_def issue_worker_capability_tx_def Let_def
        split: option.split bool.split intro: exI [of _ "capabilities db"])
  then show ?thesis by (intro log_untouched pools_kept_same) simp_all
qed

lemma catalog_kept: "store_step db (snd (register_worker_catalog x p tm db))"
proof -
  have "snd (register_worker_catalog x p tm db) = db \<or> (\<exists>t. snd (register_worker_catalog x p tm db) = set_catalog p t db)"
    by (auto simp: register_worker_catalog_def register_worker_catalog_tx_def commit_def bindr_def ok_or_def
        split: sum.split option.split)
  then consider "snd (register_worker_catalog x p tm db) = db"
    | t where "snd (register_worker_catalog x p tm db) = set_catalog p t db" by blast
  then show ?thesis
  proof cases
    case (2 t)
    then show ?thesis by (intro log_untouched pools_kept_same) (simp_all add: set_catalog_def)
  qed simp
qed

text \<open>The tables of the log are not touched by binding.\<close>

definition same_entries :: "db \<Rightarrow> db \<Rightarrow> bool" where
  "same_entries db db' \<longleftrightarrow>
     entries db' = entries db \<and> entry_seq db' = entry_seq db \<and> enrollments db' = enrollments db"

lemma same_entries_refl [simp]: "same_entries db db"
  by (simp add: same_entries_def)

lemma same_entries_trans: "same_entries a b \<Longrightarrow> same_entries b c \<Longrightarrow> same_entries a c"
  by (simp add: same_entries_def)

lemma touch_entries: "touch_session_reference db sid r tm = Inr db' \<Longrightarrow> same_entries db db'"
  by (auto simp: touch_session_reference_def set_turn_def same_entries_def split: if_split_asm)

lemma touch_sessions_entries: "touch_sessions session r tm bound db = Inr db' \<Longrightarrow> same_entries db db'"
proof (induction bound arbitrary: db)
  case (Cons b bound)
  show ?case
  proof (cases "b = session")
    case True
    with Cons show ?thesis by simp
  next
    case False
    with Cons.prems have "bindr (touch_session_reference db b r tm) (touch_sessions session r tm bound) = Inr db'"
      by simp
    then obtain db1 where t: "touch_session_reference db b r tm = Inr db1"
      and rest: "touch_sessions session r tm bound db1 = Inr db'" unfolding bindr_eq_Inr by blast
    show ?thesis by (rule same_entries_trans [OF touch_entries [OF t] Cons.IH [OF rest]])
  qed
qed simp

lemma session_for_entries:
  assumes "session_for_reference x db r tm = Inr (sid, db')"
  shows "same_entries db db' \<and> pools db' = pools db"
  using session_for_sessions [OF assms] by (auto simp: same_entries_def)

lemma ensure_notice_entries: "same_entries db (ensure_bound_terminal_notice x db agent session tm)"
  by (simp add: ensure_bound_terminal_notice_def insert_terminal_notice_def insert_delivery_def same_entries_def
      Let_def split: option.split)

lemma bind_tips_entries: "bind_tips x session tm tips db = Inr db' \<Longrightarrow> same_entries db db'"
proof (induction tips arbitrary: db)
  case (Cons tip tips)
  then obtain db1 where t: "bind_tip x session tm tip db = Inr db1" "bind_tips x session tm tips db1 = Inr db'"
    by auto
  have "same_entries db (set_agent_session tip session db)" by (simp add: set_agent_session_def same_entries_def)
  then have "same_entries db db1"
    using t(1) same_entries_trans ensure_notice_entries by (auto simp: bind_tip_def split: option.splits)
  with Cons.IH [OF t(2)] same_entries_trans show ?case by blast
qed simp

lemma pool_session_for_frame:
  assumes "pool_session_for x current r tm db = Inr (sid, db')"
  shows "same_entries db db' \<and> pools db' = pools db"
proof (cases current)
  case None
  with assms have "session_for_reference x db r tm = Inr (sid, db')" by (simp add: pool_session_for_def)
  then show ?thesis by (rule session_for_entries)
next
  case (Some e)
  with assms have "touch_session_reference db e r tm = Inr db'" by (auto simp: pool_session_for_def)
  then show ?thesis using touch_entries touch_session_key(2) by blast
qed

lemma bind_kept: "store_step db (snd (bind_pool x pool r tm db))"
proof (cases "bind_pool_tx x pool r tm db")
  case (Inr sd)
  obtain sid db' where sd: "sd = (sid, db')" by (cases sd)
  from Inr [unfolded sd] obtain p where m: "bind_members x pool p r tm db = Inr (sid, db')"
    by (auto simp: bind_pool_tx_def split: if_split_asm)
  from m obtain tips db1 db2 bound db3 where s: "pool_session_for x (p_session p) r tm db = Inr (sid, db1)"
    and t: "touch_sessions sid r tm bound db1 = Inr db2"
    and b: "bind_tips x sid tm tips (if p_session p = None then set_pool_session pool sid db2 else db2) = Inr db3"
    and db': "db' = activate_notice pool sid tm db3"
    by (auto simp: bind_members_def split del: if_split)
  let ?db2 = "if p_session p = None then set_pool_session pool sid db2 else db2"
  note ps = pool_session_for_frame [OF s]
  have "same_entries db2 ?db2" by (simp add: set_pool_session_def same_entries_def)
  moreover have "same_entries db3 db'" by (simp add: db' activate_notice_def same_entries_def Let_def)
  ultimately have e: "same_entries db db'"
    using ps touch_sessions_entries [OF t] bind_tips_entries [OF b] same_entries_trans by metis
  have "pools db' = pools ?db2" using bind_tips_frame [OF b] by (simp add: db' activate_notice_def Let_def)
  moreover have "pools db2 = pools db" using touch_sessions_key [OF t] ps by simp
  ultimately have "pools_kept db db'"
    using pools_kept_same pools_kept_session [of db' pool sid db]
    by (cases "p_session p = None") (simp_all add: set_pool_session_def)
  with e have "store_step db db'" by (intro log_untouched) (simp_all add: same_entries_def)
  with Inr sd show ?thesis by (simp add: bind_pool_def)
qed (simp add: bind_pool_def)

lemma exec_step: "store_step db (exec a db)"
proof (cases a)
  case (Pair x op)
  show ?thesis unfolding Pair
  proof (cases op)
    case (OpReconcile pool)
    have "same_log db (snd (reconcile_pool_enrollments x pool db))"
      using reconcile_facts [OF surjective_pairing] by (rule same_facts_log)
    with same_log_kept OpReconcile show "store_step db (exec (x, op) db)" by simp
  next
    case (OpSettle pool)
    have "same_log db (snd (settle_pool x pool db))" using settle_pool_log [OF surjective_pairing] .
    with same_log_kept OpSettle show "store_step db (exec (x, op) db)" by simp
  qed (use pool_write_kept operator_post_kept notify_kept issue_kept catalog_kept bind_kept in simp_all)
qed

lemma exec_kept: "store_inv db \<Longrightarrow> store_inv (exec a db) \<and> extends db (exec a db)"
  using exec_step store_inv_log unfolding store_step_def by blast

interpretation store: kept_by_steps exec store_inv extends
  by unfold_locales (rule extends_refl, erule (1) extends_trans, rule exec_kept)

section \<open>Properties of every run\<close>

lemma sample_inv: "store_inv sample_db"
proof -
  have "entries sample_db = []" "enrollments sample_db = []" by (simp_all add: sample_db_def)
  then have "budgets sample_db" "enroll_wf sample_db"
    by (simp_all add: budgets_def chat_ok_def votes_ok_def ordinary_chat_def chat_rows_def pool_entries_def
        proposal_rows_def votes_spent_def enroll_wf_def)
  moreover have "distinct (map p_id (pools sample_db))" by (simp add: sample_db_def)
  ultimately show ?thesis by (simp add: store_inv_def)
qed

text \<open>
  C20 (invariant). The budgets of a pool hold after every run of store operations: at most 200 ordinary
  messages of at most 262144 bytes together, not counting the one reserved acknowledgement of each enrolled
  member; at most 20 proposals; and at most 8 votes of one member on one proposal.
\<close>

theorem budgets_hold:
  assumes "store_inv db" and "db' = fold exec steps db"
  shows "length (ordinary_chat db' pool) \<le> 200
    \<and> sum_list (map (length \<circ> e_body) (ordinary_chat db' pool)) \<le> 262144
    \<and> length (proposal_rows db' pool) \<le> 20
    \<and> votes_spent db' pool member proposal \<le> 8"
  using store.run_keeps [OF assms(1), of steps]
  by (simp add: assms(2) store_inv_def budgets_def chat_ok_def votes_ok_def)

theorem budgets_hold_witness:
  "length (proposal_rows (fold exec [(sample_ext, OpPost sample_pool ''q'' ''hi'')] sample_db) sample_pool) \<le> 20"
  using budgets_hold [OF sample_inv refl] by blast

lemma withdrawal_left:
  assumes "store_inv db" and "latest_vote_row db pool member proposal = Some e" and "e_kind e \<noteq> RevokeEntry"
    and "e_decision e \<noteq> Some Block" and "decision \<in> {Block, RevokeVote}"
  shows "\<not> vote_budget_exhausted (votes_spent db pool member proposal) decision"
proof -
  have "votes_ok db pool member proposal" using assms(1) by (simp add: store_inv_def budgets_def)
  with assms(2-5) show ?thesis
    by (auto simp: votes_ok_def vote_budget_exhausted_def VOTE_ROW_BUDGET_def control_row_def)
qed

lemma done_inv: "store_inv done_db"
proof -
  have kinds: "e_kind e \<noteq> MessageEntry" if "e \<in> set (entries done_db)" for e
    using that by (auto simp: done_db_def done_entry_def)
  have "length (filter P (pool_entries done_db pool)) \<le> 3" for P pool
  proof -
    have "length (filter P (pool_entries done_db pool)) \<le> length (pool_entries done_db pool)"
      by (rule length_filter_le)
    also have "\<dots> \<le> length (entries done_db)" unfolding pool_entries_def by (rule length_filter_le)
    finally show ?thesis by (simp add: done_db_def)
  qed
  then have three: "votes_spent done_db pool member q \<le> 3" "length (proposal_rows done_db pool) \<le> 3"
    for pool member q by (simp_all add: votes_spent_def proposal_rows_def)
  have "chat_rows done_db pool = []" for pool
    using kinds by (auto simp: chat_rows_def pool_entries_def filter_empty_conv)
  then have "chat_ok done_db pool" for pool by (simp add: chat_ok_def ordinary_chat_def)
  moreover have "votes_ok done_db pool member q" for pool member q
    using three(1) [of pool member q] by (simp add: votes_ok_def)
  moreover have "length (proposal_rows done_db pool) \<le> 20" for pool using three(2) [of pool] by linarith
  ultimately have "budgets done_db" by (simp add: budgets_def)
  then show ?thesis using done_log by (simp add: store_inv_def enroll_wf_def)
qed

end
