(* ===== verification/PoolWrites.thy ===== *)
theory PoolWrites
  imports StoreRuns
begin

text \<open>
  What one pool write does (\<^verbatim>\<open>Store::pool_write\<close> in \<^verbatim>\<open>pool_log.rs\<close>): the stamped author and the fan-out of
  an accepted write, the replay of a request key after any further operations, and that a refused write
  changes nothing.
\<close>

section \<open>What identifies a caller\<close>

lemma find_image_cong:
  assumes "map key xs = map key ys" and "\<And>v. Q (key v) \<longleftrightarrow> P v"
  shows "map_option key (find P xs) = map_option key (find P ys)"
proof -
  have "map_option key (find P zs) = find Q (map key zs)" for zs
    by (induction zs) (simp_all add: assms(2))
  then show ?thesis by (simp add: assms(1))
qed

text \<open>An execution apart from its binding, what a seat needs of its pool, and the pinned acknowledgement.\<close>

definition agent_core :: "agent_row \<Rightarrow> agent_row" where
  "agent_core a = a\<lparr> a_session := None \<rparr>"

definition pool_core :: "pool_row \<Rightarrow> string \<times> json" where
  "pool_core p = (p_id p, p_acceptance p)"

definition ack_key :: "enrollment_row \<Rightarrow> string \<times> string \<times> string \<times> string" where
  "ack_key j = (j_agent j, j_run j, j_attempt j, j_challenge j)"

definition callers_kept :: "db \<Rightarrow> db \<Rightarrow> bool" where
  "callers_kept db db' \<longleftrightarrow>
     map agent_core (agents db') = map agent_core (agents db) \<and> attempts db' = attempts db
     \<and> worker_lifecycle db' = worker_lifecycle db \<and> members db' = members db
     \<and> map pool_core (pools db') = map pool_core (pools db)
     \<and> map ack_key (enrollments db') = map ack_key (enrollments db)
     \<and> (\<forall>i c. capability_of db i = Some c \<longrightarrow>
          (\<exists>c'. capability_of db' i = Some c' \<and> k_token_sha256 c' = k_token_sha256 c))"

lemma callers_kept_refl [simp]: "callers_kept db db"
  by (simp add: callers_kept_def)

lemma callers_kept_trans: "callers_kept a b \<Longrightarrow> callers_kept b c \<Longrightarrow> callers_kept a c"
  unfolding callers_kept_def by (elim conjE, intro conjI) (simp_all, metis)

lemma capability_same: "capabilities db' = capabilities db \<Longrightarrow> capability_of db' = capability_of db"
  by (simp add: capability_of_def fun_eq_iff)

lemma agent_core_iff:
  "agent_core a = agent_core b \<longleftrightarrow> (\<exists>s. a = b\<lparr> a_session := s \<rparr>)"
proof
  assume h: "agent_core a = agent_core b"
  have "a = (agent_core a)\<lparr> a_session := a_session a \<rparr>" by (simp add: agent_core_def)
  also have "\<dots> = b\<lparr> a_session := a_session a \<rparr>" unfolding h by (simp add: agent_core_def)
  finally show "\<exists>s. a = b\<lparr> a_session := s \<rparr>" by blast
qed (auto simp: agent_core_def)

lemma find_agent_core:
  assumes "map agent_core (agents db') = map agent_core (agents db)"
    and "\<And>a s. P (a\<lparr> a_session := s \<rparr>) = P a" and "find P (agents db) = Some a"
  shows "\<exists>s. find P (agents db') = Some (a\<lparr> a_session := s \<rparr>)"
proof -
  have "map_option agent_core (find P (agents db')) = map_option agent_core (find P (agents db))"
    by (rule find_image_cong [OF assms(1), of P]) (simp add: agent_core_def assms(2))
  with assms(3) show ?thesis by (auto simp: agent_core_iff)
qed

lemma authenticate_kept:
  assumes "callers_kept db db'" and "0 \<le> t"
    and "authenticate_attempt x db run attempt token (Finite (x_now x)) = Inr (Some a)"
  shows "\<exists>s. authenticate_attempt (x\<lparr> x_now := t \<rparr>) db' run attempt token (Finite t) = Inr (Some (a\<lparr> au_session := s \<rparr>))"
proof -
  have k: "map agent_core (agents db') = map agent_core (agents db)" "attempts db' = attempts db"
    "worker_lifecycle db' = worker_lifecycle db"
    and caps: "\<And>i c. capability_of db i = Some c \<Longrightarrow>
      \<exists>c'. capability_of db' i = Some c' \<and> k_token_sha256 c' = k_token_sha256 c"
    using assms(1) unfolding callers_kept_def by blast+
  from assms(3) obtain tr c ag rt where v: "valid_token token"
    and tr: "find (owned_live run attempt) (attempts db) = Some tr" and c: "capability_of db attempt = Some c"
    and ag: "find (\<lambda>a. a_id a = run \<and> a_finished_at a = None) (agents db) = Some ag"
    and d: "k_token_sha256 c = x_sha256 x token" and rt: "resolve_root x db run = Inr rt"
    and a: "a = \<lparr> au_root = rt, au_session = a_session ag,
              au_running = (t_state tr = ''running'' \<and> a_status ag = Running
                \<and> \<not> list_ex (\<lambda>l. l_attempt l = t_id tr \<and> l_phase l = ''closing'') (worker_lifecycle db)) \<rparr>"
    by (auto simp: authenticate_attempt_def split: option.splits if_split_asm)
  obtain c' where c': "capability_of db' attempt = Some c'" "k_token_sha256 c' = k_token_sha256 c"
    using caps [OF c] by blast
  obtain s where ag': "find (\<lambda>a. a_id a = run \<and> a_finished_at a = None) (agents db') = Some (ag\<lparr> a_session := s \<rparr>)"
    using find_agent_core [OF k(1) _ ag] by auto
  from rt obtain r where r: "agent_by_id db run = Some r" "parse_agent x (if a_root r = [] then a_id r else a_root r) = Inr rt"
    by (auto simp: resolve_root_def ok_or_def split: option.splits)
  obtain s' where "agent_by_id db' run = Some (r\<lparr> a_session := s' \<rparr>)"
    using find_agent_core [OF k(1) _ r(1) [unfolded agent_by_id_def]] by (auto simp: agent_by_id_def)
  then have "resolve_root (x\<lparr> x_now := t \<rparr>) db' run = Inr rt"
    using r(2) by (auto simp: resolve_root_def ok_or_def parse_agent_def)
  then show ?thesis
    using v c' d ag' tr assms(2) by (intro exI [of _ s]) (simp add: authenticate_attempt_def k time_of_def a)
qed

text \<open>The seat of an authenticated caller does not move.\<close>

lemma find_seat_core:
  assumes "map pool_core ps' = map pool_core ps"
    and "find (\<lambda>(m, p). p_id p = m_pool m \<and> P m) (List.product (ms :: member_row list) ps) = Some (m, p)"
  shows "\<exists>p'. find (\<lambda>(m, p). p_id p = m_pool m \<and> P m) (List.product ms ps') = Some (m, p') \<and> pool_core p' = pool_core p"
proof -
  let ?key = "\<lambda>(m :: member_row, p). (m, pool_core p)"
  have "map ?key (List.product ms qs) = List.product ms (map pool_core qs)" for qs
    by (induction ms) simp_all
  then have "map_option ?key (find (\<lambda>(m, p). p_id p = m_pool m \<and> P m) (List.product ms ps')) =
      map_option ?key (find (\<lambda>(m, p). p_id p = m_pool m \<and> P m) (List.product ms ps))"
    by (intro find_image_cong [where Q = "\<lambda>(m, i, c). i = m_pool m \<and> P m"])
      (auto simp: assms(1) pool_core_def)
  with assms(2) show ?thesis by auto
qed

lemma membership_kept:
  assumes "callers_kept db db'" and "membership db rt = Inr (Some m)"
  shows "\<exists>m'. membership db' rt = Inr (Some m') \<and> mb_pool_id m' = mb_pool_id m
    \<and> mb_seat_agent_id m' = mb_seat_agent_id m"
proof -
  have k: "members db' = members db" "map pool_core (pools db') = map pool_core (pools db)"
    using assms(1) by (simp_all add: callers_kept_def)
  from assms(2) obtain mr p cs where f: "find (\<lambda>(m, p). p_id p = m_pool m \<and> m_agent m = rt \<and> m_replaced_by m = None)
       (List.product (members db) (pools db)) = Some (mr, p)" and cs: "criteria_of (p_acceptance p) = Inr cs"
    and m: "mb_pool_id m = p_id p" "mb_seat_agent_id m = m_agent mr"
    by (auto simp: membership_def split: option.splits)
  obtain p' where "find (\<lambda>(m, p). p_id p = m_pool m \<and> m_agent m = rt \<and> m_replaced_by m = None)
       (List.product (members db') (pools db')) = Some (mr, p')" "pool_core p' = pool_core p"
    using find_seat_core [OF k(2) f] k(1) by auto
  with cs m show ?thesis by (simp add: membership_def pool_core_def)
qed

lemma authenticated_member_kept:
  assumes "callers_kept db db'" and "0 \<le> t" and "authenticated_member x db run attempt token = Inr (Inr m)"
  shows "\<exists>m'. authenticated_member (x\<lparr> x_now := t \<rparr>) db' run attempt token = Inr (Inr m')
    \<and> mb_pool_id m' = mb_pool_id m \<and> mb_seat_agent_id m' = mb_seat_agent_id m"
proof -
  from assms(3) obtain a where i: "input_credentials run attempt token = Inr ()"
    and a: "authenticate_attempt x db run attempt token (Finite (x_now x)) = Inr (Some a)" "au_running a"
    and m: "membership db (au_root a) = Inr (Some m)"
    by (auto simp: authenticated_member_def split: option.splits if_split_asm)
  obtain s where "authenticate_attempt (x\<lparr> x_now := t \<rparr>) db' run attempt token (Finite t) = Inr (Some (a\<lparr> au_session := s \<rparr>))"
    using authenticate_kept [OF assms(1,2) a(1)] by blast
  moreover obtain m' where "membership db' (au_root a) = Inr (Some m')" "mb_pool_id m' = mb_pool_id m"
    "mb_seat_agent_id m' = mb_seat_agent_id m" using membership_kept [OF assms(1) m] by blast
  ultimately show ?thesis using i a(2) by (simp add: authenticated_member_def)
qed

lemma ack_replay_key:
  "validate_ack_replay db rt run attempt key b =
     (case map_option ack_key (find (\<lambda>j. j_challenge j = key) (enrollments db)) of
        None \<Rightarrow> Inr ()
      | Some (a, r, t, c) \<Rightarrow>
          if \<not> b \<or> a \<noteq> rt \<or> r \<noteq> run \<or> t \<noteq> attempt
          then Inl (invalid ''enrollment ACK key is pinned to a different worker attempt'') else Inr ())"
  by (simp add: validate_ack_replay_def ack_key_def split: option.split)

lemma ack_replay_kept:
  assumes "callers_kept db db'"
  shows "validate_ack_replay db' rt run attempt key b = validate_ack_replay db rt run attempt key b"
proof -
  have "map_option ack_key (find (\<lambda>j. j_challenge j = key) (enrollments db')) =
      map_option ack_key (find (\<lambda>j. j_challenge j = key) (enrollments db))"
    by (rule find_image_cong [where Q = "\<lambda>(a, r, t, c). c = key"])
      (use assms in \<open>simp_all add: callers_kept_def ack_key_def\<close>)
  then show ?thesis unfolding ack_replay_key by (rule arg_cong)
qed

section \<open>Every operation keeps its callers\<close>

lemma kept_same_core:
  assumes "same_core db db'" and "map ack_key (enrollments db') = map ack_key (enrollments db)"
  shows "callers_kept db db'"
  using assms capability_same [of db' db] by (auto simp: callers_kept_def same_core_def)

lemma kept_same_log:
  assumes "same_log db db'"
  shows "callers_kept db db'"
proof -
  have "map pool_core (pools db') = map pool_core (pools db)"
    using assms by (auto simp: same_log_def pool_core_def complete_pool_def)
  moreover have k: "map ack_key js = map (\<lambda>(a, r, t, c, b, n). (a, r, t, c)) (map pin js)" for js
    by (simp add: ack_key_def pin_def)
  have "map pin (enrollments db') = map pin (enrollments db)" using assms by (simp add: same_log_def)
  then have "map ack_key (enrollments db') = map ack_key (enrollments db)" unfolding k by (rule arg_cong)
  ultimately show ?thesis
    using assms capability_same [of db' db] by (auto simp: callers_kept_def same_log_def)
qed

lemma appends_callers:
  assumes "appends x run attempt w m ack seq db db'"
  shows "callers_kept db db'"
proof (rule kept_same_core)
  show "same_core db db'" using assms by (simp add: appends_def)
  have "enrollments db' = (if ack then map (ack_row x seq (mb_seat_agent_id m)) (enrollments db) else enrollments db)"
    using assms by (simp add: appends_def)
  then show "map ack_key (enrollments db') = map ack_key (enrollments db)"
    by (simp add: ack_key_def ack_row_def)
qed

lemma after_append_log: "same_log db (snd (after_append x w pool seq db))"
  by (cases "parse_pool x pool"; cases w)
    (auto simp: after_append_def intro: settle_pool_log [OF surjective_pairing])

lemma write_callers: "callers_kept db (snd (pool_write x run attempt token w db))"
proof (cases "pool_write_tx x run attempt token w db")
  case (Inr od)
  obtain out db1 where od: "od = (out, db1)" by (cases od)
  from Inr [unfolded od] show ?thesis
  proof (cases rule: pool_write_tx_cases)
    case (appended m ack seq)
    then show ?thesis
      using callers_kept_trans [OF appends_callers [OF appended(4)] kept_same_log [OF after_append_log]] Inr od
      by (simp add: pool_write_def)
  qed (use Inr od in \<open>simp_all add: pool_write_def\<close>)
qed (simp add: pool_write_def)

lemma post_callers: "callers_kept db (snd (pool_operator_post x pool request message db))"
proof (cases "pool_operator_post_tx x pool request message db")
  case (Inr od)
  obtain out db1 where od: "od = (out, db1)" by (cases od)
  from Inr [unfolded od] show ?thesis
  proof (cases rule: operator_post_cases)
    case (posted seq)
    then have "callers_kept db db1" by (intro kept_same_core) (auto simp: posts_def)
    then show ?thesis using Inr od by (simp add: pool_operator_post_def)
  qed (use Inr od in \<open>simp add: pool_operator_post_def\<close>)
qed (simp add: pool_operator_post_def)

lemma notify_callers: "callers_kept db (snd (notify_orchestrator x run attempt token input tm db))"
proof (cases "notify_orchestrator_tx x db run attempt token input tm")
  case (Inr rd)
  obtain r db1 where rd: "rd = (r, db1)" by (cases rd)
  from Inr [unfolded rd] obtain t auth session where
    "accept_report x auth session run attempt input t db = Inr (r, db1)" by (auto simp: notify_tx_Inr)
  then have "callers_kept db db1"
  proof (cases rule: accept_report_cases)
    case new
    show ?thesis by (rule kept_same_core [OF queue_report_Inr(2) [OF new(4)]]) (simp add: queue_report_Inr(7) [OF new(4)])
  qed simp
  with Inr rd show ?thesis by (simp add: notify_orchestrator_def)
qed (simp add: notify_orchestrator_def)

lemma issue_callers: "callers_kept db (snd (issue_worker_capability x run attempt token tm db))"
proof -
  have "capability_of (db\<lparr> capabilities := capabilities db @ cs \<rparr>) i = Some c" if "capability_of db i = Some c" for cs i c
    using that by (simp add: capability_of_def find_append)
  then have "callers_kept db (db\<lparr> capabilities := capabilities db @ cs \<rparr>)" for cs
    by (auto simp: callers_kept_def)
  then show ?thesis
    by (simp add: issue_worker_capability_def issue_worker_capability_tx_def Let_def split: option.split bool.split)
qed

lemma catalog_callers: "callers_kept db (snd (register_worker_catalog x p tm db))"
proof -
  have "callers_kept db (set_catalog p t db)" for t
    by (simp add: callers_kept_def set_catalog_def capability_of_def find_map_same)
  then show ?thesis
    by (simp add: register_worker_catalog_def register_worker_catalog_tx_def commit_def bindr_def ok_or_def
        split: sum.split option.split)
qed

lemma session_callers: "callers_kept db (db\<lparr> sessions := ss \<rparr>)" "callers_kept db (db\<lparr> deliveries := ds \<rparr>)"
  by (simp_all add: callers_kept_def capability_of_def)

lemma touch_callers: "touch_session_reference db sid r tm = Inr db' \<Longrightarrow> callers_kept db db'"
  by (auto simp: touch_session_reference_def set_turn_def session_callers split: if_split_asm)

lemma touch_sessions_callers: "touch_sessions session r tm bound db = Inr db' \<Longrightarrow> callers_kept db db'"
proof (induction bound arbitrary: db)
  case (Cons b bound)
  show ?case
  proof (cases "b = session")
    case True
    with Cons show ?thesis by simp
  next
    case False
    with Cons.prems have "bindr (touch_session_reference db b r tm) (touch_sessions session r tm bound) = Inr db'"
      by simp
    then obtain db1 where t: "touch_session_reference db b r tm = Inr db1"
      and rest: "touch_sessions session r tm bound db1 = Inr db'" unfolding bindr_eq_Inr by blast
    show ?thesis by (rule callers_kept_trans [OF touch_callers [OF t] Cons.IH [OF rest]])
  qed
qed simp

lemma session_for_callers:
  assumes "session_for_reference x db r tm = Inr (sid, db')"
  shows "callers_kept db db'"
  using session_for_sessions [OF assms] session_callers(1) by blast

lemma agent_session_callers: "callers_kept db (set_agent_session tip session db)"
  by (auto simp: callers_kept_def set_agent_session_def agent_core_def capability_of_def)

lemma pool_session_callers: "callers_kept db (set_pool_session pool session db)"
  by (auto simp: callers_kept_def set_pool_session_def pool_core_def capability_of_def)

lemma ensure_notice_callers: "callers_kept db (ensure_bound_terminal_notice x db agent session tm)"
  by (simp add: ensure_bound_terminal_notice_def insert_terminal_notice_def insert_delivery_def
      Let_def session_callers split: option.split)

lemma bind_tips_callers: "bind_tips x session tm tips db = Inr db' \<Longrightarrow> callers_kept db db'"
proof (induction tips arbitrary: db)
  case (Cons tip tips)
  then obtain db1 where t: "bind_tip x session tm tip db = Inr db1" "bind_tips x session tm tips db1 = Inr db'"
    by auto
  have "callers_kept db db1"
    using t(1) callers_kept_trans [OF agent_session_callers ensure_notice_callers] ensure_notice_callers
    by (auto simp: bind_tip_def split: option.splits)
  with Cons.IH [OF t(2)] callers_kept_trans show ?case by blast
qed simp

lemma bind_callers: "callers_kept db (snd (bind_pool x pool r tm db))"
proof (cases "bind_pool_tx x pool r tm db")
  case (Inr sd)
  obtain sid db' where sd: "sd = (sid, db')" by (cases sd)
  from Inr [unfolded sd] obtain p where m: "bind_members x pool p r tm db = Inr (sid, db')"
    by (auto simp: bind_pool_tx_def split: if_split_asm)
  from m obtain tips db1 db2 bound db3 where s: "pool_session_for x (p_session p) r tm db = Inr (sid, db1)"
    and t: "touch_sessions sid r tm bound db1 = Inr db2"
    and b: "bind_tips x sid tm tips (if p_session p = None then set_pool_session pool sid db2 else db2) = Inr db3"
    and db': "db' = activate_notice pool sid tm db3"
    by (auto simp: bind_members_def split del: if_split)
  let ?db2 = "if p_session p = None then set_pool_session pool sid db2 else db2"
  have "callers_kept db db1"
    using s session_for_callers touch_callers by (auto simp: pool_session_for_def split: option.splits)
  moreover have "callers_kept db2 ?db2" using pool_session_callers by simp
  moreover have "callers_kept db3 db'" unfolding db' activate_notice_def Let_def by (rule session_callers)
  ultimately have "callers_kept db db'"
    using touch_sessions_callers [OF t] bind_tips_callers [OF b] callers_kept_trans by metis
  with Inr sd show ?thesis by (simp add: bind_pool_def)
qed (simp add: bind_pool_def)

lemma exec_callers: "callers_kept db (exec a db)"
proof (cases a)
  case (Pair x op)
  have r: "callers_kept db (snd (reconcile_pool_enrollments x pool db))" for pool
    by (rule kept_same_log [OF same_facts_log [OF reconcile_facts [OF surjective_pairing]]])
  have s: "callers_kept db (snd (settle_pool x pool db))" for pool
    by (rule kept_same_log [OF settle_pool_log [OF surjective_pairing]])
  show ?thesis unfolding Pair
    by (cases op)
      (simp_all add: r s write_callers post_callers notify_callers issue_callers catalog_callers bind_callers)
qed

interpretation callers: kept_by_steps exec "\<lambda>_. True" callers_kept
  by unfold_locales (simp, erule (1) callers_kept_trans, simp add: exec_callers)

section \<open>The written entry\<close>

lemma parse_pool_same: "parse_pool x s = Inr p \<Longrightarrow> p = s"
  by (auto simp: parse_pool_def pool_id_from_str_def split: if_split_asm)

lemma parse_later: "parse_pool (x\<lparr> x_now := t \<rparr>) = parse_pool x" "parse_agent (x\<lparr> x_now := t \<rparr>) = parse_agent x"
  by (simp_all add: parse_pool_def parse_agent_def fun_eq_iff)

lemma stamped_columns [simp]:
  "e_pool (stamped x m run attempt n) = mb_pool_id m" "e_idem_scope (stamped x m run attempt n) = run"
  "e_request_id (stamped x m run attempt n) = ne_request_id n" "e_kind (stamped x m run attempt n) = ne_kind n"
  by (simp_all add: stamped_def)

lemma stamped_shape:
  assumes "find (\<lambda>e. e_pool e = mb_pool_id m \<and> e_seq e = seq) (entries db') =
      Some ((stamped x m run attempt (entry_of_write w))\<lparr> e_seq := seq \<rparr>)"
  shows "replay_shape_of db' (mb_pool_id m) seq = Inr (replay_shape w)"
proof (cases w)
  case (WVote v)
  with assms show ?thesis
    by (simp add: replay_shape_of_def ok_or_def) (simp add: stamped_def vote_entry_def vote_kind_def)
next
  case (WProposal i)
  with assms show ?thesis by (simp add: replay_shape_of_def ok_or_def) (simp add: stamped_def proposal_entry_def)
next
  case (WMessage i)
  with assms show ?thesis by (simp add: replay_shape_of_def ok_or_def stamped_def message_entry_def)
qed

text \<open>The request key of an answered write, as a later call finds it.\<close>

definition answered ::
    "ext \<Rightarrow> string \<Rightarrow> string \<Rightarrow> string \<Rightarrow> pool_write \<Rightarrow> pool_write_receipt \<Rightarrow> db \<Rightarrow> db \<Rightarrow> bool" where
  "answered x run attempt token w r db db' \<longleftrightarrow>
     (\<exists>m e. authenticated_member x db run attempt token = Inr (Inr m)
        \<and> parse_agent x (mb_seat_agent_id m) = Inr (mb_seat_agent_id m)
        \<and> validate_ack_replay db (mb_seat_agent_id m) run attempt (write_request_id w)
            (write_kind w = MessageEntry) = Inr ()
        \<and> parse_pool x (mb_pool_id m) = Inr (wr_pool_id r) \<and> wr_pool_id r = mb_pool_id m
        \<and> prior_entry db' (mb_pool_id m) run (write_request_id w) = Some e \<and> e_seq e = wr_seq r
        \<and> replay_shape_of db' (mb_pool_id m) (wr_seq r) = Inr (replay_shape w))"

lemma answered_append:
  assumes "log_wf db" and "appends x run attempt w m ack seq db db1" and "same_log db1 db'"
    and "authenticated_member x db run attempt token = Inr (Inr m)"
    and "validate_ack_replay db (mb_seat_agent_id m) run attempt (write_request_id w) (write_kind w = MessageEntry) = Inr ()"
    and "parse_agent x (mb_seat_agent_id m) = Inr (mb_seat_agent_id m)"
    and "parse_pool x (mb_pool_id m) = Inr (wr_pool_id r)" and "wr_seq r = seq"
  shows "answered x run attempt token w r db db'"
proof -
  let ?e = "(stamped x m run attempt (entry_of_write w))\<lparr> e_seq := seq \<rparr>"
  have e: "entries db' = entries db @ [?e]" and none: "prior_entry db (mb_pool_id m) run (write_request_id w) = None"
    and seq: "seq = Suc (entry_seq db)"
    using assms(2,3) by (simp_all add: appends_def same_log_def)
  have prior: "prior_entry db' (mb_pool_id m) run (write_request_id w) = Some ?e"
    using none by (simp add: prior_entry_def e find_append)
  have "find (\<lambda>e. e_pool e = mb_pool_id m \<and> e_seq e = seq) (entries db) = None"
    using assms(1) by (auto simp: find_None_iff log_wf_def seq)
  then have "find (\<lambda>e. e_pool e = mb_pool_id m \<and> e_seq e = seq) (entries db') = Some ?e"
    by (simp add: e find_append)
  then have shape: "replay_shape_of db' (mb_pool_id m) seq = Inr (replay_shape w)" by (rule stamped_shape)
  show ?thesis
    unfolding answered_def
    by (intro exI [of _ m] exI [of _ ?e] conjI) (use assms(4-8) prior shape parse_pool_same [OF assms(7)] in simp_all)
qed

lemma write_parts:
  assumes "pool_write_tx x run attempt token w db = Inr od" and "authenticated_member x db run attempt token = Inr (Inr m)"
  shows "parse_agent x (mb_seat_agent_id m) = Inr (mb_seat_agent_id m)"
    "validate_ack_replay db (mb_seat_agent_id m) run attempt (write_request_id w) (write_kind w = MessageEntry) = Inr ()"
proof -
  from assms obtain seat where "parse_agent x (mb_seat_agent_id m) = Inr seat"
    "validate_ack_replay db seat run attempt (write_request_id w) (write_kind w = MessageEntry) = Inr ()"
    by (auto simp: pool_write_tx_def)
  with parse_agent_same show "parse_agent x (mb_seat_agent_id m) = Inr (mb_seat_agent_id m)"
    "validate_ack_replay db (mb_seat_agent_id m) run attempt (write_request_id w) (write_kind w = MessageEntry) = Inr ()"
    by blast+
qed

lemma answered_replay:
  assumes tx: "pool_write_tx x run attempt token w db = Inr (Replayed r, db)"
  shows "answered x run attempt token w r db db \<and> wr_duplicate r"
proof -
  from tx obtain a where a: "authenticated_member x db run attempt token = Inr a"
    by (auto simp: pool_write_tx_def)
  with tx obtain m where m: "authenticated_member x db run attempt token = Inr (Inr m)"
    by (cases a) (simp_all add: pool_write_tx_def)
  note parts = write_parts [OF tx m]
  have rest: "(case prior_entry db (mb_pool_id m) run (write_request_id w) of
      Some e \<Rightarrow> replay_write x m (e_seq e) w db | None \<Rightarrow> new_write x m run attempt w db) = Inr (Replayed r, db)"
    using tx m parts by (simp add: pool_write_tx_def)
  show ?thesis
  proof (cases "prior_entry db (mb_pool_id m) run (write_request_id w)")
    case None
    with rest have "new_write x m run attempt w db = Inr (Replayed r, db)" by simp
    then show ?thesis using None by (cases rule: new_write_cases) simp_all
  next
    case (Some e)
    with rest have "replay_shape_of db (mb_pool_id m) (e_seq e) = Inr (replay_shape w)"
      "parse_pool x (mb_pool_id m) = Inr (wr_pool_id r)" "wr_seq r = e_seq e" "wr_duplicate r"
      by (auto simp: replay_write_def split: if_split_asm)
    with m parts Some parse_pool_same show ?thesis unfolding answered_def by auto
  qed
qed

lemma pool_write_answered:
  assumes "log_wf db" and "pool_write x run attempt token w db = (Inr (Inr r), db')"
  shows "answered x run attempt token w r db db'"
proof -
  from assms(2) obtain out db1 where tx: "pool_write_tx x run attempt token w db = Inr (out, db1)"
    by (auto simp: pool_write_def commit_def split: sum.splits prod.splits)
  from tx show ?thesis
  proof (cases rule: pool_write_tx_cases)
    case (denied d)
    with assms(2) tx show ?thesis by (simp add: pool_write_def)
  next
    case (replayed q)
    with assms(2) tx have "q = r" "db' = db" by (simp_all add: pool_write_def)
    with answered_replay tx replayed show ?thesis by simp
  next
    case (appended m ack seq)
    with assms(2) tx have a: "after_append x w (mb_pool_id m) seq db1 = (Inr (Inr r), db')"
      by (simp add: pool_write_def)
    then have "parse_pool x (mb_pool_id m) = Inr (wr_pool_id r)" "wr_seq r = seq"
      by (auto simp: after_append_def split: sum.splits)
    then show ?thesis
      using answered_append [OF assms(1) appended(4) _ appended(2,3) write_parts(1) [OF tx appended(2)]]
        after_append_log [of db1 x w "mb_pool_id m" seq] a by simp
  qed
qed

definition ack_key_pinned :: error where
  "ack_key_pinned = invalid ''enrollment ACK key is pinned to a different worker attempt''"

lemma ack_replay_Inl: "validate_ack_replay db rt run attempt key b = Inl e \<Longrightarrow> e = ack_key_pinned"
  by (auto simp: validate_ack_replay_def ack_key_pinned_def split: option.splits if_split_asm)

lemma shape_kind: "replay_shape again = replay_shape w \<Longrightarrow> write_kind again = MessageEntry \<longleftrightarrow> write_kind w = MessageEntry"
  by (cases again; cases w) (simp_all add: vote_shape_def vote_kind_def)

lemma answered_later:
  assumes "answered x run attempt token w r db db1" and "callers_kept db db'"
    and "prefix (entries db1) (entries db')" and "0 \<le> t"
    and "write_request_id again = write_request_id w"
  shows "pool_write (x\<lparr> x_now := t \<rparr>) run attempt token again db' =
      (Inr (if replay_shape again = replay_shape w then Inr (r\<lparr> wr_duplicate := True \<rparr>) else Inl DenialConflict), db')
    \<or> (write_kind again = MessageEntry) \<noteq> (write_kind w = MessageEntry)
      \<and> pool_write (x\<lparr> x_now := t \<rparr>) run attempt token again db' = (Inl ack_key_pinned, db')"
proof -
  let ?x = "x\<lparr> x_now := t \<rparr>"
  from assms(1) obtain m e where m: "authenticated_member x db run attempt token = Inr (Inr m)"
    and seat: "parse_agent x (mb_seat_agent_id m) = Inr (mb_seat_agent_id m)"
    and ack: "validate_ack_replay db (mb_seat_agent_id m) run attempt (write_request_id w) (write_kind w = MessageEntry) = Inr ()"
    and pool: "parse_pool x (mb_pool_id m) = Inr (wr_pool_id r)" "wr_pool_id r = mb_pool_id m"
    and prior: "prior_entry db1 (mb_pool_id m) run (write_request_id w) = Some e" "e_seq e = wr_seq r"
    and shape: "replay_shape_of db1 (mb_pool_id m) (wr_seq r) = Inr (replay_shape w)"
    unfolding answered_def by blast
  obtain es where es: "entries db' = entries db1 @ es" using assms(3) by (auto simp: prefix_def)
  have prior': "prior_entry db' (mb_pool_id m) run (write_request_id w) = Some e"
    using prior by (simp add: prior_entry_def es find_append)
  have shape': "replay_shape_of db' (mb_pool_id m) (wr_seq r) = Inr (replay_shape w)"
    using shape by (auto simp: replay_shape_of_def ok_or_def es find_append split: option.splits)
  obtain m' where m': "authenticated_member ?x db' run attempt token = Inr (Inr m')"
    "mb_pool_id m' = mb_pool_id m" "mb_seat_agent_id m' = mb_seat_agent_id m"
    using authenticated_member_kept [OF assms(2,4) m] by blast
  let ?v = "validate_ack_replay db (mb_seat_agent_id m) run attempt (write_request_id w) (write_kind again = MessageEntry)"
  have tx: "pool_write_tx ?x run attempt token again db' = bindr ?v (\<lambda>_. replay_write ?x m' (wr_seq r) again db')"
    using m' seat prior prior' assms(5) by (simp add: pool_write_tx_def parse_later ack_replay_kept [OF assms(2)])
  have replay: "replay_write ?x m' (wr_seq r) again db' =
      Inr (if replay_shape again = replay_shape w then Replayed (r\<lparr> wr_duplicate := True \<rparr>) else Denied DenialConflict, db')"
    using shape' pool m'(2) by (auto simp: replay_write_def parse_later)
  show ?thesis
  proof (cases ?v)
    case (Inl e)
    then have "e = ack_key_pinned" by (rule ack_replay_Inl)
    moreover have "(write_kind again = MessageEntry) \<noteq> (write_kind w = MessageEntry)"
    proof
      assume eq: "(write_kind again = MessageEntry) = (write_kind w = MessageEntry)"
      have "?v = Inr ()" unfolding eq by (rule ack)
      with Inl show False by simp
    qed
    ultimately show ?thesis using tx Inl by (simp add: pool_write_def)
  next
    case (Inr u)
    with tx replay show ?thesis by (simp add: pool_write_def)
  qed
qed

section \<open>Properties\<close>

text \<open>
  C5 (roundtrip). A write is idempotent under its request key while its attempt runs. After a write was answered,
  let any pool writes, operator posts, worker reports, capability and catalogue registrations, enrolment
  reconciliations, settlements (among them the completion of the pool) and bindings run, none of which ends
  an attempt. The same request then returns the same receipt, marked as a duplicate. A different request
  under the key is refused: as a conflict, or, where one of the two is a message and the other is not, possibly
  because the key is a pinned enrolment acknowledgement. No repeat changes the store.
\<close>

theorem write_replay:
  assumes "store_inv db" and "pool_write x run attempt token w db = (Inr (Inr r), db1)"
    and "db' = fold exec steps db1" and "0 \<le> t" and "write_request_id again = write_request_id w"
    and "pool_write (x\<lparr> x_now := t \<rparr>) run attempt token again db' = (answer, db2)"
  shows "db2 = db'
    \<and> (if replay_shape again = replay_shape w then answer = Inr (Inr (r\<lparr> wr_duplicate := True \<rparr>))
       else answer = Inr (Inl DenialConflict)
         \<or> answer = Inl ack_key_pinned \<and> (write_kind again = MessageEntry) \<noteq> (write_kind w = MessageEntry))"
proof -
  have inv1: "store_inv db1" using pool_write_kept [of db x run attempt token w] assms(1,2) by (simp add: store_step_def)
  have "callers_kept db db1" using write_callers [of db x run attempt token w] assms(2) by simp
  moreover have "callers_kept db1 db'" unfolding assms(3) using callers.run_keeps by simp
  ultimately have c: "callers_kept db db'" by (rule callers_kept_trans)
  have p: "prefix (entries db1) (entries db')"
    unfolding assms(3) using store.run_keeps [OF inv1] by (simp add: extends_def)
  have "log_wf db" using assms(1) by (simp add: store_inv_def)
  note later = answered_later [OF pool_write_answered [OF this assms(2)] c p assms(4,5), unfolded assms(6)]
  show ?thesis
    using later shape_kind [of again w] by auto
qed

text \<open>
  C26 (functional). An accepted new write appends exactly one entry to the caller's open pool. Its author, name
  and role are those of the caller's seat and its revision the pool's, never taken from the request; its
  sender is the authenticated execution and attempt; and the peers' live executions, not the sender's, each
  get exactly one pending command with the sequence number.
\<close>

theorem write_effect:
  assumes "pool_write x run attempt token w db = (Inr (Inr r), db')" and "\<not> wr_duplicate r"
  shows "\<exists>m e cs. authenticated_member x db run attempt token = Inr (Inr m) \<and> mb_state m = OpenPool
    \<and> entries db' = entries db @ [e] \<and> e_seq e = wr_seq r \<and> e_pool e = mb_pool_id m \<and> wr_pool_id r = mb_pool_id m
    \<and> e_author_kind e = AuthorMember \<and> e_author_agent e = Some (mb_seat_agent_id m)
    \<and> e_author_name e = Some (mb_name m) \<and> e_author_role e = Some (mb_role m)
    \<and> e_roster_revision e = mb_roster_revision m \<and> e_kind e = write_kind w
    \<and> e_sender_run e = Some run \<and> e_sender_attempt e = Some attempt \<and> e_created_at e = x_now x
    \<and> commands db' = commands db @ cs \<and> map c_agent cs = recipients db (mb_pool_id m) (mb_seat_agent_id m)
    \<and> (\<forall>c \<in> set cs. c_kind c = ''pool'' \<and> c_state c = ''pending''
          \<and> c_payload c = JObj [(''seq'', JNum (int (wr_seq r)))])"
proof -
  from assms(1) obtain out db1 where tx: "pool_write_tx x run attempt token w db = Inr (out, db1)"
    by (auto simp: pool_write_def commit_def split: sum.splits prod.splits)
  from tx show ?thesis
  proof (cases rule: pool_write_tx_cases)
    case (denied d)
    with assms(1) tx show ?thesis by (simp add: pool_write_def)
  next
    case (replayed q)
    with assms tx show ?thesis by (simp add: pool_write_def)
  next
    case (appended m ack seq)
    with assms(1) tx have a: "after_append x w (mb_pool_id m) seq db1 = (Inr (Inr r), db')"
      by (simp add: pool_write_def)
    then have r: "parse_pool x (mb_pool_id m) = Inr (wr_pool_id r)" "wr_seq r = seq"
      by (auto simp: after_append_def split: sum.splits)
    have log: "entries db' = entries db1" "commands db' = commands db1"
      using after_append_log [of db1 x w "mb_pool_id m" seq] a by (simp_all add: same_log_def)
    from appended(4) obtain cs where cs: "commands db1 = commands db @ cs"
      "map c_agent cs = recipients db (mb_pool_id m) (mb_seat_agent_id m)"
      "\<forall>c \<in> set cs. c_kind c = ''pool'' \<and> c_payload c = JObj [(''seq'', JNum (int seq))] \<and> c_state c = ''pending''"
      unfolding appends_def by blast
    show ?thesis
      by (intro exI [of _ m] exI [of _ "(stamped x m run attempt (entry_of_write w))\<lparr> e_seq := seq \<rparr>"] exI [of _ cs])
        (use appended(2,4) r cs log parse_pool_same [OF r(1)] in \<open>simp add: appends_def, simp add: stamped_def\<close>)
  qed
qed

text \<open>
  C27 (error). A refused write leaves no trace: whether the store reports an error or a denial, or replays an
  earlier answer, the database is unchanged. A caller without a seat, or with an unknown or stale capability,
  is refused before anything of the pool is read.
\<close>

theorem write_refused:
  assumes "\<forall>p \<in> set (pools db). parse_pool x (p_id p) = Inr (p_id p)"
    and "pool_write x run attempt token w db = (res, db')" and "\<nexists>r. res = Inr (Inr r) \<and> \<not> wr_duplicate r"
  shows "db' = db \<and> (\<forall>e. authenticated_member x db run attempt token = Inl e \<longrightarrow> res = Inl e)
    \<and> (\<forall>d. authenticated_member x db run attempt token = Inr (Inl d) \<longrightarrow> res = Inr (Inl d))"
proof -
  have "res = Inl e" if "authenticated_member x db run attempt token = Inl e" for e
    using assms(2) that by (simp add: pool_write_def pool_write_tx_def)
  moreover have "res = Inr (Inl d)" if "authenticated_member x db run attempt token = Inr (Inl d)" for d
    using assms(2) that by (simp add: pool_write_def pool_write_tx_def)
  moreover have "db' = db"
  proof (cases "pool_write_tx x run attempt token w db")
    case (Inl e)
    with assms(2) show ?thesis by (simp add: pool_write_def)
  next
    case (Inr od)
    obtain out db1 where od: "od = (out, db1)" by (cases od)
    from Inr [unfolded od] show ?thesis
    proof (cases rule: pool_write_tx_cases)
      case (appended m ack seq)
      obtain p where "p \<in> set (pools db)" "p_id p = mb_pool_id m" using membership_open [OF appended(2)] by auto
      then have "parse_pool x (mb_pool_id m) = Inr (mb_pool_id m)" using assms(1) by auto
      with appended assms(2,3) Inr od show ?thesis by (auto simp: pool_write_def after_append_def)
    qed (use assms(2) Inr od in \<open>simp_all add: pool_write_def\<close>)
  qed
  ultimately show ?thesis by blast
qed

section \<open>A concrete write\<close>

definition sample_message :: pool_write where
  "sample_message = WMessage \<lparr> pm_request_id = ''k'', pm_message = ''m'' \<rparr>"

definition sample_membership :: membership where
  "sample_membership = \<lparr> mb_seat_agent_id = ag_a, mb_pool_id = sample_pool, mb_name = ''n'', mb_role = ''r'',
     mb_roster_revision = 1, mb_state = OpenPool, mb_acceptance = [(''c1'', ''x'')] \<rparr>"

lemma sample_membership_simps [simp]:
  "mb_seat_agent_id sample_membership = ag_a" "mb_pool_id sample_membership = sample_pool"
  "mb_state sample_membership = OpenPool"
  by (simp_all add: sample_membership_def)

lemma sample_message_valid: "validate_write sample_ext sample_message = Inr ()"
  by (simp add: sample_message_def validate_pool_message_def request_key_def bounded_text_def text_eval
      MAX_BODY_BYTES_def del: bindr_eq_Inr)

lemma sample_seat: "authenticated_member sample_ext sample_db ag_a (''t'' @ ag_a) sample_token = Inr (Inr sample_membership)"
proof -
  have "membership sample_db ag_a = Inr (Some sample_membership)"
    by (simp add: membership_def sample_db_def sample_member_def criteria_of_def ok_or_def sample_membership_def)
  moreover have "input_credentials ag_a (''t'' @ ag_a) sample_token = Inr ()"
    by (simp add: input_credentials_def sample_token_def) (simp add: ag_a_def)
  moreover have "x_now sample_ext = 100" by (simp add: sample_ext_def)
  ultimately show ?thesis
    unfolding authenticated_member_def using sample_auth [of 100] by simp
qed

lemma sample_write_constraints:
  "entry_constraints sample_ext sample_db
     (stamped sample_ext sample_membership ag_a (''t'' @ ag_a) (entry_of_write sample_message))"
  by (simp add: entry_constraints_def entry_shape_def entry_sizes_def entry_references_def entry_unique_def
      stamped_def sample_message_def message_entry_def sample_membership_def)
    (simp add: sample_db_def sample_member_def text_eval chars_ascii is_ascii_def)

lemma sample_write_accepted:
  "\<exists>r db1. pool_write sample_ext ag_a (''t'' @ ag_a) sample_token sample_message sample_db = (Inr (Inr r), db1)
     \<and> \<not> wr_duplicate r"
proof -
  let ?n = "entry_of_write sample_message"
  obtain db1 where app: "append_entry sample_ext sample_membership ag_a (''t'' @ ag_a) ?n sample_db = Inr (1, db1)"
    using sample_write_constraints by (simp add: append_entry_def insert_entry_def sample_db_def)
  have t: "entries sample_db = []" "enrollments sample_db = []" by (simp_all add: sample_db_def)
  note core = append_entry_Inr(5) [OF app]
  have "append_write sample_ext sample_membership ag_a (''t'' @ ag_a) False sample_message sample_db = Inr (Inr (1, db1))"
    using app t by (simp add: sample_message_def append_message_def chat_exhausted_def chat_rows_def chat_bytes_def
        pool_entries_def CHAT_ROW_BUDGET_def CHAT_BYTE_BUDGET_def)
  moreover obtain db2 where "finish_write sample_ext sample_membership ag_a False sample_message 1 db1 =
      Inr (Appended sample_pool 1, db2)"
  proof -
    let ?db = "snd (tx_event sample_ext db1 ag_a ''pool_entry_appended'' None None
        (JObj [(''seq'', JNum (int 1)), (''kind'', JStr (entry_kind_as_str (write_kind sample_message)))]))"
    have "agents ?db = agents sample_db" "members ?db = members sample_db"
      using same_core_trans [OF core tx_event_frame(3)] by (simp_all add: same_core_def)
    from sample_fanout [OF this] that show ?thesis
      by (simp add: finish_write_def Let_def)
  qed
  ultimately have "pool_write_tx sample_ext ag_a (''t'' @ ag_a) sample_token sample_message sample_db =
      Inr (Appended sample_pool 1, db2)"
    using sample_seat sample_message_valid t
    by (simp add: pool_write_tx_def validate_ack_replay_def prior_entry_def new_write_def ack_allowed_def
        enrollment_of_def del: bindr_eq_Inr append.simps)
  then show ?thesis by (simp add: pool_write_def after_append_def sample_message_def)
qed

theorem write_replay_witness:
  "\<exists>r db1. pool_write sample_ext ag_a (''t'' @ ag_a) sample_token sample_message sample_db = (Inr (Inr r), db1)
     \<and> fst (pool_write (sample_ext\<lparr> x_now := 200 \<rparr>) ag_a (''t'' @ ag_a) sample_token sample_message
          (fold exec [(sample_ext, OpSettle sample_pool)] db1)) = Inr (Inr (r\<lparr> wr_duplicate := True \<rparr>))"
proof -
  obtain r db1 where w: "pool_write sample_ext ag_a (''t'' @ ag_a) sample_token sample_message sample_db = (Inr (Inr r), db1)"
    using sample_write_accepted by blast
  from write_replay [where steps = "[(sample_ext, OpSettle sample_pool)]" and t = 200 and again = sample_message,
      OF sample_inv w refl _ refl surjective_pairing] w
  show ?thesis by simp
qed

theorem write_effect_witness:
  "\<exists>r db1. pool_write sample_ext ag_a (''t'' @ ag_a) sample_token sample_message sample_db = (Inr (Inr r), db1)
     \<and> length (entries db1) = 1"
proof -
  obtain r db1 where w: "pool_write sample_ext ag_a (''t'' @ ag_a) sample_token sample_message sample_db = (Inr (Inr r), db1)"
    "\<not> wr_duplicate r" using sample_write_accepted by blast
  from write_effect [OF w] w(1) show ?thesis by (auto simp: sample_db_def)
qed

theorem write_refused_witness:
  "pool_write sample_ext ag_a [] sample_token sample_message sample_db =
     (Inl (Validation ''invalid worker capability''), sample_db)"
proof -
  have a: "authenticated_member sample_ext sample_db ag_a [] sample_token = Inl (Validation ''invalid worker capability'')"
    by (simp add: authenticated_member_def input_credentials_def)
  then have r: "fst (pool_write sample_ext ag_a [] sample_token sample_message sample_db) = Inl (Validation ''invalid worker capability'')"
    by (simp add: pool_write_def pool_write_tx_def)
  have "\<forall>p \<in> set (pools sample_db). parse_pool sample_ext (p_id p) = Inr (p_id p)" by (simp add: sample_db_def)
  from write_refused [OF this surjective_pairing] r show ?thesis by (simp add: prod_eq_iff)
qed

end
