(* ===== verification/PoolVotes.thy ===== *)
theory PoolVotes
  imports PoolWrites
begin

text \<open>
  The withdrawal of an agreement (\<^verbatim>\<open>append_vote\<close> in \<^verbatim>\<open>pool_log.rs\<close>): a member whose latest vote is
  neither a block nor a revoke can still cast one, and the write is stored as the member's latest vote.
\<close>

section \<open>Fan-out succeeds\<close>





section \<open>The vote is admitted\<close>





section \<open>The property\<close>







end
