(* ===== verification/Evidence.thy ===== *)
theory Evidence
  imports Sample
begin

text \<open>
  The evidence of a delivery attempt (\<^verbatim>\<open>crates/agent-run-store/src/delivery.rs\<close>): redaction of a diagnostic
  tail, and the validation and sanitising of an evidence document before it is stored and after it is read.
  No credential marker survives the redaction, and sanitising accepts its own output unchanged.
\<close>

section \<open>Model\<close>

subsection \<open>Redaction\<close>

definition MAX_EVIDENCE_TAIL_BYTES :: nat where
  "MAX_EVIDENCE_TAIL_BYTES = 4096"

definition MAX_EVIDENCE_BYTES :: nat where
  "MAX_EVIDENCE_BYTES = 16 * 1024"

definition lower_byte :: "char \<Rightarrow> char" where
  "lower_byte b = (if is_ascii_uppercase b then char_of (byte_of b + 32) else b)"

definition to_ascii_lowercase :: "string \<Rightarrow> string" where
  "to_ascii_lowercase s = map lower_byte s"

definition markers :: "string list" where
  "markers = [''authorization'', ''api_key'', ''api-key'', ''token'', ''secret'', ''password'', ''bearer '']"

definition redacted :: string where
  "redacted = ''[redacted]''"

definition line_break :: "char \<Rightarrow> bool" where
  "line_break b \<longleftrightarrow> byte_of b = 0x0A \<or> byte_of b = 0x0D"

fun find_str :: "string \<Rightarrow> string \<Rightarrow> nat option" where
  "find_str p [] = (if p = [] then Some 0 else None)"
| "find_str p (a # s) = (if starts_with (a # s) p then Some 0 else map_option Suc (find_str p s))"

text \<open>
  One marker of the loop, on the text after the cursor: what is before the first occurrence stays, the
  occurrence and the rest of its line are replaced, and the cursor moves behind the replacement. The first
  character of a marker is not a line break, so the rest of the line starts after it.
\<close>

function redact_marker :: "string \<Rightarrow> string \<Rightarrow> string" where
  "redact_marker m s =
     (case find_str m (to_ascii_lowercase s) of
        None \<Rightarrow> s
      | Some k \<Rightarrow> if length s \<le> k then s
          else take k s @ redacted @ redact_marker m (dropWhile (\<lambda>b. \<not> line_break b) (drop (Suc k) s)))"
  by pat_completeness auto
termination
proof (relation "measure (\<lambda>(m, s). length s)", simp)
  fix m s :: string and k
  assume "\<not> length s \<le> k"
  then have "length (drop (Suc k) s) < length s" by simp
  then have "length (dropWhile (\<lambda>b. \<not> line_break b) (drop (Suc k) s)) < length s"
    using le_less_trans [OF length_dropWhile_le] by blast
  then show "((m, dropWhile (\<lambda>b. \<not> line_break b) (drop (Suc k) s)), m, s) \<in> measure (\<lambda>(m, s). length s)" by simp
qed

declare redact_marker.simps [simp del]

text \<open>The loop \<^verbatim>\<open>while !safe.is_char_boundary(start) { start += 1; }\<close>; the length is a boundary.\<close>

function boundary_up :: "string \<Rightarrow> nat \<Rightarrow> nat" where
  "boundary_up s i = (if length s \<le> i \<or> is_char_boundary s i then i else boundary_up s (Suc i))"
  by pat_completeness auto
termination by (relation "measure (\<lambda>(s, i). length s - i)") auto

declare boundary_up.simps [simp del]

definition keep_tail :: "string \<Rightarrow> string" where
  "keep_tail s =
     (if MAX_EVIDENCE_TAIL_BYTES < length s
      then drop (boundary_up s (length s - MAX_EVIDENCE_TAIL_BYTES)) s else s)"

definition redact_tail :: "string \<Rightarrow> string" where
  "redact_tail s = keep_tail (fold redact_marker markers s)"

subsection \<open>Evidence documents\<close>

definition evidence_keys :: "string list" where
  "evidence_keys = [''classifier'', ''executable'', ''argv_shape'', ''duration_ms'', ''returncode'', ''spawn_errno'',
     ''error_class'', ''stdout_tail'', ''stderr_tail'', ''stdout_bytes'', ''stderr_bytes'', ''stdout_truncated'',
     ''stderr_truncated'', ''message_id_present'']"

definition bad_evidence :: error where
  "bad_evidence = invalid ''invalid delivery attempt evidence''"

fun as_u64 :: "json \<Rightarrow> int option" where
  "as_u64 (JNum n) = (if 0 \<le> n \<and> n < 2 ^ 64 then Some n else None)"
| "as_u64 _ = None"

fun as_i64 :: "json \<Rightarrow> int option" where
  "as_i64 (JNum n) = (if - (2 ^ 63) \<le> n \<and> n < 2 ^ 63 then Some n else None)"
| "as_i64 _ = None"

fun as_bool :: "json \<Rightarrow> bool option" where
  "as_bool (JBool b) = Some b"
| "as_bool _ = None"

fun as_array :: "json \<Rightarrow> json list option" where
  "as_array (JArr items) = Some items"
| "as_array _ = None"

fun is_number :: "json \<Rightarrow> bool" where
  "is_number (JNum _) = True"
| "is_number _ = False"

definition nonblank_field :: "json \<Rightarrow> string \<Rightarrow> bool" where
  "nonblank_field d key = (case as_str (jfield key d) of Some v \<Rightarrow> trim v \<noteq> [] | None \<Rightarrow> False)"

definition evidence_scalars :: "json \<Rightarrow> bool" where
  "evidence_scalars d \<longleftrightarrow>
     nonblank_field d ''classifier'' \<and> nonblank_field d ''executable''
     \<and> list_all (\<lambda>k. as_u64 (jfield k d) \<noteq> None) [''duration_ms'', ''stdout_bytes'', ''stderr_bytes'']
     \<and> list_all (\<lambda>k. as_bool (jfield k d) \<noteq> None) [''stdout_truncated'', ''stderr_truncated'', ''message_id_present'']"

definition argv_byte :: "char \<Rightarrow> bool" where
  "argv_byte b \<longleftrightarrow> (0x61 \<le> byte_of b \<and> byte_of b \<le> 0x7A) \<or> is_ascii_digit b \<or> b = CHR ''_'' \<or> b = CHR ''-''"

definition evidence_argv :: "json \<Rightarrow> bool" where
  "evidence_argv d =
     (case as_array (jfield ''argv_shape'' d) of
        None \<Rightarrow> False
      | Some parts \<Rightarrow> parts \<noteq> [] \<and> list_all (\<lambda>p. case as_str p of
            None \<Rightarrow> False
          | Some t \<Rightarrow> trim t \<noteq> [] \<and> length t \<le> 64 \<and> list_all argv_byte t) parts)"

definition evidence_codes :: "json \<Rightarrow> bool" where
  "evidence_codes d \<longleftrightarrow>
     list_all (\<lambda>k. jfield k d = JNull \<or> as_i64 (jfield k d) \<noteq> None) [''returncode'', ''spawn_errno'']
     \<and> \<not> (is_number (jfield ''returncode'' d) \<and> is_number (jfield ''spawn_errno'' d))
     \<and> (jfield ''error_class'' d = JNull
        \<or> (case as_str (jfield ''error_class'' d) of Some t \<Rightarrow> trim t \<noteq> [] \<and> length t \<le> 128 | None \<Rightarrow> False))"

text \<open>\<^verbatim>\<open>Map::insert\<close> of a key the object has.\<close>

fun jset :: "string \<Rightarrow> json \<Rightarrow> json \<Rightarrow> json" where
  "jset k v (JObj fs) = JObj (map (\<lambda>(i, w). (i, if i = k then v else w)) fs)"
| "jset k v d = d"

definition was_cut :: "json \<Rightarrow> string \<Rightarrow> string \<Rightarrow> string \<Rightarrow> json" where
  "was_cut d flag kept original = JBool (as_bool (jfield flag d) = Some True \<or> length kept < length original)"

definition sanitized :: "json \<Rightarrow> string \<Rightarrow> string \<Rightarrow> json" where
  "sanitized d out err =
     jset ''stderr_truncated'' (was_cut d ''stderr_truncated'' (redact_tail err) err)
      (jset ''stdout_truncated'' (was_cut d ''stdout_truncated'' (redact_tail out) out)
       (jset ''stderr_tail'' (JStr (redact_tail err)) (jset ''stdout_tail'' (JStr (redact_tail out)) d)))"

fun safe_evidence :: "ext \<Rightarrow> json \<Rightarrow> json res" where
  "safe_evidence x (JObj fs) =
     (let d = JObj fs in
      if length fs \<noteq> length evidence_keys \<or> list_ex (\<lambda>k. map_of fs k = None) evidence_keys then Inl bad_evidence
      else if \<not> evidence_scalars d \<or> \<not> evidence_argv d \<or> \<not> evidence_codes d then Inl bad_evidence
      else case (as_str (jfield ''stdout_tail'' d), as_str (jfield ''stderr_tail'' d)) of
        (Some out, Some err) \<Rightarrow>
          if MAX_EVIDENCE_BYTES < x_json_len x (sanitized d out err)
          then Inl (invalid ''delivery attempt evidence exceeds 16384 bytes'')
          else Inr (sanitized d out err)
      | _ \<Rightarrow> Inl bad_evidence)"
| "safe_evidence x _ = Inl bad_evidence"

definition latest_on :: "ext \<Rightarrow> db \<Rightarrow> string \<Rightarrow> json option res" where
  "latest_on x db delivery =
     (if trim delivery = [] then Inl (invalid ''delivery_id must be nonblank'')
      else optr (\<lambda>r. safe_evidence x (y_evidence r))
        (max_row y_attempt (filter (\<lambda>r. y_delivery r = delivery) (delivery_evidence db))))"

section \<open>Redaction removes every marker\<close>

lemma find_str_Some: "find_str p s = Some k \<Longrightarrow> k \<le> length s \<and> prefix p (drop k s) \<and> \<not> (\<exists>j < k. prefix p (drop j s))"
proof (induction s arbitrary: k)
  case Nil
  then show ?case by (auto split: if_splits)
next
  case (Cons a s)
  show ?case
  proof (cases "starts_with (a # s) p")
    case True
    with Cons.prems show ?thesis by (simp add: starts_with_prefix)
  next
    case False
    with Cons.prems obtain i where i: "find_str p s = Some i" "k = Suc i" by auto
    have "\<not> prefix p (drop j (a # s))" if "j < k" for j
      using that Cons.IH [OF i(1)] False i(2) by (cases j) (auto simp: starts_with_prefix)
    with Cons.IH [OF i(1)] i(2) show ?thesis by auto
  qed
qed

lemma find_str_None: "find_str p s = None \<longleftrightarrow> \<not> sublist p s"
  by (induction s) (auto simp: starts_with_prefix sublist_Cons_right)

lemma sublist_prefix_drop: "sublist p s \<longleftrightarrow> (\<exists>j. j + length p \<le> length s \<and> prefix p (drop j s))"
proof
  assume "sublist p s"
  then obtain as bs where "s = as @ p @ bs" by (auto simp: sublist_def)
  then show "\<exists>j. j + length p \<le> length s \<and> prefix p (drop j s)" by (intro exI [of _ "length as"]) simp
next
  assume "\<exists>j. j + length p \<le> length s \<and> prefix p (drop j s)"
  then obtain j bs where "drop j s = p @ bs" by (auto simp: prefix_def)
  then have "s = take j s @ p @ bs" by (metis append_take_drop_id)
  then show "sublist p s" unfolding sublist_def by blast
qed

lemma find_str_before:
  assumes "find_str p s = Some k" and "p \<noteq> []"
  shows "\<not> sublist p (take k s)"
proof
  assume "sublist p (take k s)"
  then obtain j where j: "j + length p \<le> length (take k s)" "prefix p (drop j (take k s))"
    by (auto simp: sublist_prefix_drop)
  have "j < k" using j(1) assms(2) by (cases p) auto
  moreover have "prefix p (drop j s)"
    using j(2) prefix_order.trans [OF _ take_is_prefix [of "k - j" "drop j s"]] by (simp add: drop_take)
  ultimately show False using find_str_Some [OF assms(1)] by blast
qed

lemma sublist_around:
  assumes "c \<notin> set m" and "sublist m (xs @ c # ys)"
  shows "sublist m xs \<or> sublist m ys"
proof -
  have "sublist m xs" if "m = m1 @ m2" "suffix m1 xs" "prefix m2 (c # ys)" for m1 m2
  proof -
    have "m2 = []" using that(1,3) assms(1) by (cases m2) auto
    with that(1,2) show ?thesis by (simp add: suffix_imp_sublist)
  qed
  moreover have "sublist m ys \<or> m = []" if "sublist m (c # ys)"
    using that assms(1) by (cases m) (auto simp: sublist_Cons_right)
  ultimately show ?thesis using assms(2) by (auto simp: sublist_append)
qed

lemma lower_append [simp]: "to_ascii_lowercase (s @ t) = to_ascii_lowercase s @ to_ascii_lowercase t"
  by (simp add: to_ascii_lowercase_def)

lemma lower_take [simp]: "to_ascii_lowercase (take k s) = take k (to_ascii_lowercase s)"
  by (simp add: to_ascii_lowercase_def take_map)

lemma lower_length [simp]: "length (to_ascii_lowercase s) = length s"
  by (simp add: to_ascii_lowercase_def)

lemma lower_redacted [simp]: "to_ascii_lowercase redacted = ''['' @ ''redacted'' @ '']''"
  by (simp add: to_ascii_lowercase_def redacted_def lower_byte_def is_ascii_uppercase_def)

text \<open>What the markers have in common: they avoid the brackets and the replacement contains none of them.\<close>

lemma marker_shape:
  assumes "m \<in> set markers"
  shows "m \<noteq> []" "CHR ''['' \<notin> set m" "CHR '']'' \<notin> set m" "\<not> sublist m ''redacted''"
  using assms unfolding markers_def str_contains_sublist [symmetric] by auto

lemma no_marker_in_redacted:
  assumes "m \<in> set markers" and "sublist m (xs @ to_ascii_lowercase redacted @ ys)"
  shows "sublist m xs \<or> sublist m ys"
proof -
  note shape = marker_shape [OF assms(1)]
  have "sublist m xs \<or> sublist m (''redacted'' @ CHR '']'' # ys)"
    by (rule sublist_around [OF shape(2)]) (use assms(2) in simp)
  moreover have "sublist m ''redacted'' \<or> sublist m ys" if "sublist m (''redacted'' @ CHR '']'' # ys)"
    using sublist_around [OF shape(3) that] .
  ultimately show ?thesis using shape(4) by blast
qed

lemma redact_step:
  assumes "find_str m (to_ascii_lowercase s) = Some k" and "m \<noteq> []"
  shows "redact_marker m s =
      take k s @ redacted @ redact_marker m (dropWhile (\<lambda>b. \<not> line_break b) (drop (Suc k) s))"
    and "length (dropWhile (\<lambda>b. \<not> line_break b) (drop (Suc k) s)) < length s"
proof -
  have "prefix m (drop k (to_ascii_lowercase s))" using find_str_Some [OF assms(1)] by blast
  then have k: "k < length s" using assms(2) by (cases "k < length s") auto
  then show "redact_marker m s =
      take k s @ redacted @ redact_marker m (dropWhile (\<lambda>b. \<not> line_break b) (drop (Suc k) s))"
    using assms(1) by (subst redact_marker.simps) simp
  from k have "length (drop (Suc k) s) < length s" by simp
  then show "length (dropWhile (\<lambda>b. \<not> line_break b) (drop (Suc k) s)) < length s"
    using le_less_trans [OF length_dropWhile_le] by blast
qed

lemma redact_own:
  assumes "m \<in> set markers"
  shows "\<not> sublist m (to_ascii_lowercase (redact_marker m s))"
proof (induction s rule: measure_induct_rule [of length])
  case (less s)
  note shape = marker_shape [OF assms]
  show ?case
  proof (cases "find_str m (to_ascii_lowercase s)")
    case None
    then show ?thesis by (subst redact_marker.simps) (simp add: find_str_None [symmetric])
  next
    case (Some k)
    note st = redact_step [OF Some shape(1)]
    have "\<not> sublist m (take k (to_ascii_lowercase s))" using find_str_before [OF Some shape(1)] .
    with less.IH [OF st(2)] no_marker_in_redacted [OF assms] show ?thesis unfolding st(1) lower_append lower_take by blast
  qed
qed

lemma redact_other:
  assumes "m \<in> set markers" and "n \<in> set markers" and "\<not> sublist n (to_ascii_lowercase s)"
  shows "\<not> sublist n (to_ascii_lowercase (redact_marker m s))"
  using assms(3)
proof (induction s rule: measure_induct_rule [of length])
  case (less s)
  note shape = marker_shape [OF assms(1)]
  show ?case
  proof (cases "find_str m (to_ascii_lowercase s)")
    case None
    then show ?thesis using less.prems by (subst redact_marker.simps) simp
  next
    case (Some k)
    note st = redact_step [OF Some shape(1)]
    let ?r = "dropWhile (\<lambda>b. \<not> line_break b) (drop (Suc k) s)"
    have "suffix ?r s" using suffix_order.trans [OF suffix_dropWhile suffix_drop] .
    then obtain p where "s = p @ ?r" by (auto simp: suffix_def)
    then have "to_ascii_lowercase s = to_ascii_lowercase p @ to_ascii_lowercase ?r" by (metis lower_append)
    then have "\<not> sublist n (to_ascii_lowercase ?r)" using less.prems by (metis sublist_append)
    moreover have "\<not> sublist n (take k (to_ascii_lowercase s))"
      using less.prems sublist_order.order.trans [OF _ prefix_imp_sublist [OF take_is_prefix]] by blast
    ultimately show ?thesis
      using less.IH [OF st(2)] no_marker_in_redacted [OF assms(2)] unfolding st(1) lower_append lower_take by blast
  qed
qed

lemma redact_all:
  assumes "set ms \<subseteq> set markers" and "n \<in> set markers" and "n \<in> set ms \<or> \<not> sublist n (to_ascii_lowercase s)"
  shows "\<not> sublist n (to_ascii_lowercase (fold redact_marker ms s))"
  using assms
proof (induction ms arbitrary: s)
  case (Cons m ms)
  have "n \<in> set ms \<or> \<not> sublist n (to_ascii_lowercase (redact_marker m s))"
    using Cons.prems redact_own [of m s] redact_other [of m n s] by auto
  with Cons show ?case by simp
qed simp

lemma keep_tail_suffix: "suffix (keep_tail s) s"
  by (simp add: keep_tail_def suffix_drop)

lemma boundary_up_ge: "i \<le> boundary_up s i"
proof (induction s i rule: boundary_up.induct)
  case (1 s i)
  then show ?case by (subst boundary_up.simps) force
qed

lemma boundary_up_boundary: "i \<le> length s \<Longrightarrow> is_char_boundary s (boundary_up s i)"
proof (induction s i rule: boundary_up.induct)
  case (1 s i)
  then show ?case by (subst boundary_up.simps) auto
qed

lemma keep_tail_length: "length (keep_tail s) \<le> MAX_EVIDENCE_TAIL_BYTES"
  using boundary_up_ge [of "length s - MAX_EVIDENCE_TAIL_BYTES" s] by (auto simp: keep_tail_def)

lemma lower_suffix: "suffix t s \<Longrightarrow> suffix (to_ascii_lowercase t) (to_ascii_lowercase s)"
  by (auto simp: suffix_def)

lemma redact_tail_clean: "m \<in> set markers \<Longrightarrow> \<not> sublist m (to_ascii_lowercase (redact_tail s))"
  using redact_all [of markers m s]
    sublist_order.order.trans [OF _ suffix_imp_sublist [OF lower_suffix [OF keep_tail_suffix]]]
  unfolding redact_tail_def by blast

lemma redact_absent: "\<not> sublist m (to_ascii_lowercase s) \<Longrightarrow> redact_marker m s = s"
  by (subst redact_marker.simps) (simp add: find_str_None [symmetric] split: option.split)

lemma redact_all_absent:
  "(\<And>m. m \<in> set ms \<Longrightarrow> \<not> sublist m (to_ascii_lowercase s)) \<Longrightarrow> fold redact_marker ms s = s"
  by (induction ms) (simp_all add: redact_absent)

lemma redact_tail_length: "length (redact_tail s) \<le> 4096"
  using keep_tail_length by (simp add: redact_tail_def MAX_EVIDENCE_TAIL_BYTES_def)

lemma redact_tail_idem [simp]: "redact_tail (redact_tail s) = redact_tail s"
proof -
  have "fold redact_marker markers (redact_tail s) = redact_tail s"
    by (rule redact_all_absent) (rule redact_tail_clean)
  then show ?thesis
    using redact_tail_length [of s] by (simp add: redact_tail_def [of "redact_tail s"] keep_tail_def MAX_EVIDENCE_TAIL_BYTES_def)
qed

text \<open>Redaction cuts only at ASCII characters, so the text stays UTF-8.\<close>

lemma ascii_not_continuation: "byte_of b < 0x80 \<Longrightarrow> \<not> continuation b"
  by (simp add: continuation_def)

lemma marker_head:
  assumes "m \<in> set markers" and "prefix m (drop k (to_ascii_lowercase s))"
  shows "k < length s" and "byte_of (s ! k) < 0x80"
proof -
  have ne: "m \<noteq> []" using marker_shape(1) [OF assms(1)] .
  then show k: "k < length s" using assms(2) by (cases "k < length s") auto
  have "drop k (to_ascii_lowercase s) ! 0 = m ! 0" using assms(2) ne by (auto simp: prefix_def nth_append)
  then have h: "lower_byte (s ! k) = m ! 0" using k by (simp add: to_ascii_lowercase_def)
  have "byte_of (m ! 0) < 0x80" using assms(1) by (auto simp: markers_def)
  with h show "byte_of (s ! k) < 0x80"
    by (auto simp: lower_byte_def is_ascii_uppercase_def split: if_splits)
qed

lemma valid_rest:
  assumes "valid_utf8 s"
  shows "valid_utf8 (dropWhile (\<lambda>b. \<not> line_break b) (drop n s))"
proof -
  let ?r = "dropWhile (\<lambda>b. \<not> line_break b) (drop n s)"
  have "suffix ?r s" using suffix_order.trans [OF suffix_dropWhile suffix_drop] .
  then obtain p where p: "s = p @ ?r" by (auto simp: suffix_def)
  have "is_char_boundary s (length p)"
  proof (cases ?r)
    case Nil
    with p show ?thesis by (metis append_Nil2 is_char_boundary_length)
  next
    case (Cons b bs)
    then have "line_break b" by (metis hd_dropWhile list.distinct(1) list.sel(1))
    then have "\<not> continuation b" by (auto simp: line_break_def ascii_not_continuation)
    moreover have "s ! length p = b" "length p < length s" using p Cons by (metis nth_append_length, metis length_append length_Cons less_add_Suc1 add_Suc_right)
    ultimately show ?thesis by (simp add: is_char_boundary_def)
  qed
  from valid_utf8_take(2) [OF assms this] p show ?thesis by (metis append_eq_conv_conj)
qed

lemma valid_redacted: "valid_utf8 redacted"
  by (rule valid_utf8_ascii) (simp add: redacted_def is_ascii_def)

lemma redact_marker_valid:
  assumes "m \<in> set markers" and "valid_utf8 s"
  shows "valid_utf8 (redact_marker m s)"
  using assms(2)
proof (induction s rule: measure_induct_rule [of length])
  case (less s)
  show ?case
  proof (cases "find_str m (to_ascii_lowercase s)")
    case None
    with less.prems show ?thesis by (subst redact_marker.simps) simp
  next
    case (Some k)
    note st = redact_step [OF Some marker_shape(1) [OF assms(1)]]
    have "prefix m (drop k (to_ascii_lowercase s))" using find_str_Some [OF Some] by blast
    from marker_head [OF assms(1) this] have "is_char_boundary s k"
      by (simp add: is_char_boundary_def ascii_not_continuation)
    then have "valid_utf8 (take k s)" using valid_utf8_take(1) less.prems by blast
    then show ?thesis unfolding st(1)
      by (intro valid_utf8_append valid_redacted less.IH [OF st(2) valid_rest [OF less.prems]])
  qed
qed

lemma redact_tail_valid: "valid_utf8 s \<Longrightarrow> valid_utf8 (redact_tail s)"
proof -
  assume s: "valid_utf8 s"
  have "set ms \<subseteq> set markers \<Longrightarrow> valid_utf8 t \<Longrightarrow> valid_utf8 (fold redact_marker ms t)" for ms t
    by (induction ms arbitrary: t) (simp_all add: redact_marker_valid)
  then have "valid_utf8 (fold redact_marker markers s)" using s by blast
  then show ?thesis
    using valid_utf8_take(2) [OF _ boundary_up_boundary] by (simp add: redact_tail_def keep_tail_def)
qed

section \<open>Sanitising is idempotent\<close>

definition keys_of :: "json \<Rightarrow> string list" where
  "keys_of d = (case d of JObj fs \<Rightarrow> map fst fs | _ \<Rightarrow> [])"

lemma map_of_jset:
  "map_of (map (\<lambda>(i, w). (i, if i = k then v else w)) fs) i =
     (if i = k \<and> k \<in> set (map fst fs) then Some v else map_of fs i)"
proof (cases "i = k")
  case True
  have "map_of (map (\<lambda>(i, w). (i, if i = k then v else w)) fs) k =
      (if k \<in> set (map fst fs) then Some v else map_of fs k)"
    by (induction fs) (simp_all add: case_prod_unfold)
  then show ?thesis using True by simp
next
  case False
  have "i \<noteq> k \<Longrightarrow> map_of (map (\<lambda>(i, w). (i, if i = k then v else w)) fs) i = map_of fs i"
    by (induction fs) (simp_all add: case_prod_unfold)
  then show ?thesis using False by simp
qed

lemma jfield_jset:
  "jfield i (jset k v d) = (if i = k \<and> k \<in> set (keys_of d) then v else jfield i d)"
  by (cases d) (simp_all add: keys_of_def map_of_jset)

lemma keys_jset [simp]: "keys_of (jset k v d) = keys_of d"
  by (cases d) (simp_all add: keys_of_def comp_def case_prod_unfold)

lemma keys_sanitized [simp]: "keys_of (sanitized d out err) = keys_of d"
  by (simp add: sanitized_def)

lemma safe_evidence_Inr:
  assumes "safe_evidence x d = Inr e"
  obtains out err where "set evidence_keys \<subseteq> set (keys_of d)" "length (keys_of d) = length evidence_keys"
    "evidence_scalars d" "evidence_argv d" "evidence_codes d" "jfield ''stdout_tail'' d = JStr out"
    "jfield ''stderr_tail'' d = JStr err" "e = sanitized d out err" "x_json_len x e \<le> MAX_EVIDENCE_BYTES"
proof (cases d)
  case (JObj fs)
  have as_str_Some: "as_str j = Some t \<longleftrightarrow> j = JStr t" for j t by (cases j) auto
  from assms JObj have "\<not> list_ex (\<lambda>k. map_of fs k = None) evidence_keys"
    by (auto simp: Let_def split: if_split_asm)
  then have "set evidence_keys \<subseteq> set (keys_of d)"
    by (auto simp: list_ex_iff map_of_eq_None_iff keys_of_def JObj)
  then show ?thesis
    using assms that unfolding JObj safe_evidence.simps
    by (simp add: Let_def keys_of_def as_str_Some not_less split: if_split_asm option.split_asm)
qed (use assms in simp_all)

lemma safe_evidence_InrI:
  assumes "set evidence_keys \<subseteq> set (keys_of d)" "length (keys_of d) = length evidence_keys"
    "evidence_scalars d" "evidence_argv d" "evidence_codes d" "jfield ''stdout_tail'' d = JStr out"
    "jfield ''stderr_tail'' d = JStr err" "x_json_len x (sanitized d out err) \<le> MAX_EVIDENCE_BYTES"
  shows "safe_evidence x d = Inr (sanitized d out err)"
proof -
  have "keys_of d \<noteq> []" using assms(2) by (auto simp: evidence_keys_def)
  then obtain fs where d: "d = JObj fs" by (auto simp: keys_of_def split: json.splits)
  have "\<not> list_ex (\<lambda>k. map_of fs k = None) evidence_keys"
    using assms(1) by (auto simp: d keys_of_def list_ex_iff map_of_eq_None_iff)
  moreover have "length fs = length evidence_keys" using assms(2) by (simp add: d keys_of_def)
  moreover note assms(3-8)
  ultimately show ?thesis unfolding d safe_evidence.simps by (simp add: Let_def del: jfield.simps)
qed

text \<open>The four fields the sanitiser sets, read back; every other field is the input's.\<close>

lemma jfield_sanitized:
  assumes "set evidence_keys \<subseteq> set (keys_of d)"
  shows "jfield k (sanitized d out err) =
    (if k = ''stderr_truncated'' then was_cut d ''stderr_truncated'' (redact_tail err) err
     else if k = ''stdout_truncated'' then was_cut d ''stdout_truncated'' (redact_tail out) out
     else if k = ''stderr_tail'' then JStr (redact_tail err)
     else if k = ''stdout_tail'' then JStr (redact_tail out) else jfield k d)"
proof -
  have "''stderr_truncated'' \<in> set (keys_of d)" "''stdout_truncated'' \<in> set (keys_of d)"
    "''stderr_tail'' \<in> set (keys_of d)" "''stdout_tail'' \<in> set (keys_of d)"
    using assms by (simp_all add: evidence_keys_def)
  then show ?thesis by (simp add: sanitized_def jfield_jset)
qed

lemma checks_sanitized:
  assumes "set evidence_keys \<subseteq> set (keys_of d)"
  shows "evidence_scalars d \<Longrightarrow> evidence_scalars (sanitized d out err)"
    and "evidence_argv (sanitized d out err) = evidence_argv d"
    and "evidence_codes (sanitized d out err) = evidence_codes d"
  by (simp_all add: evidence_scalars_def evidence_argv_def evidence_codes_def nonblank_field_def
      jfield_sanitized [OF assms] was_cut_def)

lemma jset_same: "jset k v (jset k v d) = jset k v d"
  by (cases d) auto

lemma jset_commute: "i \<noteq> k \<Longrightarrow> jset i v (jset k w d) = jset k w (jset i v d)"
  by (cases d) auto

lemma sanitized_again:
  assumes "set evidence_keys \<subseteq> set (keys_of d)"
  shows "sanitized (sanitized d out err) (redact_tail out) (redact_tail err) = sanitized d out err"
proof -
  let ?e = "sanitized d out err"
  have "was_cut ?e ''stderr_truncated'' (redact_tail err) (redact_tail err)
      = was_cut d ''stderr_truncated'' (redact_tail err) err"
    and "was_cut ?e ''stdout_truncated'' (redact_tail out) (redact_tail out)
      = was_cut d ''stdout_truncated'' (redact_tail out) out"
    by (simp_all add: was_cut_def [of ?e] jfield_sanitized [OF assms]) (simp_all add: was_cut_def)
  then show ?thesis
    by (simp add: sanitized_def [of ?e]) (simp add: sanitized_def jset_same jset_commute)
qed

lemma safe_evidence_fixed:
  assumes "safe_evidence x d = Inr e"
  shows "safe_evidence x e = Inr e"
proof -
  from assms obtain out err where keys: "set evidence_keys \<subseteq> set (keys_of d)"
      "length (keys_of d) = length evidence_keys"
    and checks: "evidence_scalars d" "evidence_argv d" "evidence_codes d"
    and e: "e = sanitized d out err" "x_json_len x e \<le> MAX_EVIDENCE_BYTES"
    by (rule safe_evidence_Inr)
  have "safe_evidence x e = Inr (sanitized e (redact_tail out) (redact_tail err))"
    using keys checks e by (intro safe_evidence_InrI)
      (simp_all add: checks_sanitized [OF keys(1)] jfield_sanitized [OF keys(1)] sanitized_again [OF keys(1)])
  then show ?thesis by (simp add: e sanitized_again [OF keys(1)])
qed

interpretation evidence: normaliser "safe_evidence x" for x
  by unfold_locales (rule safe_evidence_fixed)

section \<open>Properties\<close>

definition sample_evidence :: json where
  "sample_evidence = JObj [(''classifier'', JStr ''exit''), (''executable'', JStr ''codex''),
     (''argv_shape'', JArr [JStr ''exec'']), (''duration_ms'', JNum 5), (''returncode'', JNum 1),
     (''spawn_errno'', JNull), (''error_class'', JNull), (''stdout_tail'', JStr ''ok''),
     (''stderr_tail'', JStr ''my SECRET=x''), (''stdout_bytes'', JNum 2), (''stderr_bytes'', JNum 11),
     (''stdout_truncated'', JBool False), (''stderr_truncated'', JBool False), (''message_id_present'', JBool False)]"

definition sample_stored :: json where
  "sample_stored = JObj [(''classifier'', JStr ''exit''), (''executable'', JStr ''codex''),
     (''argv_shape'', JArr [JStr ''exec'']), (''duration_ms'', JNum 5), (''returncode'', JNum 1),
     (''spawn_errno'', JNull), (''error_class'', JNull), (''stdout_tail'', JStr ''ok''),
     (''stderr_tail'', JStr ''my [redacted]''), (''stdout_bytes'', JNum 2), (''stderr_bytes'', JNum 11),
     (''stdout_truncated'', JBool False), (''stderr_truncated'', JBool False), (''message_id_present'', JBool False)]"

lemma redact_samples: "redact_tail ''my SECRET=x'' = ''my [redacted]''" "redact_tail ''ok'' = ''ok''"
  by code_simp+

lemma sample_evidence_checks:
  "keys_of sample_evidence = evidence_keys" "evidence_scalars sample_evidence"
  "evidence_argv sample_evidence" "evidence_codes sample_evidence"
  by (simp add: keys_of_def sample_evidence_def evidence_keys_def)
    (simp_all add: sample_evidence_def evidence_scalars_def evidence_argv_def evidence_codes_def
      nonblank_field_def argv_byte_def text_eval del: not_None_eq)

lemma sample_evidence_safe:
  assumes "x_json_len x sample_stored \<le> 16384"
  shows "safe_evidence x sample_evidence = Inr sample_stored"
proof -
  have tails: "jfield ''stdout_tail'' sample_evidence = JStr ''ok''"
    "jfield ''stderr_tail'' sample_evidence = JStr ''my SECRET=x''"
    and s: "sanitized sample_evidence ''ok'' ''my SECRET=x'' = sample_stored"
    by (simp_all add: sanitized_def redact_samples was_cut_def) (simp_all add: sample_evidence_def sample_stored_def)
  show ?thesis
    using safe_evidence_InrI [OF _ _ sample_evidence_checks(2-) tails, of x] assms
    by (simp add: s sample_evidence_checks(1) MAX_EVIDENCE_BYTES_def)
qed

text \<open>
  C25 (safety). Evidence accepted for storage or for display carries both diagnostic tails with every
  credential marker gone, in any letter case, and at most 4096 bytes of each; a tail that was text stays text.
\<close>

theorem redact_hides:
  assumes "safe_evidence x d = Inr e" "key \<in> {''stdout_tail'', ''stderr_tail''}"
  shows "\<exists>t r. jfield key d = JStr t \<and> jfield key e = JStr r \<and> length r \<le> 4096
    \<and> (\<forall>m \<in> set markers. \<not> sublist m (to_ascii_lowercase r)) \<and> (valid_utf8 t \<longrightarrow> valid_utf8 r)"
proof -
  from assms(1) obtain out err where "set evidence_keys \<subseteq> set (keys_of d)"
    "jfield ''stdout_tail'' d = JStr out" "jfield ''stderr_tail'' d = JStr err" "e = sanitized d out err"
    by (rule safe_evidence_Inr)
  moreover note redact_tail_length redact_tail_clean redact_tail_valid
  ultimately show ?thesis using assms(2) by (auto simp: jfield_sanitized)
qed

theorem redact_hides_witness:
  "\<exists>r. jfield ''stderr_tail'' sample_stored = JStr r \<and> \<not> sublist ''secret'' (to_ascii_lowercase r)"
  using redact_hides [OF sample_evidence_safe [of sample_ext], of "''stderr_tail''"]
  by (fastforce simp: sample_ext_def markers_def)

end
