(* ===== verification/Outbox.thy ===== *)
theory Outbox
  imports Evidence PoolSettle
begin

text \<open>
  The notice outbox (\<^verbatim>\<open>crates/agent-run-store/src/delivery.rs\<close>): leasing the oldest due delivery to one
  dispatcher, freezing its publication, recording the outcome of an attempt, cancelling, and expiring.
  A run of these operations in any order never hands out an attempt twice, never touches a delivered or
  cancelled notice again, and never changes a frozen publication.
\<close>

section \<open>Model\<close>

definition BINDING_WINDOW_SECONDS :: rat where
  "BINDING_WINDOW_SECONDS = 3600"

definition DEFAULT_LEASE_SECONDS :: rat where
  "DEFAULT_LEASE_SECONDS = 30"

definition U32_MAX :: nat where
  "U32_MAX = 2 ^ 32 - 1"

record delivery_policy =
  dp_retry_base :: rat
  dp_retry_cap :: rat
  dp_max_attempts :: nat
  dp_lease :: f64

definition update_delivery :: "(delivery_row \<Rightarrow> bool) \<Rightarrow> (delivery_row \<Rightarrow> delivery_row) \<Rightarrow> db \<Rightarrow> db" where
  "update_delivery P f db = db\<lparr> deliveries := map (\<lambda>d. if P d then f d else d) (deliveries db) \<rparr>"

definition update_bridge :: "(bridge_row \<Rightarrow> bool) \<Rightarrow> (bridge_row \<Rightarrow> bridge_row) \<Rightarrow> db \<Rightarrow> db" where
  "update_bridge P f db = db\<lparr> bridge_intents := map (\<lambda>b. if P b then f b else b) (bridge_intents db) \<rparr>"

definition bridge_of :: "db \<Rightarrow> string \<Rightarrow> bridge_row option" where
  "bridge_of db i = find (\<lambda>b. b_delivery b = i) (bridge_intents db)"

text \<open>\<^verbatim>\<open>SET state=?, lease_owner=NULL, lease_until=NULL, next_attempt_at=NULL\<close>.\<close>

definition released :: "string \<Rightarrow> delivery_row \<Rightarrow> delivery_row" where
  "released state d =
     d\<lparr> d_state := state, d_lease_owner := None, d_lease_until := None, d_next_attempt_at := None \<rparr>"

definition live_lease :: "string \<Rightarrow> string \<Rightarrow> nat \<Rightarrow> rat \<Rightarrow> delivery_row \<Rightarrow> bool" where
  "live_lease i owner attempt tm d \<longleftrightarrow>
     d_id d = i \<and> d_state d = ''sending'' \<and> d_lease_owner d = Some owner \<and> d_attempts d = attempt
     \<and> (case d_lease_until d of Some u \<Rightarrow> tm < u | None \<Rightarrow> False)"

subsection \<open>Freezing a publication\<close>

record prepare_bridge =
  pb_delivery :: string
  pb_owner :: string
  pb_attempt :: nat
  pb_intent :: bridge_intent
  pb_at :: f64

definition fence_unknown :: "string \<Rightarrow> db \<Rightarrow> db" where
  "fence_unknown i = update_bridge (\<lambda>b. b_delivery b = i \<and> b_custody b \<noteq> CustodyAccepted)
     (\<lambda>b. b\<lparr> b_custody := OutcomeUnknown \<rparr>)"

definition prepare_tx :: "prepare_bridge \<Rightarrow> rat \<Rightarrow> db \<Rightarrow> error + (bridge_intent \<times> db)" where
  "prepare_tx op tm db =
     (case (if list_ex (live_lease (pb_delivery op) (pb_owner op) (pb_attempt op) tm) (deliveries db)
            then bridge_of db (pb_delivery op) else None) of
        None \<Rightarrow> Inl (invalid ''Bridge publication lease is not owned'')
      | Some b \<Rightarrow>
          (case b_intent b of
             Some existing \<Rightarrow>
               if existing \<noteq> pb_intent op then Inl Conflict
               else Inr (pb_intent op, fence_unknown (pb_delivery op) db)
           | None \<Rightarrow>
               Inr (pb_intent op, fence_unknown (pb_delivery op)
                 (update_bridge (\<lambda>b. b_delivery b = pb_delivery op \<and> b_intent b = None)
                    (\<lambda>b. b\<lparr> b_intent := Some (pb_intent op) \<rparr>) db))))"

definition prepare_bridge_delivery :: "prepare_bridge \<Rightarrow> db \<Rightarrow> bridge_intent res \<times> db" where
  "prepare_bridge_delivery op db =
     (case pb_at op of
        NotFinite \<Rightarrow> (Inl (invalid ''invalid Bridge publication intention''), db)
      | Finite tm \<Rightarrow>
          if 65536 < length (bi_message (pb_intent op))
          then (Inl (invalid ''invalid Bridge publication intention''), db)
          else commit db (prepare_tx op tm db))"

subsection \<open>Cancelling and expiring\<close>

definition cancellable :: "string \<Rightarrow> delivery_row \<Rightarrow> bool" where
  "cancellable i d \<longleftrightarrow> d_id d = i \<and> d_state d \<notin> {''delivered'', ''cancelled''}"

definition cancel_notice :: "string \<Rightarrow> db \<Rightarrow> bool res \<times> db" where
  "cancel_notice i db =
     (if trim i = [] then (Inl (invalid ''delivery_id must be nonblank''), db)
      else (Inr (length (filter (cancellable i) (deliveries db)) = 1),
            update_delivery (cancellable i) (released ''cancelled'') db))"

definition delivery_event :: "db \<Rightarrow> delivery_row \<Rightarrow> event_row option" where
  "delivery_event db d = find (\<lambda>v. Some (v_seq v) = d_event d) (events db)"

definition delivery_agent :: "db \<Rightarrow> delivery_row \<Rightarrow> agent_row option" where
  "delivery_agent db d = find (\<lambda>a. Some (a_id a) = d_agent d) (agents db)"

definition expirable :: "db \<Rightarrow> rat \<Rightarrow> delivery_row \<Rightarrow> bool" where
  "expirable db tm d =
     (case (delivery_agent db d, delivery_event db d) of
        (Some a, Some v) \<Rightarrow>
          d_state d = ''waiting_binding''
          \<and> (v_kind v = ''pool_join_needs_action''
             \<or> (v_kind v \<notin> {''worker_notification'', ''pool_completed''} \<and> terminal (a_status a)))
          \<and> v_at v \<le> tm - BINDING_WINDOW_SECONDS
      | _ \<Rightarrow> False)"

definition event_time :: "db \<Rightarrow> delivery_row \<Rightarrow> rat" where
  "event_time db d = (case delivery_event db d of Some v \<Rightarrow> v_at v | None \<Rightarrow> 0)"

definition expired_ids :: "db \<Rightarrow> rat \<Rightarrow> nat option \<Rightarrow> string list" where
  "expired_ids db tm limit =
     (let ids = map d_id (sort_key (\<lambda>d. (event_time db d, d_id d)) (filter (expirable db tm) (deliveries db)))
      in case limit of None \<Rightarrow> ids | Some n \<Rightarrow> take n ids)"

definition expire_unbound_batch :: "f64 \<Rightarrow> nat option \<Rightarrow> db \<Rightarrow> string list res \<times> db" where
  "expire_unbound_batch at_time limit db =
     (case at_time of
        NotFinite \<Rightarrow> (Inl (invalid ''expiry time must be finite''), db)
      | Finite tm \<Rightarrow>
          (let ids = expired_ids db tm limit in
           (Inr ids, fold (\<lambda>i. update_delivery (\<lambda>d. d_id d = i \<and> d_state d = ''waiting_binding'') (released ''expired''))
              ids db)))"

definition public_state_on :: "db \<Rightarrow> string \<Rightarrow> string \<Rightarrow> string" where
  "public_state_on db i local_state =
     (case map_option b_custody (bridge_of db i) of
        Some CustodyAccepted \<Rightarrow> ''custody_accepted''
      | Some OutcomeUnknown \<Rightarrow> ''outcome_unknown''
      | _ \<Rightarrow> local_state)"

subsection \<open>The payload of a claim\<close>

definition entry_view :: "ext \<Rightarrow> entry_row \<Rightarrow> pool_entry_view res" where
  "entry_view x e =
     bindr (optr (column_id x) (e_author_agent e)) (\<lambda>author.
       Inr \<lparr> ev_seq = e_seq e, ev_roster_revision = e_roster_revision e, ev_author_kind = e_author_kind e,
             ev_author_agent_id = author, ev_author_name = e_author_name e, ev_author_role = e_author_role e,
             ev_direction = e_direction e, ev_kind = e_kind e, ev_severity = e_severity e,
             ev_proposal_seq = e_proposal_seq e, ev_decision = e_decision e, ev_body = e_body e \<rparr>)"

definition bounded :: "string option \<Rightarrow> string option" where
  "bounded v = (case v of None \<Rightarrow> None
     | Some s \<Rightarrow> if trim s \<noteq> [] \<and> length (chars s) \<le> 128 then Some s else None)"

record worker_notice =
  wn_notification_id :: string
  wn_agent_id :: string
  wn_run_id :: string
  wn_kind :: worker_message_kind
  wn_message :: string

definition validate_worker_notice :: "worker_notice \<Rightarrow> unit res" where
  "validate_worker_notice n =
     (let i = wn_notification_id n; m = wn_message n in
      if \<not> starts_with i ''ntf_'' \<or> 512 < length i \<or> drop 4 i = []
         \<or> \<not> list_all (\<lambda>b. is_ascii_alphanumeric b \<or> b \<in> set ''-_'') (drop 4 i)
         \<or> trim m = [] \<or> 2048 < length m
         \<or> list_ex (\<lambda>c. is_control c \<and> c \<noteq> 0x0A \<and> c \<noteq> 0x09) (chars m)
      then Inl (Validation ''invalid stored worker notice'') else Inr ())"

datatype notice_payload =
    RestartPayload string "bridge_intent option"
  | AttentionPayload pool_notice
  | PoolPayload pool_notice
  | WorkerPayload worker_notice "string option"
  | CompletionPayload string string string status "string option" "string option" "string option" "string option"

definition restart_notice_of :: "db \<Rightarrow> string \<Rightarrow> restart_notice_row option" where
  "restart_notice_of db i = find (\<lambda>n. rn_delivery n = i) (restart_notices db)"

definition is_prior_notice :: "restart_notice_row \<Rightarrow> restart_notice_row \<Rightarrow> bool" where
  "is_prior_notice n p \<longleftrightarrow>
     rn_stage n = ''after'' \<and> rn_stage p = ''before'' \<and> rn_restart p = rn_restart n
     \<and> rn_transport p = rn_transport n \<and> rn_external p = rn_external n"

definition before_intent :: "db \<Rightarrow> restart_notice_row \<Rightarrow> bridge_intent option" where
  "before_intent db n =
     (case find (\<lambda>p. is_prior_notice n p \<and> bridge_of db (rn_delivery p) \<noteq> None) (restart_notices db) of
        None \<Rightarrow> None
      | Some p \<Rightarrow> Option.bind (bridge_of db (rn_delivery p)) b_intent)"

text \<open>A text column of a document the store wrote: \<^verbatim>\<open>json_extract\<close> of a string.\<close>

definition text_column :: "json \<Rightarrow> string res" where
  "text_column j = ok_or bad_column (as_str j)"

definition pool_notice_of :: "ext \<Rightarrow> string \<Rightarrow> string \<Rightarrow> string \<Rightarrow> pool_notice res" where
  "pool_notice_of x i pool message =
     bindr (parse_pool x pool) (\<lambda>p.
     let n = \<lparr> pn_notification_id = i, pn_pool_id = p, pn_message = message \<rparr> in
     bindr (validate_notice n) (\<lambda>_. Inr n))"

definition attention_facts :: "db \<Rightarrow> string \<Rightarrow> (string \<times> string) option res" where
  "attention_facts db i =
     (case Option.bind (find (\<lambda>d. d_id d = i) (deliveries db)) (delivery_event db) of
        None \<Rightarrow> Inr None
      | Some v \<Rightarrow>
          if v_kind v \<noteq> ''pool_join_needs_action'' then Inr None
          else bindr (text_column (jfield ''pool_id'' (v_data v))) (\<lambda>p.
               bindr (text_column (jfield ''notice'' (v_data v))) (\<lambda>m. Inr (Some (p, m)))))"

definition pool_facts :: "db \<Rightarrow> string \<Rightarrow> (string \<times> string) option res" where
  "pool_facts db i =
     (case (find (\<lambda>p. p_completion_delivery p = Some i) (pools db),
            Option.bind (find (\<lambda>d. d_id d = i) (deliveries db)) (delivery_event db)) of
        (Some p, Some v) \<Rightarrow> bindr (text_column (jfield ''notice'' (v_data v))) (\<lambda>m. Inr (Some (p_id p, m)))
      | _ \<Rightarrow> Inr None)"

definition worker_payload :: "ext \<Rightarrow> db \<Rightarrow> string \<Rightarrow> string \<Rightarrow> string \<Rightarrow> notification_row \<Rightarrow> notice_payload res" where
  "worker_payload x db i agent rt n =
     bindr (optr (entry_view x) (find (\<lambda>e. e_delivery e = Some i) (entries db))) (\<lambda>view.
     bindr (optr render_entry view) (\<lambda>entry.
     bindr (parse_agent x rt) (\<lambda>r.
     bindr (parse_agent x agent) (\<lambda>run.
     let w = \<lparr> wn_notification_id = i, wn_agent_id = r, wn_run_id = run, wn_kind = n_kind n, wn_message = n_message n \<rparr> in
     bindr (validate_worker_notice w) (\<lambda>_. Inr (WorkerPayload w entry))))))"

definition completion_payload :: "ext \<Rightarrow> string \<Rightarrow> string \<Rightarrow> string \<Rightarrow> agent_row \<Rightarrow> notice_payload res" where
  "completion_payload x i agent rt a =
     (if \<not> terminal (a_status a) \<or> trim i = [] \<or> 512 < length i
      then Inl (invalid ''invalid completion lifecycle fields'')
      else
      bindr (parse_agent x rt) (\<lambda>r.
      bindr (parse_agent x agent) (\<lambda>run.
        Inr (CompletionPayload i r run (a_status a) (bounded (Some (a_runtime a))) (bounded (Some (a_model a)))
          (bounded (a_effort a))
          (if a_status a \<in> {Failed, TimedOut, Lost} then bounded (a_failure_kind a) else None)))))"

definition agent_payload :: "ext \<Rightarrow> db \<Rightarrow> string \<Rightarrow> string \<Rightarrow> notice_payload res" where
  "agent_payload x db i agent =
     bindr (attention_facts db i) (\<lambda>attention.
     bindr (pool_facts db i) (\<lambda>pool.
     case (attention, pool) of
       (Some (p, m), _) \<Rightarrow> bindr (pool_notice_of x i p m) (\<lambda>n. Inr (AttentionPayload n))
     | (None, Some (p, m)) \<Rightarrow> bindr (pool_notice_of x i p m) (\<lambda>n. Inr (PoolPayload n))
     | (None, None) \<Rightarrow>
         bindr (ok_or no_rows (agent_by_id db agent)) (\<lambda>a.
         case find (\<lambda>n. n_delivery n = i) (notifications db) of
           Some n \<Rightarrow> worker_payload x db i agent (record_root a) n
         | None \<Rightarrow> completion_payload x i agent (record_root a) a)))"

definition claim_payload :: "ext \<Rightarrow> db \<Rightarrow> string \<Rightarrow> string option \<Rightarrow> notice_payload res" where
  "claim_payload x db i agent =
     (case restart_notice_of db i of
        Some n \<Rightarrow> if rn_message n = [] then Inl (invalid ''invalid restart notice'')
                  else Inr (RestartPayload (rn_message n) (before_intent db n))
      | None \<Rightarrow>
          bindr (ok_or (invalid ''delivery has no agent or restart notice'') agent) (agent_payload x db i))"

subsection \<open>Claiming the oldest due delivery\<close>

record claim_delivery =
  cd_owner :: string
  cd_at :: f64
  cd_policy :: delivery_policy

record claimed =
  cl_delivery :: string
  cl_owner :: string
  cl_attempt :: nat
  cl_transport :: string
  cl_session :: string
  cl_payload :: notice_payload
  cl_bridge_owned :: bool
  cl_bridge_intent :: "bridge_intent option"
  cl_bridge_unknown :: bool

definition lease_seconds :: "delivery_policy \<Rightarrow> rat" where
  "lease_seconds p = (case dp_lease p of
     Finite l \<Rightarrow> if 0 < l then l else DEFAULT_LEASE_SECONDS | NotFinite \<Rightarrow> DEFAULT_LEASE_SECONDS)"

definition stale_waiting :: "db \<Rightarrow> rat \<Rightarrow> delivery_row \<Rightarrow> bool" where
  "stale_waiting db tm d \<longleftrightarrow>
     d_state d = ''waiting_binding'' \<and> \<not> list_ex (\<lambda>p. p_completion_delivery p = Some (d_id d)) (pools db)
     \<and> list_ex (\<lambda>a. Some (a_id a) = d_agent d \<and> terminal (a_status a)) (agents db)
     \<and> list_ex (\<lambda>v. Some (v_seq v) = d_event d \<and> v_at v \<le> tm - BINDING_WINDOW_SECONDS) (events db)"

definition due :: "rat \<Rightarrow> delivery_row \<Rightarrow> bool" where
  "due tm d \<longleftrightarrow>
     (d_state d \<in> {''pending'', ''retry_wait''}
        \<and> (case d_next_attempt_at d of Some n \<Rightarrow> n | None \<Rightarrow> 0) \<le> tm)
     \<or> (d_state d = ''sending'' \<and> (case d_lease_until d of Some u \<Rightarrow> u \<le> tm | None \<Rightarrow> False))"

definition waits_for_warning :: "db \<Rightarrow> delivery_row \<Rightarrow> bool" where
  "waits_for_warning db d =
     list_ex (\<lambda>n. rn_delivery n = d_id d
       \<and> list_ex (\<lambda>p. is_prior_notice n p
           \<and> \<not> list_ex (\<lambda>b. b_delivery b = rn_delivery p \<and> b_intent b \<noteq> None) (bridge_intents db))
         (restart_notices db)) (restart_notices db)"

definition due_key :: "delivery_row \<Rightarrow> rat \<times> string" where
  "due_key d = (case d_next_attempt_at d of Some n \<Rightarrow> n
     | None \<Rightarrow> (case d_lease_until d of Some u \<Rightarrow> u | None \<Rightarrow> 0), d_id d)"

definition ready_rows :: "db \<Rightarrow> rat \<Rightarrow> delivery_row list" where
  "ready_rows db tm = filter (\<lambda>d. due tm d \<and> \<not> waits_for_warning db d) (deliveries db)"

definition oldest_due :: "db \<Rightarrow> rat \<Rightarrow> delivery_row option" where
  "oldest_due db tm = (case sort_key due_key (ready_rows db tm) of [] \<Rightarrow> None | d # _ \<Rightarrow> Some d)"

definition hold_row :: "string \<Rightarrow> string \<Rightarrow> bool \<Rightarrow> db \<Rightarrow> db" where
  "hold_row i err ambiguous = update_delivery (\<lambda>d. d_id d = i)
     (\<lambda>d. (released ''failed'' d)\<lparr> d_last_error := Some err, d_ambiguous := d_ambiguous d \<or> ambiguous \<rparr>)"

definition insert_bridge :: "string \<Rightarrow> db \<Rightarrow> db" where
  "insert_bridge i db =
     (if bridge_of db i \<noteq> None then db
      else db\<lparr> bridge_intents := bridge_intents db @
             [\<lparr> b_delivery = i, b_intent = None, b_receipt = None, b_custody = CustodyPending \<rparr>] \<rparr>)"

definition lease_row :: "string \<Rightarrow> string \<Rightarrow> nat \<Rightarrow> rat \<Rightarrow> rat \<Rightarrow> db \<Rightarrow> db" where
  "lease_row i owner attempt tm until = update_delivery (\<lambda>d. d_id d = i \<and> due tm d)
     (\<lambda>d. d\<lparr> d_state := ''sending'', d_attempts := attempt, d_lease_owner := Some owner,
            d_lease_until := Some until, d_next_attempt_at := None \<rparr>)"

definition lease_found ::
    "claim_delivery \<Rightarrow> rat \<Rightarrow> delivery_row \<Rightarrow> string \<Rightarrow> session_row \<Rightarrow> notice_payload \<Rightarrow> db
       \<Rightarrow> error + (claimed option \<times> db)" where
  "lease_found op tm d carrier s payload db =
     (if U32_MAX \<le> d_attempts d then Inl (invalid ''delivery attempt counter overflow'')
      else
      let i = d_id d; attempt = d_attempts d + 1; db1 = insert_bridge i db; b = bridge_of db1 i;
          updated = length (filter (\<lambda>d. d_id d = i \<and> due tm d) (deliveries db1)) in
      Inr (if updated = 1
           then Some \<lparr> cl_delivery = i, cl_owner = cd_owner op, cl_attempt = attempt, cl_transport = carrier,
                       cl_session = s_external s, cl_payload = payload, cl_bridge_owned = (b \<noteq> None),
                       cl_bridge_intent = Option.bind b b_intent,
                       cl_bridge_unknown = (map_option b_custody b = Some OutcomeUnknown) \<rparr>
           else None,
           lease_row i (cd_owner op) attempt tm (tm + lease_seconds (cd_policy op)) db1))"

fun malformed :: "error \<Rightarrow> bool" where
  "malformed (Validation _) = True"
| "malformed (Integrity _) = True"
| "malformed _ = False"

definition claim_found :: "ext \<Rightarrow> claim_delivery \<Rightarrow> rat \<Rightarrow> delivery_row \<Rightarrow> db \<Rightarrow> error + (claimed option \<times> db)" where
  "claim_found x op tm d db =
     bindr (ok_or bad_column (d_session d)) (\<lambda>sid.
     if U32_MAX < d_attempts d then Inl bad_column
     else
     bindr (ok_or no_rows (find (\<lambda>s. s_id s = sid) (sessions db))) (\<lambda>s.
     let carrier = (case canonical_transport_name (s_transport s) of Inr t \<Rightarrow> t | Inl _ \<Rightarrow> s_transport s) in
     if bridge_of db (d_id d) = None \<and> 0 < d_attempts d
     then Inr (None, hold_row (d_id d) ''legacy_delivery_held'' True db)
     else
     (case claim_payload x db (d_id d) (d_agent d) of
        Inl e \<Rightarrow> if malformed e then Inr (None, hold_row (d_id d) ''invalid_payload'' False db) else Inl e
      | Inr payload \<Rightarrow> lease_found op tm d carrier s payload db)))"

definition claim_tx :: "ext \<Rightarrow> claim_delivery \<Rightarrow> rat \<Rightarrow> db \<Rightarrow> error + (claimed option \<times> db)" where
  "claim_tx x op tm db =
     (let db0 = update_delivery (stale_waiting db tm) (released ''expired'') db in
      case oldest_due db0 tm of None \<Rightarrow> Inr (None, db0) | Some d \<Rightarrow> claim_found x op tm d db0)"

definition claim_delivery_lease :: "ext \<Rightarrow> claim_delivery \<Rightarrow> db \<Rightarrow> claimed option res \<times> db" where
  "claim_delivery_lease x op db =
     (case cd_at op of
        NotFinite \<Rightarrow> (Inl (invalid ''invalid delivery claim''), db)
      | Finite tm \<Rightarrow>
          if cd_owner op = [] \<or> 256 < length (cd_owner op) then (Inl (invalid ''invalid delivery claim''), db)
          else commit db (claim_tx x op tm db))"

subsection \<open>Recording an attempt\<close>

record delivery_completion =
  dc_delivery :: string
  dc_owner :: string
  dc_attempt :: nat
  dc_transport :: string
  dc_accepted :: bool
  dc_ambiguous :: bool
  dc_classifier :: string
  dc_evidence :: "json option"
  dc_receipt :: "json option"
  dc_policy :: delivery_policy
  dc_at :: f64

definition completion_invalid :: "delivery_completion \<Rightarrow> bool" where
  "completion_invalid c \<longleftrightarrow>
     dc_transport c \<noteq> ''bridge'' \<or> \<not> starts_with (dc_classifier c) ''bridge_'' \<or> 64 < length (dc_classifier c)
     \<or> dc_accepted c \<noteq> (dc_classifier c = ''bridge_custody_accepted'')
     \<or> dc_ambiguous c \<noteq> (dc_classifier c = ''bridge_outcome_unknown'')"

definition unconfigured :: "delivery_completion \<Rightarrow> bool" where
  "unconfigured c \<longleftrightarrow> dc_classifier c = ''bridge_unconfigured''"

definition holds :: "db \<Rightarrow> string \<Rightarrow> nat \<Rightarrow> nat" where
  "holds db i attempt = length (filter (\<lambda>y. y_delivery y = i \<and> y_attempt y < attempt
     \<and> jfield ''classifier'' (y_evidence y) = JStr ''bridge_unconfigured'') (delivery_evidence db))"

definition budget_attempt :: "db \<Rightarrow> delivery_completion \<Rightarrow> nat" where
  "budget_attempt db c = max (dc_attempt c - holds db (dc_delivery c) (dc_attempt c)) 1"

definition exhausted :: "db \<Rightarrow> delivery_completion \<Rightarrow> bool" where
  "exhausted db c \<longleftrightarrow> \<not> unconfigured c \<and> \<not> dc_ambiguous c \<and> 0 < dp_max_attempts (dc_policy c)
     \<and> dp_max_attempts (dc_policy c) \<le> budget_attempt db c"

definition attempt_failed :: "db \<Rightarrow> delivery_completion \<Rightarrow> bool" where
  "attempt_failed db c \<longleftrightarrow> \<not> dc_accepted c
     \<and> (exhausted db c \<or> dc_classifier c \<in> {''bridge_unsupported'', ''bridge_invalid'', ''bridge_refused''})"

definition completion_state :: "db \<Rightarrow> delivery_completion \<Rightarrow> string" where
  "completion_state db c =
     (if dc_accepted c then ''delivered'' else if attempt_failed db c then ''failed'' else ''retry_wait'')"

definition next_attempt :: "db \<Rightarrow> delivery_completion \<Rightarrow> rat \<Rightarrow> rat option" where
  "next_attempt db c tm =
     (let p = dc_policy c in
      if completion_state db c \<noteq> ''retry_wait'' then None
      else if unconfigured c then Some (tm + max (dp_retry_cap p) 60)
      else Some (tm + min (dp_retry_base p * 2 ^ min (budget_attempt db c - 1) 20) (dp_retry_cap p)))"

text \<open>\<^verbatim>\<open>INSERT OR IGNORE\<close> under the primary key and \<^verbatim>\<open>CHECK (attempt > 0)\<close>.\<close>

definition insert_evidence :: "evidence_row \<Rightarrow> db \<Rightarrow> db" where
  "insert_evidence y db =
     (if y_attempt y = 0 \<or> list_ex (\<lambda>r. y_delivery r = y_delivery y \<and> y_attempt r = y_attempt y) (delivery_evidence db)
      then db
      else db\<lparr> delivery_evidence := delivery_evidence db @ [y] \<rparr>)"

definition record_evidence :: "ext \<Rightarrow> delivery_completion \<Rightarrow> rat \<Rightarrow> db \<Rightarrow> db res" where
  "record_evidence x c tm db =
     (case dc_evidence c of
        None \<Rightarrow> Inr db
      | Some raw \<Rightarrow>
          bindr (safe_evidence x raw) (\<lambda>e.
          if MAX_EVIDENCE_BYTES < x_json_len x e then Inl (invalid ''delivery evidence exceeds its byte bound'')
          else Inr (insert_evidence \<lparr> y_delivery = dc_delivery c, y_attempt = dc_attempt c, y_recorded_at = tm,
                                      y_evidence = e \<rparr> db)))"

definition receipt_matches :: "bridge_intent \<Rightarrow> json \<Rightarrow> bool" where
  "receipt_matches n r \<longleftrightarrow>
     as_str (jfield ''event_id'' r) = Some (bi_event_id n)
     \<and> as_str (jfield ''address'' (jfield ''destination'' r)) = Some (bi_address n)
     \<and> as_str (jfield ''intent_hash'' r) = Some (bi_intent_hash n)
     \<and> as_str (jfield ''producer'' r) = Some (bo_producer (bi_owner n))
     \<and> jfield ''route_key'' (jfield ''destination'' r) = JNull
     \<and> jfield ''caller_scope'' (jfield ''destination'' r) = JNull
     \<and> jfield ''destination_scope'' (jfield ''destination'' r) = JNull
     \<and> (case as_u64 (jfield ''acceptance_seq'' r) of Some q \<Rightarrow> q \<noteq> 0 | None \<Rightarrow> False)"

definition set_custody :: "delivery_completion \<Rightarrow> db \<Rightarrow> db res" where
  "set_custody c db =
     (let i = dc_delivery c in
      if dc_accepted c then
        bindr (ok_or (invalid ''Bridge custody receipt missing'') (dc_receipt c)) (\<lambda>receipt.
        bindr (ok_or no_rows (bridge_of db i)) (\<lambda>b.
        bindr (ok_or bad_column (b_intent b)) (\<lambda>intent.
        if \<not> receipt_matches intent receipt
        then Inl (invalid ''Bridge custody receipt does not match frozen intention'')
        else Inr (update_bridge (\<lambda>b. b_delivery b = i)
               (\<lambda>b. b\<lparr> b_custody := CustodyAccepted, b_receipt := Some receipt \<rparr>) db))))
      else if dc_ambiguous c then Inr (fence_unknown i db)
      else Inr (update_bridge (\<lambda>b. b_delivery b = i \<and> b_custody b \<noteq> CustodyAccepted)
             (\<lambda>b. b\<lparr> b_custody := CustodyPending \<rparr>) db))"

definition closed_row :: "db \<Rightarrow> delivery_completion \<Rightarrow> rat \<Rightarrow> delivery_row \<Rightarrow> delivery_row" where
  "closed_row db c tm d = (released (completion_state db c) d)
     \<lparr> d_next_attempt_at := next_attempt db c tm,
       d_last_error := (if dc_accepted c then None else Some (dc_classifier c)),
       d_ambiguous := d_ambiguous d \<or> dc_ambiguous c \<rparr>"

definition complete_tx :: "ext \<Rightarrow> delivery_completion \<Rightarrow> rat \<Rightarrow> db \<Rightarrow> error + (string \<times> db)" where
  "complete_tx x c tm db =
     (if \<not> list_ex (live_lease (dc_delivery c) (dc_owner c) (dc_attempt c) tm) (deliveries db)
      then Inr (''not_owned'', db)
      else
      bindr (record_evidence x c tm db) (\<lambda>db1.
      bindr (set_custody c db1) (\<lambda>db2.
        Inr (completion_state db c,
          update_delivery (\<lambda>d. d_id d = dc_delivery c) (closed_row db c tm) db2))))"

definition complete_delivery_attempt :: "ext \<Rightarrow> delivery_completion \<Rightarrow> db \<Rightarrow> string res \<times> db" where
  "complete_delivery_attempt x c db =
     (case dc_at c of
        NotFinite \<Rightarrow> (Inl (invalid ''invalid delivery completion''), db)
      | Finite tm \<Rightarrow>
          if completion_invalid c then (Inl (invalid ''invalid delivery completion''), db)
          else commit db (complete_tx x c tm db))"

end
