(* ===== verification/OutboxRuns.thy ===== *)
theory OutboxRuns
  imports Outbox StoreRuns
begin

text \<open>
  Runs of the outbox operations in any order, by any number of dispatchers: the invariant of the delivery,
  publication and evidence tables, and what no run can undo.
\<close>

section \<open>Steps\<close>

datatype outbox_op =
    OutClaim claim_delivery
  | OutPrepare prepare_bridge
  | OutComplete delivery_completion
  | OutCancel string
  | OutExpire f64 "nat option"

fun outbox_exec :: "ext \<times> outbox_op \<Rightarrow> db \<Rightarrow> db" where
  "outbox_exec (x, OutClaim op) db = snd (claim_delivery_lease x op db)"
| "outbox_exec (x, OutPrepare op) db = snd (prepare_bridge_delivery op db)"
| "outbox_exec (x, OutComplete c) db = snd (complete_delivery_attempt x c db)"
| "outbox_exec (x, OutCancel i) db = snd (cancel_notice i db)"
| "outbox_exec (x, OutExpire tm limit) db = snd (expire_unbound_batch tm limit db)"

text \<open>What a run hands out and records: delivery, attempt and dispatcher.\<close>

fun granted :: "ext \<times> outbox_op \<Rightarrow> db \<Rightarrow> (string \<times> nat \<times> string) list" where
  "granted (x, OutClaim op) db =
     (case fst (claim_delivery_lease x op db) of
        Inr (Some c) \<Rightarrow> [(cl_delivery c, cl_attempt c, cl_owner c)] | _ \<Rightarrow> [])"
| "granted _ db = []"

fun recorded :: "ext \<times> outbox_op \<Rightarrow> db \<Rightarrow> (string \<times> nat \<times> string) list" where
  "recorded (x, OutComplete c) db =
     (case fst (complete_delivery_attempt x c db) of
        Inr s \<Rightarrow> if s = ''not_owned'' then [] else [(dc_delivery c, dc_attempt c, dc_owner c)] | _ \<Rightarrow> [])"
| "recorded _ db = []"

fun collect :: "('o \<Rightarrow> db \<Rightarrow> 'r list) \<Rightarrow> ('o \<Rightarrow> db \<Rightarrow> db) \<Rightarrow> 'o list \<Rightarrow> db \<Rightarrow> 'r list" where
  "collect out step [] db = []"
| "collect out step (a # as) db = out a db @ collect out step as (step a db)"

section \<open>The invariant\<close>

definition delivery_of :: "db \<Rightarrow> string \<Rightarrow> delivery_row option" where
  "delivery_of db i = find (\<lambda>d. d_id d = i) (deliveries db)"

definition lease_shape :: "delivery_row \<Rightarrow> bool" where
  "lease_shape d \<longleftrightarrow> (d_state d = ''sending'') = (d_lease_owner d \<noteq> None)
     \<and> (d_state d = ''sending'') = (d_lease_until d \<noteq> None) \<and> (d_state d = ''sending'' \<longrightarrow> 0 < d_attempts d)"

definition evidence_ok :: "db \<Rightarrow> evidence_row \<Rightarrow> bool" where
  "evidence_ok db y \<longleftrightarrow> (\<exists>d. delivery_of db (y_delivery y) = Some d \<and> y_attempt y \<le> d_attempts d
     \<and> (d_state d = ''sending'' \<longrightarrow> y_attempt y < d_attempts d))"

definition custody_ok :: "db \<Rightarrow> bridge_row \<Rightarrow> bool" where
  "custody_ok db b \<longleftrightarrow> (b_custody b = CustodyAccepted \<longrightarrow>
     (\<exists>d. delivery_of db (b_delivery b) = Some d \<and> d_state d = ''delivered'')
     \<and> (\<exists>n r. b_intent b = Some n \<and> b_receipt b = Some r \<and> receipt_matches n r))"

definition outbox_wf :: "db \<Rightarrow> bool" where
  "outbox_wf db \<longleftrightarrow>
     distinct (map d_id (deliveries db)) \<and> distinct (map b_delivery (bridge_intents db))
     \<and> list_all lease_shape (deliveries db) \<and> list_all (evidence_ok db) (delivery_evidence db)
     \<and> list_all (custody_ok db) (bridge_intents db)"

text \<open>How far a delivery has come: an open attempt counts after every closed earlier one.\<close>

definition stage :: "delivery_row \<Rightarrow> nat" where
  "stage d = 2 * d_attempts d + (if d_state d = ''sending'' then 0 else 1)"

definition row_kept :: "delivery_row \<Rightarrow> delivery_row \<Rightarrow> bool" where
  "row_kept d d' \<longleftrightarrow> stage d \<le> stage d' \<and> (d_state d \<in> {''delivered'', ''cancelled''} \<longrightarrow> d' = d)"

definition bridge_kept :: "bridge_row \<Rightarrow> bridge_row \<Rightarrow> bool" where
  "bridge_kept b b' \<longleftrightarrow> (b_intent b \<noteq> None \<longrightarrow> b_intent b' = b_intent b)
     \<and> (b_custody b = CustodyAccepted \<longrightarrow> b' = b)"

definition outbox_kept :: "db \<Rightarrow> db \<Rightarrow> bool" where
  "outbox_kept db db' \<longleftrightarrow>
     (\<forall>i d. delivery_of db i = Some d \<longrightarrow> (\<exists>d'. delivery_of db' i = Some d' \<and> row_kept d d'))
     \<and> (\<forall>i b. bridge_of db i = Some b \<longrightarrow> (\<exists>b'. bridge_of db' i = Some b' \<and> bridge_kept b b'))
     \<and> prefix (delivery_evidence db) (delivery_evidence db')"

lemma row_kept_refl: "row_kept d d" and row_kept_trans: "row_kept a b \<Longrightarrow> row_kept b c \<Longrightarrow> row_kept a c"
  by (auto simp: row_kept_def)

lemma bridge_kept_refl: "bridge_kept b b" and bridge_kept_trans: "bridge_kept a b \<Longrightarrow> bridge_kept b c \<Longrightarrow> bridge_kept a c"
  by (auto simp: bridge_kept_def)

lemma outbox_kept_refl: "outbox_kept db db"
  using row_kept_refl bridge_kept_refl by (auto simp: outbox_kept_def)

lemma outbox_kept_trans:
  assumes "outbox_kept a b" "outbox_kept b c" shows "outbox_kept a c"
  using assms row_kept_trans bridge_kept_trans unfolding outbox_kept_def by (meson prefix_order.trans)

subsection \<open>Updates of rows\<close>

lemma delivery_of_in: "delivery_of db i = Some d \<Longrightarrow> d \<in> set (deliveries db) \<and> d_id d = i"
  by (auto simp: delivery_of_def dest: find_Some_in)

lemma delivery_of_key:
  "distinct (map d_id (deliveries db)) \<Longrightarrow> d \<in> set (deliveries db) \<Longrightarrow> delivery_of db (d_id d) = Some d"
  by (simp add: delivery_of_def find_key)

lemma bridge_of_in: "bridge_of db i = Some b \<Longrightarrow> b \<in> set (bridge_intents db) \<and> b_delivery b = i"
  by (auto simp: bridge_of_def dest: find_Some_in)

lemma delivery_of_update:
  assumes "\<And>d. d_id (f d) = d_id d"
  shows "delivery_of (update_delivery P f db) i = map_option (\<lambda>d. if P d then f d else d) (delivery_of db i)"
  using assms by (simp add: delivery_of_def update_delivery_def find_map_same)

lemma bridge_of_update:
  assumes "\<And>b. b_delivery (f b) = b_delivery b"
  shows "bridge_of (update_bridge P f db) i = map_option (\<lambda>b. if P b then f b else b) (bridge_of db i)"
  using assms by (simp add: bridge_of_def update_bridge_def find_map_same)

definition moves :: "delivery_row \<Rightarrow> delivery_row \<Rightarrow> bool" where
  "moves d d' \<longleftrightarrow> d_id d' = d_id d \<and> d_state d \<notin> {''delivered'', ''cancelled''} \<and> d_attempts d \<le> d_attempts d'
     \<and> (d_state d' = ''sending'' \<longrightarrow> d_attempts d < d_attempts d') \<and> lease_shape d'"

lemma moves_kept: "moves d d' \<Longrightarrow> row_kept d d'"
  by (auto simp: moves_def row_kept_def stage_def)

lemma update_delivery_fields [simp]:
  "bridge_intents (update_delivery P f db) = bridge_intents db"
  "delivery_evidence (update_delivery P f db) = delivery_evidence db"
  "bridge_of (update_delivery P f db) i = bridge_of db i"
  by (simp_all add: update_delivery_def bridge_of_def)

lemma update_bridge_fields [simp]:
  "deliveries (update_bridge P g db) = deliveries db"
  "delivery_evidence (update_bridge P g db) = delivery_evidence db"
  "delivery_of (update_bridge P g db) i = delivery_of db i"
  by (simp_all add: update_bridge_def delivery_of_def)

lemma update_delivery_kept:
  assumes wf: "outbox_wf db" and ids: "\<And>d. d_id (f d) = d_id d"
    and mv: "\<And>d. d \<in> set (deliveries db) \<Longrightarrow> P d \<Longrightarrow> moves d (f d)"
  shows "outbox_wf (update_delivery P f db) \<and> outbox_kept db (update_delivery P f db)"
proof -
  let ?g = "\<lambda>d. if P d then f d else d" and ?db = "update_delivery P f db"
  have rows: "deliveries ?db = map ?g (deliveries db)" by (simp add: update_delivery_def)
  have of: "delivery_of ?db i = map_option ?g (delivery_of db i)" for i by (rule delivery_of_update [OF ids])
  have mv': "P d \<Longrightarrow> moves d (f d)" if "delivery_of db i = Some d" for i d
    using mv delivery_of_in [OF that] by blast
  have "map d_id (deliveries ?db) = map d_id (deliveries db)" using ids by (simp add: rows)
  moreover have "list_all lease_shape (deliveries ?db)"
    using wf mv by (auto simp: outbox_wf_def rows list_all_iff moves_def)
  moreover have "evidence_ok ?db y" if "evidence_ok db y" for y
  proof -
    from that obtain d where d: "delivery_of db (y_delivery y) = Some d" "y_attempt y \<le> d_attempts d"
      "d_state d = ''sending'' \<longrightarrow> y_attempt y < d_attempts d" unfolding evidence_ok_def by blast
    then show ?thesis using mv' [OF d(1)] by (auto simp: evidence_ok_def of moves_def)
  qed
  moreover have "custody_ok ?db b" if "custody_ok db b" for b
    using that mv' by (fastforce simp: custody_ok_def of moves_def)
  ultimately have "outbox_wf ?db" using wf by (simp add: outbox_wf_def list_all_iff)
  moreover have "\<exists>d'. delivery_of ?db i = Some d' \<and> row_kept d d'" if "delivery_of db i = Some d" for i d
    using that mv' [OF that] moves_kept row_kept_refl by (simp add: of)
  ultimately show ?thesis using bridge_kept_refl by (simp add: outbox_kept_def)
qed

lemma update_bridge_kept:
  assumes wf: "outbox_wf db" and ids: "\<And>b. b_delivery (g b) = b_delivery b"
    and keep: "\<And>b. b \<in> set (bridge_intents db) \<Longrightarrow> Q b \<Longrightarrow> b_custody b \<noteq> CustodyAccepted
       \<and> (b_intent b \<noteq> None \<longrightarrow> b_intent (g b) = b_intent b) \<and> custody_ok db (g b)"
  shows "outbox_wf (update_bridge Q g db) \<and> outbox_kept db (update_bridge Q g db)"
proof -
  let ?g = "\<lambda>b. if Q b then g b else b" and ?db = "update_bridge Q g db"
  have rows: "bridge_intents ?db = map ?g (bridge_intents db)" by (simp add: update_bridge_def)
  have of: "bridge_of ?db i = map_option ?g (bridge_of db i)" for i by (rule bridge_of_update [OF ids])
  have same: "custody_ok ?db = custody_ok db" "evidence_ok ?db = evidence_ok db"
    by (auto simp: custody_ok_def evidence_ok_def fun_eq_iff)
  have "map b_delivery (bridge_intents ?db) = map b_delivery (bridge_intents db)" using ids by (simp add: rows)
  moreover have "list_all (custody_ok db) (bridge_intents ?db)"
    using wf keep by (auto simp: outbox_wf_def rows list_all_iff)
  ultimately have "outbox_wf ?db" using wf by (simp add: outbox_wf_def same)
  moreover have "\<exists>b'. bridge_of ?db i = Some b' \<and> bridge_kept b b'" if "bridge_of db i = Some b" for i b
    using keep bridge_of_in [OF that] that by (auto simp: of bridge_kept_def)
  ultimately show ?thesis using row_kept_refl by (auto simp: outbox_kept_def)
qed

lemma released_moves:
  "d_state d \<notin> {''delivered'', ''cancelled''} \<Longrightarrow> s \<noteq> ''sending'' \<Longrightarrow> moves d (released s d)"
  by (simp add: moves_def released_def lease_shape_def)

lemma same_row:
  assumes "outbox_wf db" "d \<in> set (deliveries db)" "d' \<in> set (deliveries db)" "d_id d = d_id d'"
  shows "d = d'"
proof -
  have "distinct (map d_id (deliveries db))" using assms(1) unfolding outbox_wf_def by blast
  then have "inj_on d_id (set (deliveries db))" by (simp add: distinct_map)
  then show ?thesis using assms(2-4) by (meson inj_onD)
qed

subsection \<open>Every operation keeps the invariant\<close>

lemma cancel_kept: "outbox_wf db \<Longrightarrow> outbox_wf (snd (cancel_notice i db)) \<and> outbox_kept db (snd (cancel_notice i db))"
proof (cases "trim i = []")
  case False
  assume "outbox_wf db"
  then have "outbox_wf (update_delivery (cancellable i) (released ''cancelled'') db)
      \<and> outbox_kept db (update_delivery (cancellable i) (released ''cancelled'') db)"
    by (rule update_delivery_kept) (simp add: released_def, simp add: cancellable_def released_moves)
  with False show ?thesis by (simp add: cancel_notice_def)
qed (simp add: cancel_notice_def outbox_kept_refl)

lemma expire_kept:
  assumes "outbox_wf db"
  shows "outbox_wf (snd (expire_unbound_batch tm limit db)) \<and> outbox_kept db (snd (expire_unbound_batch tm limit db))"
proof -
  have step: "outbox_wf db \<Longrightarrow>
      outbox_wf (update_delivery (\<lambda>d. d_id d = i \<and> d_state d = ''waiting_binding'') (released ''expired'') db)
      \<and> outbox_kept db (update_delivery (\<lambda>d. d_id d = i \<and> d_state d = ''waiting_binding'') (released ''expired'') db)"
    for i db by (rule update_delivery_kept) (simp_all add: released_moves, simp add: released_def)
  have "outbox_wf db \<Longrightarrow> outbox_wf (fold (\<lambda>i. update_delivery (\<lambda>d. d_id d = i \<and> d_state d = ''waiting_binding'')
        (released ''expired'')) ids db)
    \<and> outbox_kept db (fold (\<lambda>i. update_delivery (\<lambda>d. d_id d = i \<and> d_state d = ''waiting_binding'')
        (released ''expired'')) ids db)" for ids
  proof (induction ids arbitrary: db)
    case (Cons i ids)
    from step [OF Cons.prems] Cons.IH show ?case by (auto intro: outbox_kept_trans)
  qed (simp add: outbox_kept_refl)
  with assms show ?thesis
    by (cases tm) (simp_all add: expire_unbound_batch_def outbox_kept_refl Let_def)
qed

lemma fence_kept: "outbox_wf db \<Longrightarrow> outbox_wf (fence_unknown i db) \<and> outbox_kept db (fence_unknown i db)"
  unfolding fence_unknown_def by (rule update_bridge_kept) (simp_all add: custody_ok_def)

lemma freeze_kept:
  fixes i :: string and n :: bridge_intent
  assumes "outbox_wf db"
  defines "db1 \<equiv> update_bridge (\<lambda>b. b_delivery b = i \<and> b_intent b = None) (\<lambda>b. b\<lparr> b_intent := Some n \<rparr>) db"
  shows "outbox_wf db1 \<and> outbox_kept db db1"
proof -
  have "b_custody b \<noteq> CustodyAccepted" if "b \<in> set (bridge_intents db)" "b_intent b = None" for b
    using assms(1) that by (auto simp: outbox_wf_def list_all_iff custody_ok_def)
  then show ?thesis using assms(1) unfolding db1_def by (intro update_bridge_kept) (simp_all add: custody_ok_def)
qed

lemma prepare_kept:
  assumes "outbox_wf db"
  shows "outbox_wf (snd (prepare_bridge_delivery op db)) \<and> outbox_kept db (snd (prepare_bridge_delivery op db))"
proof -
  have "outbox_wf db' \<and> outbox_kept db db'" if "prepare_tx op tm db = Inr (n, db')" for tm n db'
    using that fence_kept [OF assms, of "pb_delivery op"]
      fence_kept [OF conjunct1 [OF freeze_kept [OF assms, of "pb_delivery op" "pb_intent op"]], of "pb_delivery op"]
      freeze_kept [OF assms, of "pb_delivery op" "pb_intent op"]
    unfolding prepare_tx_def by (auto intro: outbox_kept_trans split: option.splits if_split_asm)
  then show ?thesis
    using assms outbox_kept_refl
    by (auto simp: prepare_bridge_delivery_def commit_def split: f64.split sum.split)
qed

lemma oldest_due_in: "oldest_due db tm = Some d \<Longrightarrow> d \<in> set (deliveries db) \<and> due tm d"
proof -
  assume "oldest_due db tm = Some d"
  then have "d \<in> set (sort_key due_key (ready_rows db tm))"
    by (simp add: oldest_due_def del: set_sort split: list.splits)
  then show ?thesis by (simp add: ready_rows_def)
qed

lemma due_open: "due tm d \<Longrightarrow> d_state d \<notin> {''delivered'', ''cancelled''}"
  by (auto simp: due_def)

lemma insert_bridge_kept: "outbox_wf db \<Longrightarrow> outbox_wf (insert_bridge i db) \<and> outbox_kept db (insert_bridge i db)"
proof -
  assume wf: "outbox_wf db"
  show ?thesis
  proof (cases "bridge_of db i")
    case None
    then have fresh: "i \<notin> b_delivery ` set (bridge_intents db)"
      by (auto simp: bridge_of_def find_None_iff)
    let ?b = "\<lparr> b_delivery = i, b_intent = None, b_receipt = None, b_custody = CustodyPending \<rparr>"
    let ?db = "db\<lparr> bridge_intents := bridge_intents db @ [?b] \<rparr>"
    have "delivery_of ?db = delivery_of db" by (simp add: delivery_of_def fun_eq_iff)
    then have "custody_ok ?db = custody_ok db" "evidence_ok ?db = evidence_ok db"
      by (simp_all add: custody_ok_def evidence_ok_def fun_eq_iff)
    with wf fresh have "outbox_wf ?db" by (auto simp: outbox_wf_def) (simp add: custody_ok_def)
    moreover have "bridge_of ?db j = Some b" if "bridge_of db j = Some b" for j b
      using that by (simp add: bridge_of_def find_append)
    ultimately show ?thesis
      using None row_kept_refl bridge_kept_refl \<open>delivery_of ?db = delivery_of db\<close>
      by (simp add: insert_bridge_def outbox_kept_def)
  qed (simp add: insert_bridge_def wf outbox_kept_refl)
qed

lemma filter_key_single:
  "distinct (map k xs) \<Longrightarrow> x \<in> set xs \<Longrightarrow> P x \<Longrightarrow> filter (\<lambda>y. k y = k x \<and> P y) xs = [x]"
proof (induction xs)
  case (Cons a xs)
  show ?case
  proof (cases "a = x")
    case True
    with Cons.prems(1) have "\<forall>y \<in> set xs. k y \<noteq> k x" by (metis distinct.simps(2) image_eqI list.map(2) list.set_map)
    with True Cons.prems(3) show ?thesis by (simp add: filter_empty_conv)
  next
    case False
    with Cons.prems have "x \<in> set xs" "k a \<noteq> k x" by (auto simp: image_iff)
    with Cons show ?thesis by simp
  qed
qed simp

lemma hold_kept:
  assumes "outbox_wf db" "d \<in> set (deliveries db)" "due tm d"
  shows "outbox_wf (hold_row (d_id d) err amb db) \<and> outbox_kept db (hold_row (d_id d) err amb db)"
  unfolding hold_row_def
proof (rule update_delivery_kept [OF assms(1)])
  fix e assume "e \<in> set (deliveries db)" "d_id e = d_id d"
  then have "e = d" using same_row [OF assms(1) _ assms(2)] by blast
  then show "moves e ((released ''failed'' e)\<lparr> d_last_error := Some err, d_ambiguous := d_ambiguous e \<or> amb \<rparr>)"
    using due_open [OF assms(3)] by (simp add: moves_def released_def lease_shape_def)
qed (simp add: released_def)

lemma lease_kept:
  assumes "outbox_wf db" "d \<in> set (deliveries db)"
  shows "outbox_wf (lease_row (d_id d) owner (d_attempts d + 1) tm until db)
    \<and> outbox_kept db (lease_row (d_id d) owner (d_attempts d + 1) tm until db)"
  unfolding lease_row_def
proof (rule update_delivery_kept [OF assms(1)])
  fix e assume e: "e \<in> set (deliveries db)" "d_id e = d_id d \<and> due tm e"
  then have "e = d" using same_row [OF assms(1) _ assms(2)] by blast
  then show "moves e (e\<lparr> d_state := ''sending'', d_attempts := d_attempts d + 1, d_lease_owner := Some owner,
      d_lease_until := Some until, d_next_attempt_at := None \<rparr>)"
    using due_open e(2) by (auto simp: moves_def lease_shape_def)
qed simp

lemma insert_bridge_rows [simp]:
  "deliveries (insert_bridge i db) = deliveries db" "delivery_of (insert_bridge i db) j = delivery_of db j"
  by (simp_all add: insert_bridge_def delivery_of_def)

lemma lease_found_Inr:
  assumes "lease_found op tm d carrier s payload db = Inr (r, db')"
    and "outbox_wf db" "d \<in> set (deliveries db)" "due tm d"
  shows "(\<exists>c. r = Some c \<and> cl_delivery c = d_id d \<and> cl_attempt c = d_attempts d + 1 \<and> cl_owner c = cd_owner op)
    \<and> db' = lease_row (d_id d) (cd_owner op) (d_attempts d + 1) tm (tm + lease_seconds (cd_policy op))
        (insert_bridge (d_id d) db)"
proof -
  have "filter (\<lambda>e. d_id e = d_id d \<and> due tm e) (deliveries db) = [d]"
    using assms(2-4) by (intro filter_key_single) (simp_all add: outbox_wf_def)
  then show ?thesis using assms(1) by (auto simp: lease_found_def Let_def split: if_split_asm)
qed

lemma claim_found_cases:
  assumes "claim_found x op tm d db = Inr (r, db')"
  shows "(r = None \<and> (\<exists>err amb. db' = hold_row (d_id d) err amb db))
    \<or> (\<exists>carrier s payload. lease_found op tm d carrier s payload db = Inr (r, db'))"
proof -
  from assms obtain sid where sid: "d_session d = Some sid" by (cases "d_session d") (simp_all add: claim_found_def)
  with assms obtain s where s: "find (\<lambda>s. s_id s = sid) (sessions db) = Some s"
    by (cases "find (\<lambda>s. s_id s = sid) (sessions db)") (simp_all add: claim_found_def split: if_split_asm)
  from assms show ?thesis
    by (auto simp: claim_found_def sid s Let_def split: if_split_asm sum.split_asm)
qed

text \<open>A grant opens a later attempt than any before, and the row names its owner.\<close>

definition opens :: "db \<Rightarrow> db \<Rightarrow> string \<times> nat \<times> string \<Rightarrow> bool" where
  "opens db db' g \<longleftrightarrow> (case g of (i, n, owner) \<Rightarrow>
     (\<exists>d d'. delivery_of db i = Some d \<and> stage d < 2 * n \<and> delivery_of db' i = Some d'
        \<and> d_state d' = ''sending'' \<and> d_attempts d' = n \<and> d_lease_owner d' = Some owner))"

lemma found_kept:
  assumes wf: "outbox_wf db" and d: "d \<in> set (deliveries db)" "due tm d"
    and r: "claim_found x op tm d db = Inr (r, db')"
  shows "outbox_wf db' \<and> outbox_kept db db'
    \<and> (\<forall>c. r = Some c \<longrightarrow> opens db db' (cl_delivery c, cl_attempt c, cl_owner c))"
proof -
  from claim_found_cases [OF r] consider
      (held) err amb where "r = None" "db' = hold_row (d_id d) err amb db"
    | (leased) carrier s payload where "lease_found op tm d carrier s payload db = Inr (r, db')" by blast
  then show ?thesis
  proof cases
    case held
    then show ?thesis using hold_kept [OF wf d, of err amb] by simp
  next
    case leased
    let ?db = "insert_bridge (d_id d) db"
    from lease_found_Inr [OF leased wf d] obtain c where c: "r = Some c" "cl_delivery c = d_id d"
        "cl_attempt c = d_attempts d + 1" "cl_owner c = cd_owner op"
      and db': "db' = lease_row (d_id d) (cd_owner op) (d_attempts d + 1) tm (tm + lease_seconds (cd_policy op)) ?db"
      by blast
    have w: "outbox_wf ?db" "outbox_kept db ?db" using insert_bridge_kept [OF wf] by blast+
    have of: "delivery_of db (d_id d) = Some d"
      using wf d by (intro delivery_of_key) (simp_all add: outbox_wf_def)
    then have "delivery_of ?db (d_id d) = Some d" by simp
    then have "opens db db' (d_id d, d_attempts d + 1, cd_owner op)"
      unfolding opens_def db' lease_row_def using of d(2) by (simp add: delivery_of_update stage_def)
    moreover have "outbox_wf db' \<and> outbox_kept ?db db'" unfolding db' using w d by (intro lease_kept) simp_all
    ultimately show ?thesis using c outbox_kept_trans [OF w(2)] by simp
  qed
qed

lemma claim_tx_kept:
  assumes wf: "outbox_wf db" and r: "claim_tx x op tm db = Inr (r, db')"
  shows "outbox_wf db' \<and> outbox_kept db db'
    \<and> (\<forall>c. r = Some c \<longrightarrow> opens db db' (cl_delivery c, cl_attempt c, cl_owner c))"
proof -
  define db0 where "db0 = update_delivery (stale_waiting db tm) (released ''expired'') db"
  have "outbox_wf db0 \<and> outbox_kept db db0" unfolding db0_def
    by (rule update_delivery_kept [OF wf]) (simp add: released_def, simp add: released_moves stale_waiting_def)
  then have k0: "outbox_wf db0" "outbox_kept db db0" by blast+
  have earlier: "opens db db' g" if "opens db0 db' g" for g
  proof -
    obtain i n owner where g: "g = (i, n, owner)" by (cases g)
    with that obtain d d' where d: "delivery_of db0 i = Some d" "stage d < 2 * n" "delivery_of db' i = Some d'"
      "d_state d' = ''sending''" "d_attempts d' = n" "d_lease_owner d' = Some owner" unfolding opens_def by auto
    then obtain e where e: "delivery_of db i = Some e"
      by (auto simp: db0_def delivery_of_update released_def)
    then have "stage e \<le> stage d" using k0(2) d(1) by (fastforce simp: outbox_kept_def row_kept_def)
    with d e show ?thesis unfolding opens_def g by auto
  qed
  show ?thesis
  proof (cases "oldest_due db0 tm")
    case None
    then show ?thesis using r k0 by (simp add: claim_tx_def db0_def Let_def)
  next
    case (Some d)
    have "claim_found x op tm d db0 = Inr (r, db')" using r Some by (simp add: claim_tx_def db0_def Let_def)
    from found_kept [OF k0(1) _ _ this] oldest_due_in [OF Some] have
      "outbox_wf db' \<and> outbox_kept db0 db'
       \<and> (\<forall>c. r = Some c \<longrightarrow> opens db0 db' (cl_delivery c, cl_attempt c, cl_owner c))"
      by blast
    then show ?thesis using outbox_kept_trans [OF k0(2)] earlier by blast
  qed
qed

lemma insert_evidence_fields [simp]:
  "deliveries (insert_evidence y db) = deliveries db" "bridge_intents (insert_evidence y db) = bridge_intents db"
  "delivery_of (insert_evidence y db) i = delivery_of db i" "bridge_of (insert_evidence y db) i = bridge_of db i"
  by (simp_all add: insert_evidence_def delivery_of_def bridge_of_def)

lemma insert_evidence_kept:
  assumes "outbox_wf db" "evidence_ok db y"
  shows "outbox_wf (insert_evidence y db) \<and> outbox_kept db (insert_evidence y db)"
proof -
  have "custody_ok (insert_evidence y db) = custody_ok db" "evidence_ok (insert_evidence y db) = evidence_ok db"
    by (simp_all add: custody_ok_def evidence_ok_def fun_eq_iff)
  moreover have "list_all (evidence_ok db) (delivery_evidence (insert_evidence y db))"
    using assms by (simp add: insert_evidence_def outbox_wf_def)
  moreover have "prefix (delivery_evidence db) (delivery_evidence (insert_evidence y db))"
    by (simp add: insert_evidence_def)
  ultimately show ?thesis
    using assms(1) row_kept_refl bridge_kept_refl by (simp add: outbox_wf_def outbox_kept_def)
qed

lemma updates_commute:
  "update_delivery P f (update_bridge Q g db) = update_bridge Q g (update_delivery P f db)"
  "update_delivery P f (insert_evidence y db) = insert_evidence y (update_delivery P f db)"
  "update_bridge Q g (insert_evidence y db) = insert_evidence y (update_bridge Q g db)"
  by (simp_all add: update_delivery_def update_bridge_def insert_evidence_def)

lemma custody_commute:
  "set_custody c (update_delivery P f db) = bindr (set_custody c db) (\<lambda>d. Inr (update_delivery P f d))"
  "set_custody c (insert_evidence y db) = bindr (set_custody c db) (\<lambda>d. Inr (insert_evidence y d))"
  by (auto simp: set_custody_def Let_def fence_unknown_def updates_commute ok_or_def split: option.split)

lemma completion_state_closed: "completion_state db c \<noteq> ''sending''" "completion_state db c \<noteq> ''not_owned''"
  by (simp_all add: completion_state_def)

definition outcome_db :: "delivery_completion \<Rightarrow> rat \<Rightarrow> db \<Rightarrow> db" where
  "outcome_db c tm db = update_delivery (\<lambda>d. d_id d = dc_delivery c) (closed_row db c tm) db"

text \<open>Recording an outcome, with its three writes in the order that keeps the invariant at every point.\<close>

lemma complete_tx_writes:
  assumes "complete_tx x c tm db = Inr (s, db')" "s \<noteq> ''not_owned''"
  obtains d db1 where "d \<in> set (deliveries db)" "live_lease (dc_delivery c) (dc_owner c) (dc_attempt c) tm d"
    "s = completion_state db c" "set_custody c (outcome_db c tm db) = Inr db1"
    "dc_evidence c = None \<and> db' = db1
      \<or> (\<exists>raw e. dc_evidence c = Some raw \<and> safe_evidence x raw = Inr e \<and> db' = insert_evidence
           \<lparr> y_delivery = dc_delivery c, y_attempt = dc_attempt c, y_recorded_at = tm, y_evidence = e \<rparr> db1)"
proof -
  from assms obtain d where d: "d \<in> set (deliveries db)"
    "live_lease (dc_delivery c) (dc_owner c) (dc_attempt c) tm d"
    by (auto simp: complete_tx_def list_ex_iff split: if_split_asm)
  then have "list_ex (live_lease (dc_delivery c) (dc_owner c) (dc_attempt c) tm) (deliveries db)"
    by (auto simp: list_ex_iff)
  with assms(1) obtain db1 db2 where e: "record_evidence x c tm db = Inr db1" "set_custody c db1 = Inr db2"
    "s = completion_state db c" "db' = update_delivery (\<lambda>d. d_id d = dc_delivery c) (closed_row db c tm) db2"
    by (auto simp: complete_tx_def)
  show ?thesis
  proof (cases "dc_evidence c")
    case None
    then have "db1 = db" using e(1) by (simp add: record_evidence_def)
    then show ?thesis using that d e None by (simp add: outcome_db_def custody_commute)
  next
    case (Some raw)
    then obtain v where v: "safe_evidence x raw = Inr v" "db1 = insert_evidence
        \<lparr> y_delivery = dc_delivery c, y_attempt = dc_attempt c, y_recorded_at = tm, y_evidence = v \<rparr> db"
      using e(1) by (auto simp: record_evidence_def split: if_split_asm)
    then obtain db3 where "set_custody c db = Inr db3" "db2 = insert_evidence
        \<lparr> y_delivery = dc_delivery c, y_attempt = dc_attempt c, y_recorded_at = tm, y_evidence = v \<rparr> db3"
      using e(2) by (auto simp: custody_commute)
    then show ?thesis using that d e(3,4) Some v(1) by (simp add: outcome_db_def custody_commute updates_commute)
  qed
qed

definition closes :: "db \<Rightarrow> db \<Rightarrow> string \<times> nat \<times> string \<Rightarrow> bool" where
  "closes db db' g \<longleftrightarrow> (case g of (i, n, owner) \<Rightarrow>
     (\<exists>d d'. delivery_of db i = Some d \<and> d_state d = ''sending'' \<and> d_attempts d = n \<and> d_lease_owner d = Some owner
        \<and> delivery_of db' i = Some d' \<and> d_state d' \<noteq> ''sending'' \<and> d_attempts d' = n))"

lemma set_custody_delivery_of: "set_custody c db = Inr db' \<Longrightarrow> delivery_of db' i = delivery_of db i"
  by (auto simp: set_custody_def Let_def fence_unknown_def split: if_split_asm)

lemma set_custody_kept:
  assumes wf: "outbox_wf db" and r: "set_custody c db = Inr db'"
    and open_custody: "\<And>b. b \<in> set (bridge_intents db) \<Longrightarrow> b_delivery b = dc_delivery c \<Longrightarrow> b_custody b \<noteq> CustodyAccepted"
    and delivered: "dc_accepted c \<Longrightarrow> \<exists>d. delivery_of db (dc_delivery c) = Some d \<and> d_state d = ''delivered''"
  shows "outbox_wf db' \<and> outbox_kept db db'"
proof (cases "dc_accepted c")
  case True
  with r obtain receipt b n where n: "bridge_of db (dc_delivery c) = Some b" "b_intent b = Some n"
      "receipt_matches n receipt"
    and db': "db' = update_bridge (\<lambda>b. b_delivery b = dc_delivery c)
        (\<lambda>b. b\<lparr> b_custody := CustodyAccepted, b_receipt := Some receipt \<rparr>) db"
    by (auto simp: set_custody_def Let_def split: if_split_asm)
  have only: "e = b" if "e \<in> set (bridge_intents db)" "b_delivery e = dc_delivery c" for e
  proof -
    have "inj_on b_delivery (set (bridge_intents db))" using wf by (simp add: outbox_wf_def distinct_map)
    then show ?thesis using that bridge_of_in [OF n(1)] by (metis inj_onD)
  qed
  show ?thesis unfolding db'
  proof (rule update_bridge_kept [OF wf])
    fix e assume e: "e \<in> set (bridge_intents db)" "b_delivery e = dc_delivery c"
    show "b_custody e \<noteq> CustodyAccepted
      \<and> (b_intent e \<noteq> None \<longrightarrow> b_intent (e\<lparr> b_custody := CustodyAccepted, b_receipt := Some receipt \<rparr>) = b_intent e)
      \<and> custody_ok db (e\<lparr> b_custody := CustodyAccepted, b_receipt := Some receipt \<rparr>)"
      using open_custody [OF e] delivered [OF True] only [OF e] e(2) n by (simp add: custody_ok_def)
  qed simp
next
  case False
  show ?thesis
  proof (cases "dc_ambiguous c")
    case True
    then show ?thesis using False r fence_kept [OF wf, of "dc_delivery c"] by (auto simp: set_custody_def)
  next
    case clear: False
    have db': "db' = update_bridge (\<lambda>b. b_delivery b = dc_delivery c \<and> b_custody b \<noteq> CustodyAccepted)
        (\<lambda>b. b\<lparr> b_custody := CustodyPending \<rparr>) db" using False clear r by (simp add: set_custody_def)
    show ?thesis unfolding db' by (rule update_bridge_kept [OF wf]) (simp_all add: custody_ok_def)
  qed
qed

lemma outcome_db_kept:
  assumes wf: "outbox_wf db" and d: "d \<in> set (deliveries db)" "live_lease (dc_delivery c) owner n tm' d"
  shows "outbox_wf (outcome_db c tm db) \<and> outbox_kept db (outcome_db c tm db)"
  unfolding outcome_db_def
proof (rule update_delivery_kept [OF wf])
  fix e assume "e \<in> set (deliveries db)" "d_id e = dc_delivery c"
  then have "e = d" using same_row [OF wf _ d(1)] d(2) by (auto simp: live_lease_def)
  then show "moves e (closed_row db c tm e)"
    using d(2) completion_state_closed(1)
    by (simp add: moves_def closed_row_def released_def live_lease_def lease_shape_def)
qed (simp add: closed_row_def released_def)

lemma complete_tx_kept:
  assumes wf: "outbox_wf db" and r: "complete_tx x c tm db = Inr (s, db')" and s: "s \<noteq> ''not_owned''"
  shows "outbox_wf db' \<and> outbox_kept db db' \<and> closes db db' (dc_delivery c, dc_attempt c, dc_owner c)"
proof -
  obtain d db1 where d: "d \<in> set (deliveries db)"
      "live_lease (dc_delivery c) (dc_owner c) (dc_attempt c) tm d"
    and "s = completion_state db c" and db1: "set_custody c (outcome_db c tm db) = Inr db1"
    and db': "dc_evidence c = None \<and> db' = db1
      \<or> (\<exists>raw e. dc_evidence c = Some raw \<and> safe_evidence x raw = Inr e \<and> db' = insert_evidence
           \<lparr> y_delivery = dc_delivery c, y_attempt = dc_attempt c, y_recorded_at = tm, y_evidence = e \<rparr> db1)"
    by (rule complete_tx_writes [OF r s])
  let ?db = "outcome_db c tm db" and ?i = "dc_delivery c"
  have l: "d_id d = ?i" "d_state d = ''sending''" "d_lease_owner d = Some (dc_owner c)" "d_attempts d = dc_attempt c"
    using d(2) by (simp_all add: live_lease_def)
  have "distinct (map d_id (deliveries db))" using wf unfolding outbox_wf_def by blast
  from delivery_of_key [OF this d(1)] have of: "delivery_of db ?i = Some d" unfolding l(1) .
  have of': "delivery_of ?db ?i = Some (closed_row db c tm d)"
    unfolding outcome_db_def using of l(1) by (simp add: delivery_of_update closed_row_def released_def)
  have row: "d_state (closed_row db c tm d) = completion_state db c" "d_attempts (closed_row db c tm d) = dc_attempt c"
    using l(4) by (simp_all add: closed_row_def released_def)
  have k: "outbox_wf ?db" "outbox_kept db ?db" using outcome_db_kept [OF wf d] by blast+
  have "b_custody b \<noteq> CustodyAccepted" if "b \<in> set (bridge_intents ?db)" "b_delivery b = ?i" for b
  proof -
    have "custody_ok db b" using wf that(1) by (simp add: outbox_wf_def list_all_iff outcome_db_def)
    then show ?thesis using that(2) of l(2) by (simp add: custody_ok_def)
  qed
  moreover have "\<exists>d. delivery_of ?db ?i = Some d \<and> d_state d = ''delivered''" if "dc_accepted c"
    using that of' row(1) by (simp add: completion_state_def)
  ultimately have k1: "outbox_wf db1" "outbox_kept ?db db1" using set_custody_kept [OF k(1) db1] by blast+
  have of1: "delivery_of db1 ?i = Some (closed_row db c tm d)" using set_custody_delivery_of [OF db1] of' by simp
  then have "evidence_ok db1 \<lparr> y_delivery = ?i, y_attempt = dc_attempt c, y_recorded_at = tm, y_evidence = e \<rparr>" for e
    using row completion_state_closed by (simp add: evidence_ok_def)
  from insert_evidence_kept [OF k1(1) this] have k2: "outbox_wf db' \<and> outbox_kept db1 db'" "delivery_of db' ?i = delivery_of db1 ?i"
    using db' k1(1) outbox_kept_refl by auto
  have "closes db db' (?i, dc_attempt c, dc_owner c)"
    unfolding closes_def using of of1 k2(2) l row completion_state_closed(1) by simp
  then show ?thesis using k2(1) outbox_kept_trans [OF outbox_kept_trans [OF k(2) k1(2)]] by blast
qed

lemma claim_step:
  assumes "outbox_wf db"
  shows "outbox_wf (snd (claim_delivery_lease x op db)) \<and> outbox_kept db (snd (claim_delivery_lease x op db))
    \<and> (\<forall>c. fst (claim_delivery_lease x op db) = Inr (Some c) \<longrightarrow>
         opens db (snd (claim_delivery_lease x op db)) (cl_delivery c, cl_attempt c, cl_owner c))"
proof (cases "cd_at op")
  case (Finite tm)
  show ?thesis
  proof (cases "claim_tx x op tm db")
    case (Inr r)
    then show ?thesis using Finite assms claim_tx_kept [OF assms, of x op tm "fst r" "snd r"]
      by (simp add: claim_delivery_lease_def outbox_kept_refl commit_def split_beta)
  qed (simp add: claim_delivery_lease_def Finite assms outbox_kept_refl)
qed (simp add: claim_delivery_lease_def assms outbox_kept_refl)

lemma complete_step:
  assumes "outbox_wf db"
  shows "outbox_wf (snd (complete_delivery_attempt x c db)) \<and> outbox_kept db (snd (complete_delivery_attempt x c db))
    \<and> (\<forall>s. fst (complete_delivery_attempt x c db) = Inr s \<longrightarrow> s \<noteq> ''not_owned'' \<longrightarrow>
         closes db (snd (complete_delivery_attempt x c db)) (dc_delivery c, dc_attempt c, dc_owner c))"
proof (cases "dc_at c")
  case (Finite tm)
  show ?thesis
  proof (cases "complete_tx x c tm db")
    case (Inr r)
    have "snd r = db" if "fst r = ''not_owned''"
      using Inr that completion_state_closed(2) by (auto simp: complete_tx_def split: if_split_asm)
    then show ?thesis
      using Inr Finite assms complete_tx_kept [OF assms, of x c tm "fst r" "snd r"]
      by (cases "fst r = ''not_owned''") (simp_all add: complete_delivery_attempt_def outbox_kept_refl commit_def split_beta)
  qed (simp add: complete_delivery_attempt_def Finite assms outbox_kept_refl)
qed (simp add: complete_delivery_attempt_def assms outbox_kept_refl)

lemma outbox_step: "outbox_wf db \<Longrightarrow> outbox_wf (outbox_exec a db) \<and> outbox_kept db (outbox_exec a db)"
proof -
  assume wf: "outbox_wf db"
  obtain x op where "a = (x, op)" by (cases a)
  then show ?thesis
    using claim_step [OF wf] prepare_kept [OF wf] complete_step [OF wf] cancel_kept [OF wf] expire_kept [OF wf]
    by (cases op) simp_all
qed

interpretation outbox: kept_by_steps outbox_exec outbox_wf outbox_kept
  by unfold_locales (rule outbox_kept_refl, erule (1) outbox_kept_trans, erule outbox_step)

lemma granted_opens: "outbox_wf db \<Longrightarrow> g \<in> set (granted a db) \<Longrightarrow> opens db (outbox_exec a db) g"
  using claim_step by (cases "(a, db)" rule: granted.cases) (auto split: sum.splits option.splits)

lemma recorded_closes: "outbox_wf db \<Longrightarrow> g \<in> set (recorded a db) \<Longrightarrow> closes db (outbox_exec a db) g"
  using complete_step by (cases "(a, db)" rule: recorded.cases) (auto split: sum.splits if_split_asm, metis)

lemma granted_single: "length (granted a db) \<le> 1" "length (recorded a db) \<le> 1"
  by (cases "(a, db)" rule: granted.cases; simp split: sum.split option.split)
    (cases "(a, db)" rule: recorded.cases; simp split: sum.split)

subsection \<open>Where an open attempt comes from\<close>

definition no_new_attempt :: "db \<Rightarrow> db \<Rightarrow> bool" where
  "no_new_attempt db db' \<longleftrightarrow>
     (\<forall>i d. delivery_of db' i = Some d \<longrightarrow> d_state d = ''sending'' \<longrightarrow> delivery_of db i = Some d)"

lemma no_new_refl: "no_new_attempt db db"
  and no_new_trans: "no_new_attempt a b \<Longrightarrow> no_new_attempt b c \<Longrightarrow> no_new_attempt a c"
  by (simp_all add: no_new_attempt_def)

lemma no_new_update:
  assumes "\<And>d. d_id (f d) = d_id d" "\<And>d. d_state (f d) \<noteq> ''sending''"
  shows "no_new_attempt db (update_delivery P f db)"
  using assms by (auto simp: no_new_attempt_def delivery_of_update)

lemma no_new_released: "s \<noteq> ''sending'' \<Longrightarrow> no_new_attempt db (update_delivery P (released s) db)"
  by (rule no_new_update) (simp_all add: released_def)

lemma expire_no_new: "no_new_attempt db (snd (expire_unbound_batch tm limit db))"
proof -
  have "no_new_attempt db (fold (\<lambda>i. update_delivery (\<lambda>d. d_id d = i \<and> d_state d = ''waiting_binding'')
      (released ''expired'')) ids db)" for ids
  proof (induction ids arbitrary: db)
    case (Cons i ids)
    from no_new_trans [OF no_new_released Cons.IH] show ?case by simp
  qed (simp add: no_new_refl)
  then show ?thesis by (cases tm) (simp_all add: expire_unbound_batch_def no_new_refl Let_def)
qed

lemma prepare_no_new: "no_new_attempt db (snd (prepare_bridge_delivery op db))"
proof -
  have "delivery_of db' i = delivery_of db i" if "prepare_tx op tm db = Inr (n, db')" for tm n db' i
    using that by (auto simp: prepare_tx_def fence_unknown_def split: option.splits if_split_asm)
  then show ?thesis
    by (auto simp: prepare_bridge_delivery_def commit_def no_new_attempt_def split: f64.split sum.split)
qed

lemma complete_no_new: "no_new_attempt db (snd (complete_delivery_attempt x c db))"
proof (cases "dc_at c")
  case (Finite tm)
  have "no_new_attempt db db'" if r: "complete_tx x c tm db = Inr (s, db')" for s db'
  proof (cases "s = ''not_owned''")
    case True
    then show ?thesis using r completion_state_closed(2) no_new_refl
      by (auto simp: complete_tx_def split: if_split_asm)
  next
    case False
    obtain d db1 where "d \<in> set (deliveries db)" "live_lease (dc_delivery c) (dc_owner c) (dc_attempt c) tm d"
      "s = completion_state db c" and db1: "set_custody c (outcome_db c tm db) = Inr db1"
      and db': "dc_evidence c = None \<and> db' = db1
        \<or> (\<exists>raw e. dc_evidence c = Some raw \<and> safe_evidence x raw = Inr e \<and> db' = insert_evidence
             \<lparr> y_delivery = dc_delivery c, y_attempt = dc_attempt c, y_recorded_at = tm, y_evidence = e \<rparr> db1)"
      by (rule complete_tx_writes [OF r False])
    have "delivery_of db' i = delivery_of (outcome_db c tm db) i" for i
      using db' set_custody_delivery_of [OF db1] by auto
    moreover have "no_new_attempt db (outcome_db c tm db)" unfolding outcome_db_def
      by (rule no_new_update) (simp_all add: closed_row_def released_def completion_state_closed)
    ultimately show ?thesis by (simp add: no_new_attempt_def)
  qed
  then show ?thesis using Finite no_new_refl
    by (auto simp: complete_delivery_attempt_def commit_def split: sum.split)
qed (simp add: complete_delivery_attempt_def no_new_refl)

lemma claim_new:
  assumes wf: "outbox_wf db" and r: "claim_tx x op tm db = Inr (r, db')"
    and d': "delivery_of db' i = Some d'" "d_state d' = ''sending''"
  shows "delivery_of db i = Some d'
    \<or> (\<exists>c. r = Some c \<and> cl_delivery c = i \<and> cl_attempt c = d_attempts d' \<and> d_lease_owner d' = Some (cl_owner c))"
proof -
  define db0 where "db0 = update_delivery (stale_waiting db tm) (released ''expired'') db"
  have n0: "no_new_attempt db db0" unfolding db0_def by (rule no_new_released) simp
  have "outbox_wf db0 \<and> outbox_kept db db0" unfolding db0_def
    by (rule update_delivery_kept [OF wf]) (simp add: released_def, simp add: released_moves stale_waiting_def)
  then have wf0: "outbox_wf db0" by blast
  show ?thesis
  proof (cases "oldest_due db0 tm")
    case None
    then show ?thesis using r d' n0 by (simp add: claim_tx_def db0_def Let_def no_new_attempt_def)
  next
    case (Some d)
    have cf: "claim_found x op tm d db0 = Inr (r, db')" using r Some by (simp add: claim_tx_def db0_def Let_def)
    note d = oldest_due_in [OF Some]
    from claim_found_cases [OF cf] show ?thesis
    proof (elim disjE conjE exE)
      fix err amb assume "db' = hold_row (d_id d) err amb db0"
      moreover have "no_new_attempt db0 (hold_row (d_id d) err amb db0)" unfolding hold_row_def
        by (rule no_new_update) (simp_all add: released_def)
      ultimately show ?thesis using d' n0 by (simp add: no_new_attempt_def)
    next
      fix carrier s payload assume l: "lease_found op tm d carrier s payload db0 = Inr (r, db')"
      from lease_found_Inr [OF l wf0] d obtain c where c: "r = Some c" "cl_delivery c = d_id d"
          "cl_attempt c = d_attempts d + 1" "cl_owner c = cd_owner op"
        and db': "db' = lease_row (d_id d) (cd_owner op) (d_attempts d + 1) tm (tm + lease_seconds (cd_policy op))
            (insert_bridge (d_id d) db0)" by blast
      from d'(1) obtain e where e: "delivery_of db0 i = Some e" and de: "d' = (if d_id e = d_id d \<and> due tm e
          then e\<lparr> d_state := ''sending'', d_attempts := d_attempts d + 1, d_lease_owner := Some (cd_owner op),
            d_lease_until := Some (tm + lease_seconds (cd_policy op)), d_next_attempt_at := None \<rparr> else e)"
        unfolding db' lease_row_def by (auto simp: delivery_of_update)
      show ?thesis
      proof (cases "d_id e = d_id d \<and> due tm e")
        case True
        then show ?thesis using c de delivery_of_in [OF e] by simp
      next
        case False
        then have "d' = e" unfolding de by (rule if_not_P)
        then show ?thesis using e d'(2) n0 by (simp add: no_new_attempt_def)
      qed
    qed
  qed
qed

end
