(* ===== verification/OutboxFacts.thy ===== *)
theory OutboxFacts
  imports OutboxRuns
begin

text \<open>
  The guarantees of the outbox over every run of its operations: attempts are handed out and recorded at
  most once, only the holder of a lease records its attempt, settled notices stay settled, evidence reads
  back, retries are bounded, and a malformed notice never blocks the others.
\<close>

section \<open>Attempts\<close>

lemma kept_stage:
  "outbox_kept db db' \<Longrightarrow> delivery_of db i = Some d \<Longrightarrow> \<exists>d'. delivery_of db' i = Some d' \<and> stage d \<le> stage d'"
  by (fastforce simp: outbox_kept_def row_kept_def)

lemma later_grants:
  assumes "outbox_wf db" "delivery_of db i = Some d" "(i, n, owner) \<in> set (collect granted outbox_exec ops db)"
  shows "stage d < 2 * n"
  using assms
proof (induction ops arbitrary: db d)
  case (Cons a ops)
  note step = outbox_step [OF Cons.prems(1), of a]
  show ?case
  proof (cases "(i, n, owner) \<in> set (granted a db)")
    case True
    from granted_opens [OF Cons.prems(1) this] Cons.prems(2) show ?thesis by (auto simp: opens_def)
  next
    case False
    with Cons.prems(3) have "(i, n, owner) \<in> set (collect granted outbox_exec ops (outbox_exec a db))" by simp
    moreover obtain d' where "delivery_of (outbox_exec a db) i = Some d'" "stage d \<le> stage d'"
      using kept_stage [OF _ Cons.prems(2)] step by blast
    ultimately show ?thesis using Cons.IH step by fastforce
  qed
qed simp

lemma later_records:
  assumes "outbox_wf db" "delivery_of db i = Some d" "(i, n, owner) \<in> set (collect recorded outbox_exec ops db)"
  shows "stage d \<le> 2 * n"
  using assms
proof (induction ops arbitrary: db d)
  case (Cons a ops)
  note step = outbox_step [OF Cons.prems(1), of a]
  show ?case
  proof (cases "(i, n, owner) \<in> set (recorded a db)")
    case True
    from recorded_closes [OF Cons.prems(1) this] Cons.prems(2) show ?thesis by (auto simp: closes_def stage_def)
  next
    case False
    with Cons.prems(3) have "(i, n, owner) \<in> set (collect recorded outbox_exec ops (outbox_exec a db))" by simp
    moreover obtain d' where "delivery_of (outbox_exec a db) i = Some d'" "stage d \<le> stage d'"
      using kept_stage [OF _ Cons.prems(2)] step by blast
    ultimately show ?thesis using Cons.IH step by fastforce
  qed
qed simp

definition attempt_of :: "string \<times> nat \<times> string \<Rightarrow> string \<times> nat" where
  "attempt_of g = (fst g, fst (snd g))"

lemma distinct_collect:
  assumes "\<And>a db. length (out a db) \<le> 1" "I db" "\<And>a db. I db \<Longrightarrow> I (step a db)"
    and "\<And>a as db g h. I db \<Longrightarrow> g \<in> set (out a db) \<Longrightarrow> h \<in> set (collect out step as (step a db)) \<Longrightarrow> key g \<noteq> key h"
  shows "distinct (map key (collect out step as db))"
  using assms(2)
proof (induction as arbitrary: db)
  case (Cons a as)
  then have "distinct (map key (collect out step as (step a db)))" using assms(3) by blast
  moreover have "out a db = [] \<or> (\<exists>g. out a db = [g])"
    using assms(1) [of a db] by (cases "out a db") auto
  ultimately show ?case using assms(4) [OF Cons.prems, of _ a] by (auto simp: image_iff)
qed simp

text \<open>
  C12 (safety). However many dispatchers claim, publish, complete, cancel and expire, in any order and at any
  times, no attempt of a notice is handed out twice and no attempt's outcome is recorded twice.
\<close>

theorem attempts_exclusive:
  assumes "outbox_wf db"
  shows "distinct (map attempt_of (collect granted outbox_exec ops db))
    \<and> distinct (map attempt_of (collect recorded outbox_exec ops db))"
proof
  show "distinct (map attempt_of (collect granted outbox_exec ops db))"
  proof (rule distinct_collect [where I = outbox_wf])
    fix a as db g h
    assume wf: "outbox_wf db" and g: "g \<in> set (granted a db)"
      and h: "h \<in> set (collect granted outbox_exec as (outbox_exec a db))"
    obtain d where d: "delivery_of (outbox_exec a db) (fst g) = Some d" "d_state d = ''sending''" "d_attempts d = fst (snd g)"
      using granted_opens [OF wf g] by (cases g) (auto simp: opens_def)
    show "attempt_of g \<noteq> attempt_of h"
      using later_grants [of "outbox_exec a db" "fst g" d "fst (snd h)" "snd (snd h)" as] outbox_step [OF wf, of a] d h
      by (cases h) (auto simp: attempt_of_def stage_def)
  qed (use assms outbox_step granted_single in blast)+
next
  show "distinct (map attempt_of (collect recorded outbox_exec ops db))"
  proof (rule distinct_collect [where I = outbox_wf])
    fix a as db g h
    assume wf: "outbox_wf db" and g: "g \<in> set (recorded a db)"
      and h: "h \<in> set (collect recorded outbox_exec as (outbox_exec a db))"
    obtain d where d: "delivery_of (outbox_exec a db) (fst g) = Some d" "d_state d \<noteq> ''sending''" "d_attempts d = fst (snd g)"
      using recorded_closes [OF wf g] by (cases g) (auto simp: closes_def)
    show "attempt_of g \<noteq> attempt_of h"
      using later_records [of "outbox_exec a db" "fst g" d "fst (snd h)" "snd (snd h)" as] outbox_step [OF wf, of a] d h
      by (cases h) (auto simp: attempt_of_def stage_def)
  qed (use assms outbox_step granted_single in blast)+
qed

subsection \<open>A sample outbox\<close>

definition sample_policy :: delivery_policy where
  "sample_policy = \<lparr> dp_retry_base = 2, dp_retry_cap = 60, dp_max_attempts = 3, dp_lease = Finite 30 \<rparr>"

definition sample_claim :: "rat \<Rightarrow> claim_delivery" where
  "sample_claim tm = \<lparr> cd_owner = ''o'', cd_at = Finite tm, cd_policy = sample_policy \<rparr>"

definition sample_delivery :: "string \<Rightarrow> nat \<Rightarrow> rat option \<Rightarrow> delivery_row" where
  "sample_delivery state n until = \<lparr> d_id = ''ntf_1'', d_agent = None, d_session = Some ''s'', d_event = None,
     d_state = state, d_attempts = n, d_lease_owner = (if until = None then None else Some ''o''),
     d_lease_until = until, d_next_attempt_at = None, d_last_error = None, d_ambiguous = False \<rparr>"

definition sample_outbox :: "delivery_row \<Rightarrow> bridge_row list \<Rightarrow> db" where
  "sample_outbox d bs = sample_db\<lparr> deliveries := [d], bridge_intents := bs, restart_notices :=
     [\<lparr> rn_restart = 1, rn_transport = ''codex_queue'', rn_external = ''e'', rn_stage = ''before'', rn_message = ''m'',
       rn_delivery = ''ntf_1'' \<rparr>] \<rparr>"

definition sample_bridge :: bridge_row where
  "sample_bridge = \<lparr> b_delivery = ''ntf_1'', b_intent = None, b_receipt = None, b_custody = CustodyPending \<rparr>"

definition outbox_start :: db where
  "outbox_start = sample_outbox (sample_delivery ''pending'' 0 None) []"

definition sample_granted :: "nat \<Rightarrow> claimed" where
  "sample_granted n = \<lparr> cl_delivery = ''ntf_1'', cl_owner = ''o'', cl_attempt = n, cl_transport = ''codex_queue'',
     cl_session = ''e'', cl_payload = RestartPayload ''m'' None, cl_bridge_owned = True, cl_bridge_intent = None,
     cl_bridge_unknown = False \<rparr>"

lemma sample_rows [simp]:
  "deliveries (sample_outbox d bs) = [d]" "bridge_intents (sample_outbox d bs) = bs"
  "delivery_evidence (sample_outbox d bs) = []"
  "sessions (sample_outbox d bs) = sessions sample_db" "pools (sample_outbox d bs) = pools sample_db"
  "(sample_outbox d bs)\<lparr> deliveries := [d'] \<rparr> = sample_outbox d' bs"
  "(sample_outbox d bs)\<lparr> bridge_intents := bs' \<rparr> = sample_outbox d bs'"
  "restart_notices (sample_outbox d bs) = [\<lparr> rn_restart = 1, rn_transport = ''codex_queue'', rn_external = ''e'',
     rn_stage = ''before'', rn_message = ''m'', rn_delivery = ''ntf_1'' \<rparr>]"
  by (simp_all add: sample_outbox_def sample_db_def)

lemma outbox_start_wf: "outbox_wf outbox_start"
  by (simp add: outbox_wf_def outbox_start_def lease_shape_def sample_delivery_def)

lemma sample_delivery_fields [simp]:
  "d_id (sample_delivery s n u) = ''ntf_1''" "d_session (sample_delivery s n u) = Some ''s''"
  "d_attempts (sample_delivery s n u) = n" "d_state (sample_delivery s n u) = s"
  "d_lease_until (sample_delivery s n u) = u" "d_agent (sample_delivery s n u) = None"
  "(sample_delivery s n u)\<lparr> d_state := ''sending'', d_attempts := m, d_lease_owner := Some ''o'',
     d_lease_until := Some v, d_next_attempt_at := None \<rparr> = sample_delivery ''sending'' m (Some v)"
  by (simp_all add: sample_delivery_def)

lemma sample_leases:
  assumes "due tm (sample_delivery s n u)" "n < 9" "bs = [sample_bridge] \<or> bs = [] \<and> n = 0"
  shows "claim_found x (sample_claim tm) tm (sample_delivery s n u) (sample_outbox (sample_delivery s n u) bs) =
    Inr (Some (sample_granted (n + 1)), sample_outbox (sample_delivery ''sending'' (n + 1) (Some (tm + 30))) [sample_bridge])"
proof -
  let ?d = "sample_delivery s n u"
  have session: "find (\<lambda>y. s_id y = ''s'') (sessions sample_db) = Some \<lparr> s_id = ''s'', s_transport = ''codex'',
      s_external = ''e'', s_turn = None, s_created_at = 0, s_last_seen_at = 0 \<rparr>" by (simp add: sample_db_def)
  have payload: "claim_payload x (sample_outbox ?d bs) ''ntf_1'' a = Inr (RestartPayload ''m'' None)" for a
    by (simp add: claim_payload_def restart_notice_of_def before_intent_def is_prior_notice_def)
  have small: "\<not> U32_MAX < n" "\<not> U32_MAX \<le> n" using assms(2) by (simp_all add: U32_MAX_def)
  have bridge: "insert_bridge ''ntf_1'' (sample_outbox ?d bs) = sample_outbox ?d [sample_bridge]"
      "\<not> (bridge_of (sample_outbox ?d bs) ''ntf_1'' = None \<and> 0 < n)"
      "bridge_of (sample_outbox ?d [sample_bridge]) ''ntf_1'' = Some sample_bridge"
    using assms(3) by (auto simp: insert_bridge_def bridge_of_def sample_bridge_def)
  have lease: "lease_row ''ntf_1'' ''o'' (n + 1) tm (tm + 30) (sample_outbox ?d [sample_bridge])
      = sample_outbox (sample_delivery ''sending'' (n + 1) (Some (tm + 30))) [sample_bridge]"
    using assms(1) by (simp add: lease_row_def update_delivery_def)
  have leased: "lease_found (sample_claim tm) tm ?d ''codex_queue'' \<lparr> s_id = ''s'', s_transport = ''codex'',
      s_external = ''e'', s_turn = None, s_created_at = 0, s_last_seen_at = 0 \<rparr> (RestartPayload ''m'' None) (sample_outbox ?d bs)
    = Inr (Some (sample_granted (n + 1)), sample_outbox (sample_delivery ''sending'' (n + 1) (Some (tm + 30))) [sample_bridge])"
    using assms(1) small lease bridge
    by (simp add: lease_found_def Let_def sample_claim_def sample_policy_def lease_seconds_def sample_granted_def)
      (simp add: sample_bridge_def)
  show ?thesis
    using small(1) bridge(2) by (simp add: claim_found_def session payload Let_def canonical_transport_name_def leased)
qed

lemma sample_claims:
  assumes "due tm (sample_delivery s n u)" "n < 9" "s \<noteq> ''waiting_binding''" "bs = [sample_bridge] \<or> bs = [] \<and> n = 0"
  shows "claim_delivery_lease x (sample_claim tm) (sample_outbox (sample_delivery s n u) bs) =
    (Inr (Some (sample_granted (n + 1))), sample_outbox (sample_delivery ''sending'' (n + 1) (Some (tm + 30))) [sample_bridge])"
proof -
  let ?d = "sample_delivery s n u"
  have "oldest_due (sample_outbox ?d bs) tm = Some ?d"
    using assms(1) by (simp add: oldest_due_def ready_rows_def waits_for_warning_def is_prior_notice_def)
  moreover have "update_delivery (stale_waiting (sample_outbox ?d bs) tm) (released ''expired'') (sample_outbox ?d bs)
      = sample_outbox ?d bs"
    using assms(3) by (simp add: update_delivery_def stale_waiting_def)
  ultimately have "claim_tx x (sample_claim tm) tm (sample_outbox ?d bs) = Inr (Some (sample_granted (n + 1)),
      sample_outbox (sample_delivery ''sending'' (n + 1) (Some (tm + 30))) [sample_bridge])"
    using sample_leases [OF assms(1,2,4)] by (simp add: claim_tx_def Let_def)
  then show ?thesis by (simp add: claim_delivery_lease_def) (simp add: sample_claim_def)
qed

lemma sample_due:
  "0 \<le> tm \<Longrightarrow> due tm (sample_delivery ''pending'' n None)"
  "u \<le> tm \<Longrightarrow> due tm (sample_delivery ''sending'' n (Some u))"
  by (simp_all add: due_def) (simp add: sample_delivery_def)

lemma sample_run:
  "collect granted outbox_exec [(x, OutClaim (sample_claim 10)), (x, OutClaim (sample_claim 50))] outbox_start
    = [(''ntf_1'', 1, ''o''), (''ntf_1'', 2, ''o'')]"
proof -
  have "claim_delivery_lease x (sample_claim 10) outbox_start =
      (Inr (Some (sample_granted 1)), sample_outbox (sample_delivery ''sending'' 1 (Some 40)) [sample_bridge])"
    unfolding outbox_start_def by (subst sample_claims) (simp_all add: sample_due)
  moreover have "claim_delivery_lease x (sample_claim 50) (sample_outbox (sample_delivery ''sending'' 1 (Some 40)) [sample_bridge]) =
      (Inr (Some (sample_granted 2)), sample_outbox (sample_delivery ''sending'' 2 (Some 80)) [sample_bridge])"
    by (subst sample_claims) (simp_all add: sample_due numeral_2_eq_2)
  ultimately show ?thesis by simp (simp add: sample_granted_def)
qed

theorem attempts_exclusive_witness:
  "collect granted outbox_exec [(sample_ext, OutClaim (sample_claim 10)), (sample_ext, OutClaim (sample_claim 50))] outbox_start
    = [(''ntf_1'', 1, ''o''), (''ntf_1'', 2, ''o'')]
   \<and> distinct (map attempt_of (collect granted outbox_exec
       [(sample_ext, OutClaim (sample_claim 10)), (sample_ext, OutClaim (sample_claim 50))] outbox_start))"
  using attempts_exclusive [OF outbox_start_wf] sample_run by blast

lemma step_attempt:
  assumes wf: "outbox_wf db" and d': "delivery_of (outbox_exec a db) i = Some d'" "d_state d' = ''sending''"
  shows "delivery_of db i = Some d'
    \<or> (\<exists>owner. (i, d_attempts d', owner) \<in> set (granted a db) \<and> d_lease_owner d' = Some owner)"
proof -
  obtain x op where a: "a = (x, op)" by (cases a)
  show ?thesis
  proof (cases op)
    case (OutClaim c)
    show ?thesis
    proof (cases "cd_at c")
      case (Finite tm)
      show ?thesis
      proof (cases "claim_tx x c tm db")
        case (Inr r)
        then show ?thesis using Finite OutClaim a d' claim_new [OF wf, of x c tm "fst r" "snd r" i d']
          by (auto simp: claim_delivery_lease_def commit_def split_beta split: if_split_asm)
      qed (use Finite OutClaim a d' in \<open>simp add: claim_delivery_lease_def split: if_split_asm\<close>)
    qed (use OutClaim a d' in \<open>simp add: claim_delivery_lease_def\<close>)
  next
    case (OutCancel j)
    have "no_new_attempt db (snd (cancel_notice j db))" by (simp add: cancel_notice_def no_new_refl no_new_released)
    then show ?thesis using OutCancel a d' by (simp add: no_new_attempt_def)
  qed (use a d' expire_no_new [of db] prepare_no_new [of db] complete_no_new [of db] in
      \<open>simp_all add: no_new_attempt_def\<close>)
qed

definition held :: "(string \<times> nat \<times> string) set \<Rightarrow> db \<Rightarrow> bool" where
  "held G db \<longleftrightarrow> (\<forall>i d owner. delivery_of db i = Some d \<longrightarrow> d_state d = ''sending'' \<longrightarrow> d_lease_owner d = Some owner \<longrightarrow>
     (i, d_attempts d, owner) \<in> G)"

lemma records_held:
  assumes "outbox_wf db" "held G db"
  shows "set (collect recorded outbox_exec ops db) \<subseteq> G \<union> set (collect granted outbox_exec ops db)"
  using assms
proof (induction ops arbitrary: db G)
  case (Cons a ops)
  let ?db = "outbox_exec a db" and ?G = "G \<union> set (granted a db)"
  have "held ?G ?db"
    using step_attempt [OF Cons.prems(1), of a] Cons.prems(2) unfolding held_def by fastforce
  then have "set (collect recorded outbox_exec ops ?db) \<subseteq> ?G \<union> set (collect granted outbox_exec ops ?db)"
    using Cons.IH outbox_step [OF Cons.prems(1)] by blast
  moreover have "set (recorded a db) \<subseteq> G"
    using recorded_closes [OF Cons.prems(1), of _ a] Cons.prems(2) by (fastforce simp: closes_def held_def)
  ultimately show ?case by auto
qed simp

text \<open>
  C13 (safety). In a run that starts without an open attempt, every recorded outcome belongs to a lease the
  run granted: the same notice, the same attempt and the same dispatcher.
\<close>

theorem recorded_by_holder:
  assumes "outbox_wf db" and "\<forall>d \<in> set (deliveries db). d_state d \<noteq> ''sending''"
  shows "set (collect recorded outbox_exec ops db) \<subseteq> set (collect granted outbox_exec ops db)"
proof -
  have "held {} db" using assms(2) delivery_of_in by (auto simp: held_def)
  from records_held [OF assms(1) this] show ?thesis by simp
qed

definition sample_done :: "json option \<Rightarrow> delivery_completion" where
  "sample_done ev = \<lparr> dc_delivery = ''ntf_1'', dc_owner = ''o'', dc_attempt = 1, dc_transport = ''bridge'',
     dc_accepted = False, dc_ambiguous = False, dc_classifier = ''bridge_unavailable'', dc_evidence = ev,
     dc_receipt = None, dc_policy = sample_policy, dc_at = Finite 20 \<rparr>"

abbreviation sample_leased :: db where
  "sample_leased \<equiv> sample_outbox (sample_delivery ''sending'' (Suc 0) (Some 40)) [sample_bridge]"

lemma sample_done_fields [simp]:
  "dc_delivery (sample_done ev) = ''ntf_1''" "dc_owner (sample_done ev) = ''o''" "dc_attempt (sample_done ev) = 1"
  "dc_evidence (sample_done ev) = ev" "dc_at (sample_done ev) = Finite 20" "dc_accepted (sample_done ev) = False"
  "dc_ambiguous (sample_done ev) = False" "dc_policy (sample_done ev) = sample_policy"
  "dc_classifier (sample_done ev) = ''bridge_unavailable''"
  by (simp_all add: sample_done_def)

lemma sample_leased_wf: "outbox_wf sample_leased"
  by (simp add: outbox_wf_def lease_shape_def sample_delivery_def custody_ok_def sample_bridge_def)

lemma sample_retries: "completion_state sample_leased (sample_done ev) = ''retry_wait''"
  "next_attempt sample_leased (sample_done ev) 20 = Some 22"
proof -
  have b: "budget_attempt sample_leased (sample_done ev) = 1" by (simp add: budget_attempt_def holds_def)
  show st: "completion_state sample_leased (sample_done ev) = ''retry_wait''"
    by (simp add: completion_state_def attempt_failed_def exhausted_def b sample_policy_def)
  show "next_attempt sample_leased (sample_done ev) 20 = Some 22"
    by (simp add: next_attempt_def st b sample_policy_def unconfigured_def)
qed

lemma sample_completes:
  "fst (complete_delivery_attempt x (sample_done None) sample_leased) = Inr ''retry_wait''"
  "x_json_len x sample_stored \<le> 16384 \<Longrightarrow>
     fst (complete_delivery_attempt x (sample_done (Some sample_evidence)) sample_leased) = Inr ''retry_wait''"
proof -
  have ok: "\<not> completion_invalid (sample_done ev)" for ev
    by (simp add: completion_invalid_def) (simp add: sample_done_def starts_with_def)
  have live: "live_lease ''ntf_1'' ''o'' (Suc 0) 20 (sample_delivery ''sending'' (Suc 0) (Some 40))"
    by (simp add: live_lease_def) (simp add: sample_delivery_def)
  have custody: "\<exists>db'. set_custody (sample_done ev) db = Inr db'" for ev db by (simp add: set_custody_def)
  show "fst (complete_delivery_attempt x (sample_done None) sample_leased) = Inr ''retry_wait''"
    using custody [of None sample_leased]
    by (auto simp: complete_delivery_attempt_def ok complete_tx_def live record_evidence_def sample_retries)
  assume "x_json_len x sample_stored \<le> 16384"
  then show "fst (complete_delivery_attempt x (sample_done (Some sample_evidence)) sample_leased) = Inr ''retry_wait''"
    using sample_evidence_safe [of x] custody [of "Some sample_evidence" sample_leased]
    by (auto simp: complete_delivery_attempt_def ok complete_tx_def live record_evidence_def sample_retries
        MAX_EVIDENCE_BYTES_def custody_commute)
qed

lemma sample_claim_first: "claim_delivery_lease x (sample_claim 10) outbox_start = (Inr (Some (sample_granted 1)), sample_leased)"
  unfolding outbox_start_def by (subst sample_claims) (simp_all add: sample_due)

theorem recorded_by_holder_witness:
  "set (collect recorded outbox_exec [(sample_ext, OutClaim (sample_claim 10)), (sample_ext, OutComplete (sample_done None))]
      outbox_start) = {(''ntf_1'', 1, ''o'')}
   \<and> (''ntf_1'', 1, ''o'') \<in> set (collect granted outbox_exec
       [(sample_ext, OutClaim (sample_claim 10)), (sample_ext, OutComplete (sample_done None))] outbox_start)"
proof -
  let ?ops = "[(sample_ext, OutClaim (sample_claim 10)), (sample_ext, OutComplete (sample_done None))]"
  have "set (collect recorded outbox_exec ?ops outbox_start) = {(''ntf_1'', 1, ''o'')}"
    by (simp add: sample_claim_first sample_completes(1))
  moreover have "set (collect recorded outbox_exec ?ops outbox_start) \<subseteq> set (collect granted outbox_exec ?ops outbox_start)"
    by (rule recorded_by_holder [OF outbox_start_wf]) (simp add: outbox_start_def)
  ultimately show ?thesis by blast
qed

section \<open>Settled notices, frozen publications and custody\<close>

text \<open>
  C17 (invariant). No run changes a delivered or cancelled notice, a publication once frozen, or an accepted
  custody, and in every state accepted custody stands for a delivered notice whose receipt matches the frozen
  publication in event, destination, fingerprint and producer.
\<close>

theorem outbox_settled:
  fixes ops :: "(ext \<times> outbox_op) list"
  assumes "outbox_wf db"
  defines "db' \<equiv> fold outbox_exec ops db"
  shows "(\<forall>i d. delivery_of db i = Some d \<longrightarrow> d_state d \<in> {''delivered'', ''cancelled''} \<longrightarrow> delivery_of db' i = Some d)
    \<and> (\<forall>i b n. bridge_of db i = Some b \<longrightarrow> b_intent b = Some n \<longrightarrow> (\<exists>b'. bridge_of db' i = Some b' \<and> b_intent b' = Some n))
    \<and> (\<forall>i s t. public_state_on db i s = ''custody_accepted'' \<longrightarrow> s \<noteq> ''custody_accepted'' \<longrightarrow>
         public_state_on db' i t = ''custody_accepted'')
    \<and> (\<forall>i b. bridge_of db' i = Some b \<longrightarrow> b_custody b = CustodyAccepted \<longrightarrow>
         (\<exists>d n r. delivery_of db' i = Some d \<and> d_state d = ''delivered'' \<and> b_intent b = Some n
            \<and> b_receipt b = Some r \<and> receipt_matches n r))"
proof -
  have k: "outbox_wf db'" "outbox_kept db db'" using outbox.run_keeps [OF assms(1)] by (simp_all add: db'_def)
  have "bridge_of db' i = Some b" if "bridge_of db i = Some b" "b_custody b = CustodyAccepted" for i b
    using k(2) that by (fastforce simp: outbox_kept_def bridge_kept_def)
  then have "public_state_on db' i t = ''custody_accepted''"
    if "public_state_on db i s = ''custody_accepted''" "s \<noteq> ''custody_accepted''" for i s t
    using that by (auto simp: public_state_on_def split: option.splits custody_state.splits)
  moreover have "\<exists>d n r. delivery_of db' i = Some d \<and> d_state d = ''delivered'' \<and> b_intent b = Some n
      \<and> b_receipt b = Some r \<and> receipt_matches n r" if "bridge_of db' i = Some b" "b_custody b = CustodyAccepted" for i b
    using k(1) bridge_of_in [OF that(1)] that(2) by (auto simp: outbox_wf_def list_all_iff custody_ok_def)
  ultimately show ?thesis
    using k(2) unfolding outbox_kept_def row_kept_def bridge_kept_def by fastforce
qed

theorem outbox_settled_witness:
  "delivery_of (fold outbox_exec [(sample_ext, OutCancel ''ntf_1''), (sample_ext, OutClaim (sample_claim 10))]
      (sample_outbox (sample_delivery ''delivered'' 1 None) [])) ''ntf_1'' = Some (sample_delivery ''delivered'' 1 None)"
proof -
  let ?db = "sample_outbox (sample_delivery ''delivered'' 1 None) []"
  have wf: "outbox_wf ?db" by (simp add: outbox_wf_def lease_shape_def sample_delivery_def)
  have "delivery_of ?db ''ntf_1'' = Some (sample_delivery ''delivered'' 1 None)" by (simp add: delivery_of_def)
  moreover have "d_state (sample_delivery ''delivered'' 1 None) \<in> {''delivered'', ''cancelled''}" by simp
  ultimately show ?thesis using conjunct1 [OF outbox_settled [OF wf]] by blast
qed

text \<open>
  C28 (roundtrip). The evidence recorded with an outcome is what the notice shows afterwards: the sanitised
  document of that attempt, accepted again unchanged.
\<close>

theorem evidence_rereads:
  assumes "outbox_wf db" "trim (dc_delivery c) \<noteq> []" "dc_evidence c = Some raw"
    and "complete_delivery_attempt x c db = (Inr s, db')" "s \<noteq> ''not_owned''"
  shows "\<exists>e. safe_evidence x raw = Inr e \<and> latest_on x db' (dc_delivery c) = Inr (Some e)"
proof -
  let ?i = "dc_delivery c"
  from assms(4) obtain tm where r: "complete_tx x c tm db = Inr (s, db')"
    by (auto simp: complete_delivery_attempt_def commit_def split: f64.splits if_split_asm sum.splits)
  obtain d db1 where d: "d \<in> set (deliveries db)" "live_lease ?i (dc_owner c) (dc_attempt c) tm d"
    and "s = completion_state db c" and db1: "set_custody c (outcome_db c tm db) = Inr db1"
    and db': "dc_evidence c = None \<and> db' = db1
      \<or> (\<exists>raw e. dc_evidence c = Some raw \<and> safe_evidence x raw = Inr e \<and> db' = insert_evidence
           \<lparr> y_delivery = ?i, y_attempt = dc_attempt c, y_recorded_at = tm, y_evidence = e \<rparr> db1)"
    by (rule complete_tx_writes [OF r assms(5)])
  then obtain e where e: "safe_evidence x raw = Inr e" "db' = insert_evidence
      \<lparr> y_delivery = ?i, y_attempt = dc_attempt c, y_recorded_at = tm, y_evidence = e \<rparr> db1" using assms(3) by auto
  have rows: "delivery_evidence db1 = delivery_evidence db"
    using db1 by (auto simp: set_custody_def Let_def fence_unknown_def outcome_db_def split: if_split_asm)
  have "lease_shape d" using assms(1) d(1) by (simp add: outbox_wf_def list_all_iff)
  then have pos: "0 < dc_attempt c" using d(2) by (auto simp: lease_shape_def live_lease_def)
  have older: "y_attempt y < dc_attempt c" if "y \<in> set (delivery_evidence db)" "y_delivery y = ?i" for y
  proof -
    have "evidence_ok db y" using assms(1) that(1) by (simp add: outbox_wf_def list_all_iff)
    moreover have "delivery_of db ?i = Some d"
      using assms(1) d delivery_of_key [of db d] by (auto simp: outbox_wf_def live_lease_def)
    ultimately show ?thesis using that(2) d(2) by (auto simp: evidence_ok_def live_lease_def)
  qed
  then have "\<not> list_ex (\<lambda>y. y_delivery y = ?i \<and> y_attempt y = dc_attempt c) (delivery_evidence db)"
    by (fastforce simp: list_ex_iff)
  then have "max_row y_attempt (filter (\<lambda>y. y_delivery y = ?i) (delivery_evidence db')) = Some
      \<lparr> y_delivery = ?i, y_attempt = dc_attempt c, y_recorded_at = tm, y_evidence = e \<rparr>"
    using older pos by (auto simp: e(2) rows insert_evidence_def intro!: max_row_append_greatest)
  then show ?thesis using e(1) assms(2) evidence.norm_fixed [OF e(1)] by (simp add: latest_on_def)
qed

theorem evidence_rereads_witness:
  "latest_on sample_ext (snd (complete_delivery_attempt sample_ext (sample_done (Some sample_evidence)) sample_leased)) ''ntf_1''
    = Inr (Some sample_stored)"
proof -
  have len: "x_json_len sample_ext sample_stored \<le> 16384" by (simp add: sample_ext_def)
  obtain db' where r: "complete_delivery_attempt sample_ext (sample_done (Some sample_evidence)) sample_leased = (Inr ''retry_wait'', db')"
    using sample_completes(2) [OF len] by (cases "complete_delivery_attempt sample_ext (sample_done (Some sample_evidence)) sample_leased") simp
  from evidence_rereads [OF sample_leased_wf _ _ r] sample_evidence_safe [OF len] r show ?thesis
    by (simp add: text_eval)
qed

section \<open>Retries\<close>

text \<open>
  C29 (bounds). An outcome that is not final schedules the next attempt no earlier than now and no later than
  the retry cap after it (a minute at least when the deployment is not configured), and a plain failure that
  has used up the attempt budget is final.
\<close>

theorem retry_bounded:
  assumes "outbox_wf db" "complete_delivery_attempt x c db = (Inr s, db')" "s \<noteq> ''not_owned''" "dc_at c = Finite tm"
    and "0 \<le> dp_retry_base (dc_policy c)" "0 \<le> dp_retry_cap (dc_policy c)"
  shows "\<exists>d. delivery_of db' (dc_delivery c) = Some d \<and> d_state d = s
    \<and> (if s = ''retry_wait''
       then \<exists>n. d_next_attempt_at d = Some n \<and> tm \<le> n
         \<and> n \<le> tm + (if unconfigured c then max (dp_retry_cap (dc_policy c)) 60 else dp_retry_cap (dc_policy c))
       else d_next_attempt_at d = None)
    \<and> (0 < dp_max_attempts (dc_policy c) \<and> dp_max_attempts (dc_policy c) \<le> budget_attempt db c
       \<and> \<not> dc_accepted c \<and> \<not> dc_ambiguous c \<and> \<not> unconfigured c \<longrightarrow> s = ''failed'')"
proof -
  let ?i = "dc_delivery c"
  from assms(2,4) have r: "complete_tx x c tm db = Inr (s, db')"
    by (auto simp: complete_delivery_attempt_def commit_def split: if_split_asm sum.splits)
  obtain d db1 where d: "d \<in> set (deliveries db)" "live_lease ?i (dc_owner c) (dc_attempt c) tm d"
    and s: "s = completion_state db c" and db1: "set_custody c (outcome_db c tm db) = Inr db1"
    and db': "dc_evidence c = None \<and> db' = db1
      \<or> (\<exists>raw e. dc_evidence c = Some raw \<and> safe_evidence x raw = Inr e \<and> db' = insert_evidence
           \<lparr> y_delivery = ?i, y_attempt = dc_attempt c, y_recorded_at = tm, y_evidence = e \<rparr> db1)"
    by (rule complete_tx_writes [OF r assms(3)])
  have "delivery_of db ?i = Some d"
    using assms(1) d delivery_of_key [of db d] by (auto simp: outbox_wf_def live_lease_def)
  then have "delivery_of (outcome_db c tm db) ?i = Some (closed_row db c tm d)"
    unfolding outcome_db_def using d(2) by (simp add: delivery_of_update closed_row_def released_def live_lease_def)
  then have "delivery_of db' ?i = Some (closed_row db c tm d)"
    using db' set_custody_delivery_of [OF db1] by auto
  moreover have "d_state (closed_row db c tm d) = s" "d_next_attempt_at (closed_row db c tm d) = next_attempt db c tm"
    by (simp_all add: closed_row_def released_def s)
  moreover have "0 \<le> dp_retry_base (dc_policy c) * 2 ^ k" for k using assms(5) by simp
  ultimately show ?thesis using assms(6)
    by (auto simp: s next_attempt_def completion_state_def attempt_failed_def exhausted_def Let_def)
qed

theorem retry_bounded_witness:
  "\<exists>d. delivery_of (snd (complete_delivery_attempt sample_ext (sample_done None) sample_leased)) ''ntf_1'' = Some d
    \<and> d_state d = ''retry_wait'' \<and> (\<exists>n. d_next_attempt_at d = Some n \<and> 20 \<le> n \<and> n \<le> 80)"
proof -
  obtain db' where r: "complete_delivery_attempt sample_ext (sample_done None) sample_leased = (Inr ''retry_wait'', db')"
    using sample_completes(1) [of sample_ext] by (cases "complete_delivery_attempt sample_ext (sample_done None) sample_leased") simp
  have "\<not> unconfigured (sample_done None)" by (simp add: unconfigured_def)
  from retry_bounded [OF sample_leased_wf r, of 20] this show ?thesis by (auto simp: r sample_policy_def)
qed

section \<open>Progress\<close>

lemma ready_rows_cong:
  assumes "bridge_intents db' = bridge_intents db" "restart_notices db' = restart_notices db"
  shows "waits_for_warning db' = waits_for_warning db"
  using assms by (simp add: waits_for_warning_def fun_eq_iff)

lemma ready_after_expiry:
  "ready_rows (update_delivery (stale_waiting db tm) (released ''expired'') db) tm = ready_rows db tm"
proof -
  let ?db = "update_delivery (stale_waiting db tm) (released ''expired'') db"
  have "waits_for_warning ?db = waits_for_warning db" by (rule ready_rows_cong) (simp_all add: update_delivery_def)
  moreover have "filter (\<lambda>d. due tm d \<and> \<not> waits_for_warning db d)
      (map (\<lambda>d. if stale_waiting db tm d then released ''expired'' d else d) ds) =
    filter (\<lambda>d. due tm d \<and> \<not> waits_for_warning db d) ds" for ds
    by (induction ds) (simp_all add: due_def stale_waiting_def released_def)
  ultimately show ?thesis by (simp add: ready_rows_def) (simp add: update_delivery_def)
qed

lemma hold_ready: "ready_rows (hold_row i err amb db) tm = filter (\<lambda>e. d_id e \<noteq> i) (ready_rows db tm)"
proof -
  let ?db = "hold_row i err amb db"
  have w: "waits_for_warning ?db = waits_for_warning db"
    by (rule ready_rows_cong) (simp_all add: hold_row_def update_delivery_def)
  have "filter (\<lambda>d. due tm d \<and> \<not> waits_for_warning db d) (map (\<lambda>e. if d_id e = i
        then (released ''failed'' e)\<lparr> d_last_error := Some err, d_ambiguous := d_ambiguous e \<or> amb \<rparr> else e) ds) =
      filter (\<lambda>e. d_id e \<noteq> i) (filter (\<lambda>d. due tm d \<and> \<not> waits_for_warning db d) ds)" for ds
    by (induction ds) (simp_all add: due_def released_def)
  then show ?thesis by (simp add: ready_rows_def w) (simp add: hold_row_def update_delivery_def)
qed

text \<open>The payload of a notice does not depend on the state of any delivery.\<close>

lemma payload_update:
  assumes "\<And>d. d_id (f d) = d_id d \<and> d_event (f d) = d_event d"
  shows "claim_payload x (update_delivery P f db) i agent = claim_payload x db i agent"
proof -
  let ?db = "update_delivery P f db"
  have v: "delivery_event ?db = delivery_event db" by (simp add: delivery_event_def update_delivery_def fun_eq_iff)
  have e: "Option.bind (find (\<lambda>d. d_id d = i) (deliveries ?db)) (delivery_event ?db) =
      Option.bind (find (\<lambda>d. d_id d = i) (deliveries db)) (delivery_event db)"
    unfolding v using assms
    by (cases "find (\<lambda>d. d_id d = i) (deliveries db)") (simp_all add: update_delivery_def find_map_same delivery_event_def)
  have t: "restart_notices ?db = restart_notices db" "pools ?db = pools db" "agents ?db = agents db"
    "notifications ?db = notifications db" "entries ?db = entries db" "bridge_of ?db = bridge_of db"
    by (simp_all add: update_delivery_def bridge_of_def fun_eq_iff)
  show ?thesis
    unfolding claim_payload_def agent_payload_def attention_facts_def pool_facts_def e worker_payload_def
      restart_notice_of_def before_intent_def agent_by_id_def t by (rule refl)
qed

definition has_session :: "db \<Rightarrow> delivery_row \<Rightarrow> bool" where
  "has_session db d \<longleftrightarrow> (\<exists>sid s. d_session d = Some sid \<and> find (\<lambda>s. s_id s = sid) (sessions db) = Some s) \<and> d_attempts d \<le> U32_MAX"

text \<open>A notice without a bridge row although it was attempted, or whose payload does not validate.\<close>

definition unusable :: "ext \<Rightarrow> db \<Rightarrow> delivery_row \<Rightarrow> bool" where
  "unusable x db d \<longleftrightarrow> has_session db d
     \<and> (bridge_of db (d_id d) = None \<and> 0 < d_attempts d
        \<or> (\<exists>m. claim_payload x db (d_id d) (d_agent d) \<in> {Inl (Validation m), Inl (Integrity m)}))"

definition deliverable :: "ext \<Rightarrow> db \<Rightarrow> delivery_row \<Rightarrow> bool" where
  "deliverable x db d \<longleftrightarrow> has_session db d \<and> d_attempts d < U32_MAX
     \<and> (bridge_of db (d_id d) \<noteq> None \<or> d_attempts d = 0)
     \<and> (\<exists>payload. claim_payload x db (d_id d) (d_agent d) = Inr payload)"

lemma usable_update:
  assumes "\<And>d. d_id (f d) = d_id d \<and> d_event (f d) = d_event d"
  shows "unusable x (update_delivery P f db) d = unusable x db d" "deliverable x (update_delivery P f db) d = deliverable x db d"
proof -
  have "sessions (update_delivery P f db) = sessions db" by (simp add: update_delivery_def)
  then show "unusable x (update_delivery P f db) d = unusable x db d" "deliverable x (update_delivery P f db) d = deliverable x db d"
    unfolding unusable_def deliverable_def has_session_def update_delivery_fields payload_update [of f, OF assms]
    by simp_all
qed

lemma unusable_held:
  assumes "unusable x db d"
  shows "\<exists>err amb. claim_found x op tm d db = Inr (None, hold_row (d_id d) err amb db)"
proof -
  obtain sid s where s: "d_session d = Some sid" "find (\<lambda>s. s_id s = sid) (sessions db) = Some s" "\<not> U32_MAX < d_attempts d"
    using assms by (auto simp: unusable_def has_session_def)
  show ?thesis
  proof (cases "bridge_of db (d_id d) = None \<and> 0 < d_attempts d")
    case True
    with s have "claim_found x op tm d db = Inr (None, hold_row (d_id d) ''legacy_delivery_held'' True db)"
      by (simp add: claim_found_def ok_or_def Let_def)
    then show ?thesis by blast
  next
    case False
    with assms obtain m where "claim_payload x db (d_id d) (d_agent d) = Inl (Validation m)
        \<or> claim_payload x db (d_id d) (d_agent d) = Inl (Integrity m)"
      by (auto simp: unusable_def)
    with s False have "claim_found x op tm d db = Inr (None, hold_row (d_id d) ''invalid_payload'' False db)"
      by (auto simp: claim_found_def ok_or_def Let_def)
    then show ?thesis by blast
  qed
qed

lemma deliverable_leased:
  assumes wf: "outbox_wf db" and d: "d \<in> set (deliveries db)" "due tm d" and u: "deliverable x db d"
  shows "\<exists>c db'. claim_found x op tm d db = Inr (Some c, db') \<and> cl_delivery c = d_id d"
proof -
  obtain sid s payload where s: "d_session d = Some sid" "find (\<lambda>s. s_id s = sid) (sessions db) = Some s" "d_attempts d < U32_MAX"
    "claim_payload x db (d_id d) (d_agent d) = Inr payload" "\<not> (bridge_of db (d_id d) = None \<and> 0 < d_attempts d)"
    using u by (auto simp: deliverable_def has_session_def)
  obtain carrier where f: "claim_found x op tm d db = lease_found op tm d carrier s payload db"
    using s by (auto simp: claim_found_def ok_or_def Let_def)
  obtain r db' where l: "lease_found op tm d carrier s payload db = Inr (r, db')"
    using s(3) by (simp add: lease_found_def Let_def)
  from lease_found_Inr [OF l wf d] f l show ?thesis by auto
qed

lemma claim_tx_oldest:
  assumes "sort_key due_key (ready_rows db tm) = d # rest"
  shows "claim_tx x op tm db = claim_found x op tm d (update_delivery (stale_waiting db tm) (released ''expired'') db)"
    and "d \<in> set (ready_rows db tm)"
proof -
  show "claim_tx x op tm db = claim_found x op tm d (update_delivery (stale_waiting db tm) (released ''expired'') db)"
    using assms by (simp add: claim_tx_def oldest_due_def ready_after_expiry Let_def)
  have "d \<in> set (sort_key due_key (ready_rows db tm))" unfolding assms by simp
  then show "d \<in> set (ready_rows db tm)" by simp
qed

lemma ready_distinct: "outbox_wf db \<Longrightarrow> distinct (map d_id (sort_key due_key (ready_rows db tm)))"
proof -
  assume "outbox_wf db"
  then have "inj_on d_id (set (deliveries db))" "distinct (deliveries db)" by (simp_all add: outbox_wf_def distinct_map)
  moreover have "set (ready_rows db tm) \<subseteq> set (deliveries db)" by (auto simp: ready_rows_def)
  moreover have "distinct (ready_rows db tm)" using calculation(2) by (simp add: ready_rows_def)
  ultimately show ?thesis by (simp add: distinct_map inj_on_subset)
qed

text \<open>One claim holds the oldest unusable notice and leaves the others ready, in their order.\<close>

lemma claim_holds:
  assumes wf: "outbox_wf db" and q: "sort_key due_key (ready_rows db tm) = b # rest" and b: "unusable x db b"
  obtains db' where "claim_tx x op tm db = Inr (None, db')" "outbox_wf db'" "sort_key due_key (ready_rows db' tm) = rest"
    "\<And>d. unusable x db' d = unusable x db d" "\<And>d. deliverable x db' d = deliverable x db d"
proof -
  define db0 where "db0 = update_delivery (stale_waiting db tm) (released ''expired'') db"
  have u0: "unusable x db0 d = unusable x db d" "deliverable x db0 d = deliverable x db d" for d
    unfolding db0_def by (intro usable_update; simp add: released_def)+
  with b obtain err amb where f: "claim_found x op tm b db0 = Inr (None, hold_row (d_id b) err amb db0)"
    using unusable_held [of x db0 b op tm] by blast
  have tx: "claim_tx x op tm db = Inr (None, hold_row (d_id b) err amb db0)"
    using claim_tx_oldest(1) [OF q, of x op] f by (simp add: db0_def)
  have "d_id b \<notin> d_id ` set rest" using ready_distinct [OF wf, of tm] q by simp
  then have "filter (\<lambda>e. d_id e \<noteq> d_id b) (b # rest) = rest"
    by (simp add: filter_id_conv) (metis imageI)
  then have "sort_key due_key (ready_rows (hold_row (d_id b) err amb db0) tm) = rest"
    unfolding hold_ready filter_sort [symmetric] using q by (simp add: db0_def ready_after_expiry)
  moreover have "unusable x (hold_row (d_id b) err amb db0) d = unusable x db d"
    "deliverable x (hold_row (d_id b) err amb db0) d = deliverable x db d" for d
    unfolding u0 [symmetric] hold_row_def by (intro usable_update; simp add: released_def)+
  ultimately show ?thesis using that [OF tx] claim_tx_kept [OF wf tx] by blast
qed

definition claim_db :: "ext \<Rightarrow> claim_delivery \<Rightarrow> db \<Rightarrow> db" where
  "claim_db x op db = snd (claim_delivery_lease x op db)"

text \<open>
  C24 (liveness). A malformed or historical notice never blocks the queue. Suppose the notices that are due and
  ready, oldest first, begin with some that cannot be sent, each because it was attempted before without a bridge
  row or because its payload does not validate, followed by one that can. Then a dispatcher that keeps claiming
  gets no lease and no error while the unusable notices are put aside one by one, and the very next claim leases
  the good one.
\<close>

theorem claims_progress:
  assumes "outbox_wf db" "cd_at op = Finite tm" "cd_owner op \<noteq> []" "length (cd_owner op) \<le> 256"
    and "sort_key due_key (ready_rows db tm) = bad @ d # rest" and "list_all (unusable x db) bad" and "deliverable x db d"
  shows "(\<forall>k < length bad. fst (claim_delivery_lease x op ((claim_db x op ^^ k) db)) = Inr None)
    \<and> (\<exists>c. fst (claim_delivery_lease x op ((claim_db x op ^^ length bad) db)) = Inr (Some c) \<and> cl_delivery c = d_id d)"
  using assms(1,5-7)
proof (induction bad arbitrary: db)
  case Nil
  define db0 where "db0 = update_delivery (stale_waiting db tm) (released ''expired'') db"
  have claim: "claim_delivery_lease x op db = commit db (claim_tx x op tm db)"
    using assms(2-4) by (simp add: claim_delivery_lease_def)
  have q: "sort_key due_key (ready_rows db tm) = d # rest" using Nil.prems(2) by simp
  have "outbox_wf db0 \<and> outbox_kept db db0" unfolding db0_def
    by (rule update_delivery_kept [OF Nil.prems(1)]) (simp add: released_def, simp add: released_moves stale_waiting_def)
  moreover have "d \<in> set (ready_rows db0 tm)" using claim_tx_oldest(2) [OF q] by (simp add: db0_def ready_after_expiry)
  moreover have "deliverable x db0 d"
    using Nil.prems(4) usable_update(2) [of "released ''expired''"] by (simp add: db0_def released_def)
  ultimately obtain c db' where "claim_found x op tm d db0 = Inr (Some c, db')" "cl_delivery c = d_id d"
    using deliverable_leased [of db0 d tm x op] by (auto simp: ready_rows_def)
  then show ?case using claim_tx_oldest(1) [OF q, of x op] by (simp add: claim db0_def)
next
  case (Cons b bad)
  have claim: "claim_delivery_lease x op db = commit db (claim_tx x op tm db)"
    using assms(2-4) by (simp add: claim_delivery_lease_def)
  obtain db1 where db1: "claim_tx x op tm db = Inr (None, db1)" "outbox_wf db1" "sort_key due_key (ready_rows db1 tm) = bad @ d # rest"
    "\<And>d. unusable x db1 d = unusable x db d" "\<And>d. deliverable x db1 d = deliverable x db d"
    using claim_holds [OF Cons.prems(1), of tm b "bad @ d # rest" x op] Cons.prems(2,3) by auto
  have step: "(claim_db x op ^^ Suc k) db = (claim_db x op ^^ k) db1" for k
    by (simp add: funpow_Suc_right claim_db_def [of x op db] claim db1(1) del: funpow.simps)
  have "list_all (unusable x db1) bad" using Cons.prems(3) db1(4) by (simp add: list_all_iff)
  with Cons.IH [OF db1(2,3)] Cons.prems(4) db1(5)
  have ih: "(\<forall>k < length bad. fst (claim_delivery_lease x op ((claim_db x op ^^ k) db1)) = Inr None)
    \<and> (\<exists>c. fst (claim_delivery_lease x op ((claim_db x op ^^ length bad) db1)) = Inr (Some c) \<and> cl_delivery c = d_id d)"
    by simp
  have "fst (claim_delivery_lease x op ((claim_db x op ^^ k) db)) = Inr None" if "k < length (b # bad)" for k
  proof (cases k)
    case 0
    then show ?thesis by (simp add: claim db1(1))
  next
    case (Suc n)
    then show ?thesis using ih that step [of n] by simp
  qed
  with ih step [of "length bad"] show ?case by simp
qed

definition stuck_delivery :: delivery_row where
  "stuck_delivery = (sample_delivery ''pending'' 0 None)\<lparr> d_id := ''ntf_0'' \<rparr>"

definition queue_db :: db where
  "queue_db = outbox_start\<lparr> deliveries := [stuck_delivery, sample_delivery ''pending'' 0 None] \<rparr>"

lemma queue_rows:
  "deliveries queue_db = [stuck_delivery, sample_delivery ''pending'' 0 None]" "bridge_intents queue_db = []"
  "delivery_evidence queue_db = []" "sessions queue_db = sessions sample_db"
  "restart_notices queue_db = restart_notices outbox_start" "bridge_of queue_db i = None"
  by (simp_all add: queue_db_def bridge_of_def outbox_start_def)

theorem claims_progress_witness:
  "fst (claim_delivery_lease sample_ext (sample_claim 10) queue_db) = Inr None
   \<and> (\<exists>c. fst (claim_delivery_lease sample_ext (sample_claim 10) (claim_db sample_ext (sample_claim 10) queue_db)) = Inr (Some c)
        \<and> cl_delivery c = ''ntf_1'')"
proof -
  let ?d = "sample_delivery ''pending'' 0 None"
  have wf: "outbox_wf queue_db"
    by (simp add: outbox_wf_def queue_rows lease_shape_def stuck_delivery_def) (simp add: sample_delivery_def)
  have s: "has_session queue_db stuck_delivery" "has_session queue_db ?d"
    by (simp_all add: has_session_def queue_rows stuck_delivery_def sample_db_def)
  have stuck: "unusable sample_ext queue_db stuck_delivery"
    unfolding unusable_def using s(1)
    by (simp add: claim_payload_def restart_notice_of_def queue_rows outbox_start_def stuck_delivery_def ok_or_def invalid_def)
  have good: "deliverable sample_ext queue_db ?d"
    using s(2) by (simp add: deliverable_def claim_payload_def restart_notice_of_def queue_rows outbox_start_def U32_MAX_def)
  have "sort_key due_key (ready_rows queue_db 10) = [stuck_delivery, ?d]"
    by (simp add: ready_rows_def queue_rows waits_for_warning_def is_prior_notice_def due_def outbox_start_def stuck_delivery_def)
      (simp add: due_key_def sample_delivery_def)
  then have q: "sort_key due_key (ready_rows queue_db 10) = [stuck_delivery] @ ?d # []" by simp
  from claims_progress [OF wf _ _ _ q, of "sample_claim 10" sample_ext] stuck good
  show ?thesis by (simp add: sample_claim_def)
qed

end
