(* ===== verification/PoolRead.thy ===== *)
theory PoolRead
  imports Outbox PoolLog
begin

text \<open>
  Reading a pool (\<^verbatim>\<open>crates/agent-run-store/src/pool_log.rs\<close>): the derived status with every seat's vote,
  the activity word, the delivery state, one page of the log with its cursors, and the list of pools.
  Every function here only reads the store. The constant explanatory \<^verbatim>\<open>note\<close> of a status is left out.
\<close>

section \<open>Model\<close>

subsection \<open>Status\<close>

record member_view =
  mv_name :: json
  mv_role :: json
  mv_agent :: json
  mv_slot :: json
  mv_tip :: string
  mv_cleanup :: bool
  mv_vote :: "string option"
  mv_counts :: bool
  mv_why :: string
  mv_enrollment :: "json option"

record retired_view =
  tv_agent :: string
  tv_slot :: nat
  tv_name :: string
  tv_role :: string
  tv_replaced_by :: string

record pool_view =
  pv_state :: string
  pv_completed_at :: "rat option"
  pv_roster_revision :: json
  pv_goal :: json
  pv_criteria :: json
  pv_proposal :: "(json \<times> json \<times> json) option"
  pv_members :: "member_view list"
  pv_replaced :: "retired_view list"
  pv_agreed :: bool

definition retired_members :: "db \<Rightarrow> string \<Rightarrow> retired_view list" where
  "retired_members db pool =
     map (\<lambda>m. \<lparr> tv_agent = m_agent m, tv_slot = m_slot m, tv_name = m_name m, tv_role = m_role m,
                 tv_replaced_by = the (m_replaced_by m) \<rparr>)
       (sort_key (\<lambda>m. (m_slot m, m_joined_revision m))
         (filter (\<lambda>m. m_pool m = pool \<and> m_replaced_by m \<noteq> None) (members db)))"

definition frozen_member :: "json \<Rightarrow> member_view" where
  "frozen_member m =
     \<lparr> mv_name = jfield ''name'' m, mv_role = jfield ''role'' m, mv_agent = jfield ''agent_id'' m,
       mv_slot = jfield ''slot'' m, mv_tip = ''succeeded'', mv_cleanup = True, mv_vote = Some ''ready'',
       mv_counts = True, mv_why = ''valid'', mv_enrollment = None \<rparr>"

definition frozen_view :: "db \<Rightarrow> string \<Rightarrow> json \<Rightarrow> rat \<Rightarrow> pool_view" where
  "frozen_view db pool data completed_at =
     \<lparr> pv_state = ''completed'', pv_completed_at = Some completed_at, pv_roster_revision = jfield ''roster_revision'' data,
       pv_goal = jfield ''goal'' data, pv_criteria = jfield ''acceptance'' data,
       pv_proposal = Some (jfield ''seq'' (jfield ''proposal'' data), jfield ''snapshot'' (jfield ''proposal'' data),
                           jfield ''roster_revision'' data),
       pv_members = map frozen_member (case as_array (jfield ''members'' data) of Some ms \<Rightarrow> ms | None \<Rightarrow> []),
       pv_replaced = retired_members db pool, pv_agreed = True \<rparr>"

definition frozen_status :: "db \<Rightarrow> string \<Rightarrow> pool_view option res" where
  "frozen_status db pool =
     (case pool_by_id db pool of
        None \<Rightarrow> Inr None
      | Some p \<Rightarrow>
          (case Option.bind (p_completion_delivery p) (\<lambda>i.
              Option.bind (find (\<lambda>d. d_id d = i) (deliveries db)) (delivery_event db)) of
             None \<Rightarrow> Inr None
           | Some v \<Rightarrow>
               bindr (ok_or bad_column (p_completed_at p)) (\<lambda>at_time.
                 Inr (Some (frozen_view db pool (v_data v) at_time)))))"

definition seat_vote ::
    "db \<Rightarrow> pool_row \<Rightarrow> (nat \<times> string \<times> nat) option \<Rightarrow> string \<Rightarrow> string \<Rightarrow> status \<Rightarrow> string option \<times> string" where
  "seat_vote db p proposal seat_id tip st =
     (case proposal of
        None \<Rightarrow> (None, ''no_proposal'')
      | Some (current, _, proposal_roster) \<Rightarrow>
          vote_validity (latest_vote db (p_id p) seat_id current) (p_roster_revision p) proposal_roster tip st)"

definition join_pending :: "json option \<Rightarrow> bool" where
  "join_pending enrollment = (case enrollment of Some e \<Rightarrow> jfield ''state'' e \<noteq> JStr ''joined'' | None \<Rightarrow> False)"

definition seat_view ::
    "ext \<Rightarrow> db \<Rightarrow> pool_row \<Rightarrow> (nat \<times> string \<times> nat) option \<Rightarrow> member_row \<Rightarrow> member_view res" where
  "seat_view x db p proposal m =
     bindr (parse_agent x (m_agent m)) (\<lambda>seat.
     bindr (tip_of x db seat) (\<lambda>tip.
     bindr (agent_status db tip) (\<lambda>st.
       let vote = seat_vote db p proposal (m_agent m) tip st; enrollment = enrollment_view db seat;
           why = (if join_pending enrollment then ''join_pending'' else snd vote) in
       Inr \<lparr> mv_name = JStr (m_name m), mv_role = JStr (m_role m), mv_agent = JStr (m_agent m),
             mv_slot = JNum (int (m_slot m)), mv_tip = status_as_str st,
             mv_cleanup = lineage_cleanup_complete db seat, mv_vote = fst vote, mv_counts = (why = ''valid''),
             mv_why = why, mv_enrollment = enrollment \<rparr>)))"

definition live_status :: "ext \<Rightarrow> db \<Rightarrow> pool_row \<Rightarrow> pool_view res" where
  "live_status x db p =
     (let proposal = current_proposal db (p_id p) in
      bindr (criteria_of (p_acceptance p)) (\<lambda>criteria.
      bindr (mapr (seat_view x db p proposal) (seats_by_slot db (p_id p))) (\<lambda>ms.
        Inr \<lparr> pv_state = pool_state_as_str (p_state p), pv_completed_at = None,
              pv_roster_revision = JNum (int (p_roster_revision p)), pv_goal = JStr (p_goal p),
              pv_criteria = JArr (map (\<lambda>(i, t). JObj [(''id'', JStr i), (''text'', JStr t)]) criteria),
              pv_proposal = map_option (\<lambda>(q, s, r). (JNum (int q), JStr s, JNum (int r))) proposal,
              pv_members = ms, pv_replaced = retired_members db (p_id p),
              pv_agreed = (proposal \<noteq> None \<and> list_all (\<lambda>m. mv_why m = ''valid'') ms) \<rparr>)))"

definition pool_status :: "ext \<Rightarrow> db \<Rightarrow> string \<Rightarrow> pool_view res" where
  "pool_status x db pool =
     bindr (ok_or no_rows (pool_by_id db pool)) (\<lambda>p.
     bindr (if p_state p = CompletedPool then frozen_status db pool else Inr None) (\<lambda>frozen.
       case frozen of Some f \<Rightarrow> Inr f | None \<Rightarrow> live_status x db p))"

definition needs_action :: "member_view \<Rightarrow> bool" where
  "needs_action m = (case mv_enrollment m of Some e \<Rightarrow> jfield ''state'' e = JStr ''needs_action'' | None \<Rightarrow> False)"

definition pool_activity :: "pool_view \<Rightarrow> string" where
  "pool_activity v =
     (let ms = pv_members v; tips = map (\<lambda>m. case status_from_str (mv_tip m) of Inr s \<Rightarrow> Some s | Inl _ \<Rightarrow> None) ms in
      if list_ex needs_action ms then ''needs_action''
      else if pv_state v = ''completed'' then ''completed''
      else if ms = [] then ''needs_action''
      else if list_ex (\<lambda>t. case t of Some s \<Rightarrow> \<not> terminal s | None \<Rightarrow> True) tips then ''running''
      else if list_ex (\<lambda>m. \<not> mv_cleanup m) ms then ''stopping''
      else if list_all (\<lambda>t. t = Some Cancelled) tips then ''cancelled''
      else if list_all (\<lambda>t. t = Some Succeeded) tips \<and> pv_agreed v then ''settling''
      else ''needs_action'')"

subsection \<open>The delivery of the common notice\<close>

definition delivery_states :: "string list" where
  "delivery_states = [''waiting_binding'', ''pending'', ''sending'', ''delivered'', ''retry_wait'', ''failed'', ''cancelled'',
     ''expired'', ''custody_accepted'', ''outcome_unknown'']"

definition classifiers :: "string list" where
  "classifiers = [''relay_accepted'', ''relay_rejected'', ''relay_ambiguous'', ''relay_unavailable'', ''uds_receipt_held'',
     ''uds_receipt_delivered'', ''uds_receipt_refused'', ''uds_unconfirmed'', ''uds_ambiguous'', ''uds_session_gone'',
     ''uds_rejected'', ''uds_unavailable'', ''unsupported_transport'', ''bridge_custody_accepted'',
     ''bridge_outcome_unknown'', ''bridge_unconfigured'', ''bridge_unavailable'', ''bridge_forbidden'',
     ''bridge_unsupported'', ''bridge_invalid'', ''bridge_refused'', ''bridge_owner_changed'', ''legacy_delivery_held'']"

record delivery_view =
  dv_bound :: bool
  dv_state :: string
  dv_attempts :: nat
  dv_ambiguous :: bool
  dv_last_classification :: "string option"
  dv_last_attempt :: "json option"

definition known_evidence :: "json option \<Rightarrow> json option" where
  "known_evidence attempt =
     (case attempt of
        Some e \<Rightarrow> (case as_str (jfield ''classifier'' e) of
            Some c \<Rightarrow> if c \<in> set classifiers then Some e else None | None \<Rightarrow> None)
      | None \<Rightarrow> None)"

definition last_classification :: "string option \<Rightarrow> json option \<Rightarrow> string option" where
  "last_classification last_error evidence =
     (if last_error = Some ''legacy_delivery_held'' then last_error
      else case Option.bind evidence (\<lambda>e. as_str (jfield ''classifier'' e)) of
        Some c \<Rightarrow> Some c
      | None \<Rightarrow> (case last_error of Some c \<Rightarrow> if c \<in> set classifiers then Some c else None | None \<Rightarrow> None))"

definition pool_delivery_view :: "ext \<Rightarrow> db \<Rightarrow> string \<Rightarrow> delivery_view res" where
  "pool_delivery_view x db pool =
     bindr (ok_or no_rows (pool_by_id db pool)) (\<lambda>p.
     case p_completion_delivery p of
       None \<Rightarrow> Inr \<lparr> dv_bound = (p_session p \<noteq> None), dv_state = ''not_created'', dv_attempts = 0,
                    dv_ambiguous = False, dv_last_classification = None, dv_last_attempt = None \<rparr>
     | Some i \<Rightarrow>
         bindr (ok_or (Integrity ''pool completion delivery is missing'')
             (find (\<lambda>d. d_id d = i) (deliveries db))) (\<lambda>d.
         if U32_MAX < d_attempts d then Inl bad_column
         else
         let state = public_state_on db i (d_state d) in
         bindr (latest_on x db i) (\<lambda>attempt.
         let evidence = known_evidence attempt in
         Inr \<lparr> dv_bound = (d_session d \<noteq> None),
               dv_state = (if state \<in> set delivery_states then state else ''unknown''),
               dv_attempts = d_attempts d, dv_ambiguous = d_ambiguous d,
               dv_last_classification = last_classification (d_last_error d) evidence, dv_last_attempt = evidence \<rparr>)))"

subsection \<open>Pages of the log\<close>

definition i64_of_u64 :: "nat \<Rightarrow> int" where
  "i64_of_u64 n = (let k = int n mod 2 ^ 64 in if k < 2 ^ 63 then k else k - 2 ^ 64)"

record page =
  pg_pool :: string
  pg_log_revision :: nat
  pg_entries :: "pool_entry_view list"
  pg_after :: nat
  pg_before :: "nat option"
  pg_limit :: nat
  pg_next_cursor :: "nat option"
  pg_last_seq :: "nat option"
  pg_complete :: bool
  pg_activity :: string
  pg_status :: pool_view
  pg_delivery :: delivery_view
  pg_enrollment :: "(string \<times> string) option"

definition page_rows :: "db \<Rightarrow> string \<Rightarrow> nat \<Rightarrow> nat option \<Rightarrow> entry_row list" where
  "page_rows db pool after before =
     (let lg = sort_key e_seq (pool_entries db pool) in
      case before of
        Some b \<Rightarrow> rev (filter (\<lambda>e. int (e_seq e) < i64_of_u64 b) lg)
      | None \<Rightarrow> filter (\<lambda>e. i64_of_u64 after < int (e_seq e)) lg)"

definition first_seq :: "pool_entry_view list \<Rightarrow> nat option" where
  "first_seq es = (case es of [] \<Rightarrow> None | e # _ \<Rightarrow> Some (ev_seq e))"

definition last_seq :: "pool_entry_view list \<Rightarrow> nat option" where
  "last_seq es = (if es = [] then None else Some (ev_seq (last es)))"

fun validate_entries :: "pool_entry_view list \<Rightarrow> unit res" where
  "validate_entries [] = Inr ()"
| "validate_entries (e # es) =
     (case validate_entry e of
        Inl err \<Rightarrow> Inl (Integrity (''pool entry is invalid: '' @ display err))
      | Inr _ \<Rightarrow> validate_entries es)"

definition log_revision :: "db \<Rightarrow> string \<Rightarrow> nat" where
  "log_revision db pool = (case max_row e_seq (pool_entries db pool) of Some e \<Rightarrow> e_seq e | None \<Rightarrow> 0)"

definition read_page :: "ext \<Rightarrow> db \<Rightarrow> string \<Rightarrow> nat \<Rightarrow> nat option \<Rightarrow> nat \<Rightarrow> page res" where
  "read_page x db pool after before limit =
     bindr (pool_status x db pool) (\<lambda>status.
     bindr (pool_delivery_view x db pool) (\<lambda>delivery.
     bindr (mapr (entry_view x) (take (limit + 1) (page_rows db pool after before))) (\<lambda>rows.
     let complete = length rows \<le> limit;
         es = (if before \<noteq> None then rev (take limit rows) else take limit rows) in
     bindr (validate_entries es) (\<lambda>_.
       Inr \<lparr> pg_pool = pool, pg_log_revision = log_revision db pool, pg_entries = es, pg_after = after,
             pg_before = before, pg_limit = limit,
             pg_next_cursor = (if complete then None else if before \<noteq> None then first_seq es else last_seq es),
             pg_last_seq = last_seq es, pg_complete = complete, pg_activity = pool_activity status,
             pg_status = status, pg_delivery = delivery, pg_enrollment = None \<rparr>))))"

definition pool_read ::
    "ext \<Rightarrow> db \<Rightarrow> string \<Rightarrow> string \<Rightarrow> string \<Rightarrow> nat \<Rightarrow> nat option \<Rightarrow> nat \<Rightarrow> (pool_denial + page) res" where
  "pool_read x db run attempt token after before limit =
     bindr (authenticated_member x db run attempt token) (\<lambda>r.
     case r of
       Inl _ \<Rightarrow> Inr (Inl NotPoolMemberRead)
     | Inr m \<Rightarrow>
         bindr (read_page x db (mb_pool_id m) after before limit) (\<lambda>pg.
         Inr (Inr (pg\<lparr> pg_enrollment := map_option (\<lambda>j. (enrollment_as_str (j_state j), j_challenge j))
           (find (\<lambda>j. j_agent j = mb_seat_agent_id m \<and> j_run j = run \<and> j_attempt j = attempt) (enrollments db)) \<rparr>))))"

definition pool_operator_read ::
    "ext \<Rightarrow> db \<Rightarrow> string \<Rightarrow> nat \<Rightarrow> nat option \<Rightarrow> nat \<Rightarrow> (pool_denial + page) res" where
  "pool_operator_read x db pool after before limit =
     (if \<not> pool_exists db pool then Inr (Inl PoolNotFound)
      else bindr (read_page x db pool after before limit) (\<lambda>pg. Inr (Inr pg)))"

subsection \<open>The list of pools\<close>

record pool_list_member =
  lm_slot :: nat
  lm_name :: string
  lm_role :: string
  lm_agent :: string
  lm_tip :: status

record pool_list_item =
  li_pool :: string
  li_state :: string
  li_goal :: string
  li_goal_truncated :: bool
  li_created_at :: rat
  li_completed_at :: "rat option"
  li_last_seq :: nat
  li_roster_revision :: nat
  li_members_count :: nat
  li_ready :: nat
  li_proposal_seq :: "int option"
  li_members :: "pool_list_member list"

record pool_list =
  ls_items :: "pool_list_item list"
  ls_total :: nat
  ls_offset :: nat
  ls_limit :: nat
  ls_next_offset :: "nat option"
  ls_complete :: bool

definition pools_in :: "db \<Rightarrow> pool_state option \<Rightarrow> pool_row list" where
  "pools_in db state = filter (\<lambda>p. state = None \<or> state = Some (p_state p)) (pools db)"

definition pools_newest :: "db \<Rightarrow> pool_state option \<Rightarrow> pool_row list" where
  "pools_newest db state = rev (sort_key (\<lambda>p. (p_created_at p, p_id p)) (pools_in db state))"

text \<open>A document that does not decode into its view; the message of the JSON library is not modelled.\<close>

definition bad_document :: error where
  "bad_document = Json ''invalid document''"

definition list_member :: "ext \<Rightarrow> member_view \<Rightarrow> pool_list_member res" where
  "list_member x m =
     (case (mv_slot m, mv_name m, mv_role m, mv_agent m) of
        (JNum slot, JStr name, JStr role, JStr agent) \<Rightarrow>
          (case (parse_agent x agent, status_from_str (mv_tip m)) of
             (Inr i, Inr tip) \<Rightarrow>
               if 0 \<le> slot \<and> slot < 256
               then Inr \<lparr> lm_slot = nat slot, lm_name = name, lm_role = role, lm_agent = i, lm_tip = tip \<rparr>
               else Inl bad_document
           | _ \<Rightarrow> Inl bad_document)
      | _ \<Rightarrow> Inl bad_document)"

definition as_u32 :: "json \<Rightarrow> nat res" where
  "as_u32 v = (case v of JNum n \<Rightarrow> if 0 \<le> n \<and> n \<le> int U32_MAX then Inr (nat n) else Inl bad_document | _ \<Rightarrow> Inl bad_document)"

definition list_item :: "ext \<Rightarrow> db \<Rightarrow> pool_row \<Rightarrow> pool_list_item res" where
  "list_item x db p =
     bindr (pool_status x db (p_id p)) (\<lambda>st.
     bindr (mapr (list_member x) (pv_members st)) (\<lambda>ms.
     bindr (ok_or (Integrity ''pool goal is malformed'') (as_str (pv_goal st))) (\<lambda>goal.
     bindr (parse_pool x (p_id p)) (\<lambda>i.
     bindr (as_u32 (pv_roster_revision st)) (\<lambda>revision.
       Inr \<lparr> li_pool = i, li_state = pv_state st, li_goal = cut_str goal 512,
             li_goal_truncated = (length (cut_str goal 512) < length goal), li_created_at = p_created_at p,
             li_completed_at = p_completed_at p, li_last_seq = log_revision db (p_id p),
             li_roster_revision = revision, li_members_count = length ms,
             li_ready = length (filter mv_counts (pv_members st)),
             li_proposal_seq = (case pv_proposal st of Some (q, _, _) \<Rightarrow> as_u64 q | None \<Rightarrow> None),
             li_members = ms \<rparr>)))))"

definition list_pools :: "ext \<Rightarrow> db \<Rightarrow> list_pools_query \<Rightarrow> pool_list res" where
  "list_pools x db q =
     bindr (validate_list_pools q) (\<lambda>_.
     let total_rows = length (pools_in db (lq_state q)) in
     bindr (mapr (list_item x db) (take (lq_limit q) (drop (lq_offset q) (pools_newest db (lq_state q))))) (\<lambda>items.
     let next_row = lq_offset q + length items in
       Inr \<lparr> ls_items = items, ls_total = total_rows, ls_offset = lq_offset q, ls_limit = lq_limit q,
             ls_next_offset = (if next_row < total_rows then Some next_row else None),
             ls_complete = (total_rows \<le> next_row) \<rparr>))"

end
