(* ===== verification/PoolReadFacts.thy ===== *)
theory PoolReadFacts
  imports PoolRead PoolCompletion
begin

text \<open>
  What a reader of a pool can rely on: following the cursors of forward pages reads the log without a gap or
  a repetition while members keep writing, and the activity word shows every pool that settlement completes.
\<close>

section \<open>Forward pages\<close>

lemma log_sorted:
  assumes "log_wf db"
  shows "sorted_wrt (<) (map e_seq (pool_entries db pool))"
  using assms unfolding log_wf_def pool_entries_def by (simp add: sorted_wrt_map sorted_wrt_filter)

lemma log_order:
  assumes "log_wf db"
  shows "sort_key e_seq (pool_entries db pool) = pool_entries db pool"
proof (rule sort_key_id_if_sorted)
  show "sorted (map e_seq (pool_entries db pool))"
    using log_sorted [OF assms, of pool] by (simp add: strict_sorted_iff)
qed

definition newer :: "nat \<Rightarrow> entry_row list \<Rightarrow> entry_row list" where
  "newer c lg = filter (\<lambda>e. c < e_seq e) lg"

lemma forward_rows:
  assumes "log_wf db" "c < 2 ^ 63"
  shows "page_rows db pool c None = newer c (pool_entries db pool)"
proof -
  have "i64_of_u64 c = int c" using assms(2) by (simp add: i64_of_u64_def)
  then show ?thesis by (simp add: page_rows_def log_order [OF assms(1)] newer_def)
qed

lemma mapr_take: "mapr f xs = Inr ys \<Longrightarrow> mapr f (take n xs) = Inr (take n ys)"
  by (simp add: mapr_Inr_list_all2 list_all2_takeI)

lemma mapr_append: "mapr f xs = Inr us \<Longrightarrow> mapr f ys = Inr vs \<Longrightarrow> mapr f (xs @ ys) = Inr (us @ vs)"
  by (simp add: mapr_Inr_list_all2 list_all2_appendI)

lemma list_all2_last: "list_all2 P xs ys \<Longrightarrow> xs \<noteq> [] \<Longrightarrow> P (last xs) (last ys)"
  by (induction rule: list_all2_induct) auto

lemma entry_view_seq: "entry_view x e = Inr v \<Longrightarrow> ev_seq v = e_seq e"
  by (auto simp: entry_view_def)

lemma page_forward:
  assumes "log_wf db" "c < 2 ^ 63" "1 \<le> limit" "read_page x db pool c None limit = Inr pg"
  defines "rows \<equiv> newer c (pool_entries db pool)"
  shows "mapr (entry_view x) (take limit rows) = Inr (pg_entries pg)
    \<and> pg_next_cursor pg = (if length rows \<le> limit then None else Some (e_seq (last (take limit rows))))"
proof -
  from assms(4) obtain vs where vs: "mapr (entry_view x) (take (limit + 1) rows) = Inr vs"
    and pg: "pg_entries pg = take limit vs"
      "pg_next_cursor pg = (if length vs \<le> limit then None else last_seq (take limit vs))"
    unfolding read_page_def forward_rows [OF assms(1,2)] rows_def by (auto simp: Let_def)
  have len: "length vs = min (limit + 1) (length rows)" using mapr_length [OF vs] by simp
  have es: "mapr (entry_view x) (take limit rows) = Inr (take limit vs)"
    using mapr_take [OF vs, of limit] by (simp add: min_def)
  have "last_seq (take limit vs) = Some (e_seq (last (take limit rows)))" if "limit < length rows"
  proof -
    have "list_all2 (\<lambda>e v. entry_view x e = Inr v) (take limit rows) (take limit vs)"
      using es by (simp add: mapr_Inr_list_all2)
    moreover have ne: "take limit vs \<noteq> []" "take limit rows \<noteq> []" using that len assms(3) by auto
    ultimately have "entry_view x (last (take limit rows)) = Inr (last (take limit vs))"
      using list_all2_last by blast
    then show ?thesis using ne by (simp add: last_seq_def entry_view_seq)
  qed
  then show ?thesis using es pg len by auto
qed

text \<open>A reader that follows the cursor of each page into a later snapshot of the store.\<close>

fun follow :: "ext \<Rightarrow> string \<Rightarrow> nat \<Rightarrow> db list \<Rightarrow> nat \<Rightarrow> (pool_entry_view list \<times> bool) res" where
  "follow x pool limit [] c = Inr ([], False)"
| "follow x pool limit (db # dbs) c =
     bindr (read_page x db pool c None limit) (\<lambda>pg.
     case pg_next_cursor pg of
       None \<Rightarrow> Inr (pg_entries pg, True)
     | Some c' \<Rightarrow> bindr (follow x pool limit dbs c') (\<lambda>(es, b). Inr (pg_entries pg @ es, b)))"

lemma newer_prefix: "prefix l l' \<Longrightarrow> prefix (newer c l) (newer c l')"
  by (auto simp: newer_def prefix_def)

lemma newer_after:
  assumes "sorted_wrt (<) (map e_seq lg)" "0 < n" "n \<le> length (newer c lg)"
  shows "newer (e_seq (last (take n (newer c lg)))) lg = drop n (newer c lg)"
proof -
  let ?r = "newer c lg"
  have sr: "sorted_wrt (<) (map e_seq ?r)" using assms(1) by (simp add: newer_def sorted_wrt_map sorted_wrt_filter)
  have l: "last (take n ?r) = ?r ! (n - 1)" 
    using assms(2,3) by (subst last_conv_nth) (auto simp: min_absorb2)
  define q where "q = e_seq (?r ! (n - 1))"
  have "?r ! (n - 1) \<in> set ?r" using assms(2,3) by (intro nth_mem) simp
  then have "c < q" by (simp add: newer_def q_def)
  then have "newer q lg = newer q ?r" by (auto simp: newer_def intro: filter_cong)
  moreover have "newer q (take n ?r) = []"
  proof -
    have "e_seq (?r ! i) \<le> q" if "i < n" for i
      using sr that assms(3) unfolding q_def sorted_wrt_iff_nth_less
      by (cases "i = n - 1") (auto intro!: less_imp_le)
    then show ?thesis using assms(3) by (auto simp: newer_def filter_empty_conv in_set_conv_nth not_less)
  qed
  moreover have "newer q (drop n ?r) = drop n ?r"
  proof -
    have "q < e_seq e" if "e \<in> set (drop n ?r)" for e
    proof -
      from that obtain i where "i < length ?r - n" "e = ?r ! (n + i)" by (auto simp: in_set_conv_nth)
      then show ?thesis using sr assms(2) unfolding q_def sorted_wrt_iff_nth_less by simp
    qed
    then show ?thesis by (simp add: newer_def)
  qed
  ultimately show ?thesis unfolding l q_def [symmetric]
    by (metis append_Nil append_take_drop_id filter_append newer_def)
qed

lemma prefix_take: "prefix xs ys \<Longrightarrow> n \<le> length xs \<Longrightarrow> take n xs = take n ys"
  by (auto simp: prefix_def)

lemma newer_shorter:
  assumes "sorted_wrt (<) (map e_seq lg)" "prefix (newer c lg) r" "0 < n" "n \<le> length r"
  shows "length (newer c lg) \<le> n + length (newer (e_seq (last (take n r))) lg)"
proof (cases "length (newer c lg) \<le> n")
  case False
  then have "take n (newer c lg) = take n r" using prefix_take [OF assms(2)] by simp
  then have "newer (e_seq (last (take n r))) lg = drop n (newer c lg)"
    using newer_after [OF assms(1,3), of c] False by simp
  then show ?thesis by simp
qed simp

lemma follow_reads:
  assumes fin: "log_wf fin" "\<forall>e \<in> set (pool_entries fin pool). e_seq e < 2 ^ 63"
    and snap: "\<forall>db \<in> set dbs. log_wf db \<and> prefix (pool_entries db pool) (pool_entries fin pool)"
    and "1 \<le> limit" "c < 2 ^ 63" "follow x pool limit dbs c = Inr (es, b)"
  shows "\<exists>n \<le> length (newer c (pool_entries fin pool)).
    mapr (entry_view x) (take n (newer c (pool_entries fin pool))) = Inr es
    \<and> (b \<longrightarrow> (\<exists>db \<in> set dbs. length (newer c (pool_entries db pool)) \<le> n))
    \<and> (\<not> b \<longrightarrow> n = limit * length dbs)"
  using snap assms(5,6)
proof (induction dbs arbitrary: c es)
  case (Cons db dbs)
  define r where "r = newer c (pool_entries fin pool)"
  define rows where "rows = newer c (pool_entries db pool)"
  have wf: "log_wf db" and pre: "prefix rows r" using Cons.prems(1) by (simp_all add: rows_def r_def newer_prefix)
  from Cons.prems(3) obtain pg where pg: "read_page x db pool c None limit = Inr pg"
    and rest: "(case pg_next_cursor pg of None \<Rightarrow> Inr (pg_entries pg, True)
      | Some c' \<Rightarrow> bindr (follow x pool limit dbs c') (\<lambda>(es, b). Inr (pg_entries pg @ es, b))) = Inr (es, b)"
    by auto
  note page = page_forward [OF wf Cons.prems(2) assms(4) pg, folded rows_def]
  show ?case
  proof (cases "length rows \<le> limit")
    case True
    have "take (length rows) r = rows" using pre by (auto simp: prefix_def)
    then have "mapr (entry_view x) (take (length rows) r) = Inr es" "b" using True page rest by simp_all
    moreover have "length rows \<le> length r" using pre by (rule prefix_length_le)
    ultimately show ?thesis unfolding r_def [symmetric] rows_def by auto
  next
    case False
    have len: "limit \<le> length r" using False prefix_length_le [OF pre] by simp
    define c' where "c' = e_seq (last (take limit r))"
    have cut: "take limit rows = take limit r" using prefix_take [OF pre] False by simp
    have next_c: "pg_next_cursor pg = Some c'" and first_es: "mapr (entry_view x) (take limit r) = Inr (pg_entries pg)"
      using page False by (simp_all add: cut c'_def)
    from rest next_c obtain es' where es': "follow x pool limit dbs c' = Inr (es', b)" "es = pg_entries pg @ es'" by auto
    have "last (take limit r) \<in> set (take limit r)" using len assms(4) by (intro last_in_set) auto
    then have "last (take limit r) \<in> set (pool_entries fin pool)"
      by (auto simp: r_def newer_def dest!: in_set_takeD)
    then have "c' < 2 ^ 63" using fin(2) by (simp add: c'_def)
    then obtain n where n: "n \<le> length (newer c' (pool_entries fin pool))"
        "mapr (entry_view x) (take n (newer c' (pool_entries fin pool))) = Inr es'"
        "b \<longrightarrow> (\<exists>db \<in> set dbs. length (newer c' (pool_entries db pool)) \<le> n)" "\<not> b \<longrightarrow> n = limit * length dbs"
      using Cons.IH [OF _ _ es'(1)] Cons.prems(1) by auto
    have later: "newer c' (pool_entries fin pool) = drop limit r"
      unfolding c'_def r_def using newer_after [OF log_sorted [OF fin(1)]] assms(4) len by (simp add: r_def)
    have "mapr (entry_view x) (take (limit + n) r) = Inr es"
      using mapr_append [OF first_es] n(2) by (simp add: later take_add es'(2))
    moreover have "limit + n \<le> length r" using n(1) len by (simp add: later)
    moreover have "\<exists>db \<in> set dbs. length (newer c (pool_entries db pool)) \<le> limit + n" if b
    proof -
      from n(3) that obtain d where d: "d \<in> set dbs" "length (newer c' (pool_entries d pool)) \<le> n" by blast
      have "length (newer c (pool_entries d pool)) \<le> limit + length (newer c' (pool_entries d pool))"
        unfolding c'_def using Cons.prems(1) d(1) assms(4) len
        by (intro newer_shorter log_sorted) (auto simp: r_def newer_prefix)
      then show ?thesis using d by (intro bexI [of _ d]) simp_all
    qed
    ultimately show ?thesis unfolding r_def [symmetric] using n(4) by (intro exI [of _ "limit + n"]) auto
  qed
qed auto

text \<open>
  C22 (functional). A reader that follows the cursors of forward pages, each from a later snapshot of the store,
  gets exactly the first entries of the log, in order, with none missing and none twice, however many entries
  members add meanwhile; when it reaches a complete page it has at least everything the log held when it
  began, and it gets there once the pages read outnumber the log.
\<close>

theorem paging_exact:
  assumes "log_wf fin" "\<forall>e \<in> set (pool_entries fin pool). e_seq e < 2 ^ 63"
    and "\<forall>db \<in> set dbs. log_wf db \<and> prefix (pool_entries start pool) (pool_entries db pool)
          \<and> prefix (pool_entries db pool) (pool_entries fin pool)"
    and "1 \<le> limit" "follow x pool limit dbs 0 = Inr (es, finished)"
  shows "mapr (entry_view x) (take (length es) (pool_entries fin pool)) = Inr es
    \<and> (finished \<longrightarrow> length (pool_entries start pool) \<le> length es)
    \<and> (length (pool_entries fin pool) < limit * length dbs \<longrightarrow> finished)"
proof -
  have all: "newer 0 (pool_entries db pool) = pool_entries db pool" if "log_wf db" for db
  proof -
    have "\<forall>e \<in> set (pool_entries db pool). 0 < e_seq e" using that by (fastforce simp: log_wf_def pool_entries_def)
    then show ?thesis by (simp add: newer_def)
  qed
  have "\<forall>db \<in> set dbs. log_wf db \<and> prefix (pool_entries db pool) (pool_entries fin pool)" using assms(3) by blast
  from follow_reads [OF assms(1,2) this assms(4) _ assms(5)] obtain n where n: "n \<le> length (pool_entries fin pool)"
      "mapr (entry_view x) (take n (pool_entries fin pool)) = Inr es"
      "finished \<longrightarrow> (\<exists>db \<in> set dbs. length (newer 0 (pool_entries db pool)) \<le> n)"
      "\<not> finished \<longrightarrow> n = limit * length dbs" by (auto simp: all [OF assms(1)])
  have "length es = n" using mapr_length [OF n(2)] n(1) by simp
  moreover have "length (pool_entries start pool) \<le> n" if finished
    using n(3) that assms(3) all by (metis order.trans prefix_length_le)
  ultimately show ?thesis using n by (cases finished) auto
qed

section \<open>The activity of a finished team\<close>

lemma done_seat_view:
  assumes "log_wf db" "seat_done db (p_id p) criteria proposal (m_agent m)"
    and "seat_view x db p (Some (proposal, snapshot, p_roster_revision p)) m = Inr v"
  shows "mv_tip v = ''succeeded'' \<and> mv_cleanup v \<and> mv_why v = ''valid'' \<and> \<not> needs_action v"
proof -
  from assms(2) obtain tip e where en: "\<forall>j. enrollment_of db (m_agent m) = Some j \<longrightarrow> j_state j = EnrollJoined"
    and tip: "tip_row db (m_agent m) = Some tip" "agent_status db (a_id tip) = Inr Succeeded"
    and e: "latest_vote_row db (p_id p) (m_agent m) proposal = Some e" "ready_vote criteria (a_id tip) e"
    and clean: "lineage_cleanup_complete db (m_agent m)"
    unfolding seat_done_def lineage_cleanup_iff [symmetric] by blast
  from assms(3) obtain seat i where i: "parse_agent x (m_agent m) = Inr seat" "tip_of x db seat = Inr i"
    by (auto simp: seat_view_def)
  have seat: "seat = m_agent m" using parse_agent_same [OF i(1)] .
  have "i = a_id tip" using i(2) tip(1) parse_agent_same by (auto simp: tip_of_def seat)
  moreover have "snd (seat_vote db p (Some (proposal, snapshot, p_roster_revision p)) (m_agent m) (a_id tip) Succeeded) = ''valid''"
    using vote_ready_iff [OF assms(1) e(1), THEN iffD2, OF e(2)] by (simp add: seat_vote_def)
  moreover have "\<not> join_pending (enrollment_view db (m_agent m))"
    "enrollment_view db (m_agent m) = Some d \<Longrightarrow> jfield ''state'' d = JStr ''joined''" for d
    using en by (auto simp: join_pending_def enrollment_view_def split: option.splits)
  ultimately show ?thesis
    using assms(3) i tip(2) clean by (auto simp: seat_view_def seat Let_def needs_action_def split: option.split)
qed

text \<open>
  C23 (functional). The activity word never lags behind settlement: whenever the settlement specification holds
  for an open pool and its status can be read, the status is agreed and the activity is \<^verbatim>\<open>settling\<close>. The word may
  also be shown before every condition of settlement holds.
\<close>

theorem settling_shown:
  assumes "log_wf db" "pool_by_id db pool = Some p" "p_state p = OpenPool" "team_done db p"
    and "pool_status x db pool = Inr st"
  shows "pv_agreed st \<and> pool_activity st = ''settling''"
proof -
  from assms(4) obtain proposal snapshot criteria where
    cur: "current_proposal db (p_id p) = Some (proposal, snapshot, p_roster_revision p)"
    and two: "2 \<le> length (current_seats db (p_id p))"
    and seats: "\<forall>m \<in> set (current_seats db (p_id p)). seat_done db (p_id p) criteria proposal (m_agent m)"
    unfolding team_done_def by blast
  from assms(2,3,5) obtain ms where
    ms: "mapr (seat_view x db p (Some (proposal, snapshot, p_roster_revision p))) (seats_by_slot db (p_id p)) = Inr ms"
    and st: "pv_members st = ms" "pv_state st = ''open''" "pv_agreed st = list_all (\<lambda>m. mv_why m = ''valid'') ms"
    by (auto simp: pool_status_def live_status_def Let_def cur)
  have each: "mv_tip v = ''succeeded'' \<and> mv_cleanup v \<and> mv_why v = ''valid'' \<and> \<not> needs_action v" if "v \<in> set ms" for v
    using mapr_Inr_image [OF ms that] seats done_seat_view [OF assms(1)] by fastforce
  have "ms \<noteq> []" using mapr_length [OF ms] two by auto
  moreover have "map (\<lambda>m. case status_from_str (mv_tip m) of Inr s \<Rightarrow> Some s | Inl _ \<Rightarrow> None) ms = map (\<lambda>_. Some Succeeded) ms"
    using each by (auto simp: status_from_str_def all_statuses_def)
  moreover have "list_all (\<lambda>m. mv_why m = ''valid'') ms" "\<not> list_ex needs_action ms" "\<not> list_ex (\<lambda>m. \<not> mv_cleanup m) ms"
    using each by (simp_all add: list_all_iff list_ex_iff)
  ultimately show ?thesis by (cases ms) (simp_all add: pool_activity_def st Let_def list_all_iff list_ex_iff)
qed

lemma done_status: "\<exists>st. pool_status sample_ext done_db sample_pool = Inr st"
proof -
  have "seats_by_slot done_db sample_pool = [sample_member ag_a 0, sample_member ag_b 1]"
    using sample_seats [of done_db] by (simp add: seats_by_slot_def sample_member_def)
  then show ?thesis
    by (simp add: pool_status_def done_found live_status_def Let_def done_votes seat_view_def sample_member_def
        tip_of_def done_tips)
qed

theorem settling_shown_witness:
  "\<exists>st. pool_status sample_ext done_db sample_pool = Inr st \<and> pool_activity st = ''settling''"
proof -
  from done_status obtain st where st: "pool_status sample_ext done_db sample_pool = Inr st" by blast
  from settling_shown [OF done_log done_found _ done_team st] st show ?thesis by simp
qed

subsection \<open>Reading the sample log\<close>

lemma done_view:
  assumes "m \<in> {ag_a, ag_b}" "k \<in> {ProposalEntry, VoteEntry}"
  shows "\<exists>v. entry_view sample_ext (done_entry (Suc n) m k) = Inr v \<and> validate_entry v = Inr () \<and> ev_seq v = Suc n"
proof -
  have "is_ascii m" "length m = 29" "hd m = CHR ''a''" "nul \<notin> set m"
    using assms(1) by (auto simp: ag_a_def ag_b_def is_ascii_def nul_def)
  moreover from this have "trim m \<noteq> []"
    using trim_chars_blank [of "chars m"] chars_trim [of m] by (cases m) (auto simp: chars_ascii is_whitespace_def simp del: chars_trim)
  ultimately have "external_id ''author_agent_id'' m = Inr ()" by (simp add: external_id_def nonblank_def chars_ascii)
  moreover have "display_name ''n'' = Inr ''n''" "display_name ''r'' = Inr ''r''"
    by (simp_all add: display_name_def MAX_DISPLAY_NAME_CHARS_def is_unsafe_label_char_def nul_def text_eval)
  moreover have "bounded_text ''body'' ''b'' MAX_BODY_BYTES = Inr ()"
    by (simp add: bounded_text_def MAX_BODY_BYTES_def text_eval)
  moreover have "parse_agent sample_ext m = Inr m" using assms(1) by auto
  ultimately show ?thesis
    using assms(2) by (auto simp: entry_view_def done_entry_def column_id_def validate_entry_def entry_shape_ok_def Let_def)
qed

lemma done_pages: "\<exists>es. follow sample_ext sample_pool 2 [done_db, done_db] 0 = Inr (es, True) \<and> length es = 3"
proof -
  obtain v1 v2 v3 where v: "entry_view sample_ext (done_entry 1 ag_a ProposalEntry) = Inr v1"
      "entry_view sample_ext (done_entry 2 ag_a VoteEntry) = Inr v2"
      "entry_view sample_ext (done_entry 3 ag_b VoteEntry) = Inr v3"
    and ok: "validate_entry v1 = Inr ()" "validate_entry v2 = Inr ()" "validate_entry v3 = Inr ()" "ev_seq v2 = 2"
    using done_view [of ag_a ProposalEntry 0] done_view [of ag_a VoteEntry 1] done_view [of ag_b VoteEntry 2]
    by (auto simp: numeral_2_eq_2 numeral_3_eq_3)
  have d: "\<exists>dv. pool_delivery_view sample_ext done_db sample_pool = Inr dv"
    by (simp add: pool_delivery_view_def done_found) (simp add: done_pool_def sample_db_def)
  from done_status obtain st where st: "pool_status sample_ext done_db sample_pool = Inr st" by blast
  from d obtain dv where dv: "pool_delivery_view sample_ext done_db sample_pool = Inr dv" by blast
  have rows: "pool_entries done_db sample_pool =
      [done_entry 1 ag_a ProposalEntry, done_entry 2 ag_a VoteEntry, done_entry 3 ag_b VoteEntry]"
    by (simp add: pool_entries_def done_db_def) (simp add: done_entry_def)
  have seqs: "e_seq (done_entry n m k) = n" for n m k by (simp add: done_entry_def)
  have p1: "page_rows done_db sample_pool 0 None = pool_entries done_db sample_pool"
    and p2: "page_rows done_db sample_pool 2 None = [done_entry 3 ag_b VoteEntry]"
    by (simp_all add: forward_rows [OF done_log] newer_def rows seqs)
  have m1: "mapr (entry_view sample_ext) (take (2 + 1) (pool_entries done_db sample_pool)) = Inr [v1, v2, v3]"
    and m2: "mapr (entry_view sample_ext) (take (2 + 1) [done_entry 3 ag_b VoteEntry]) = Inr [v3]"
    by (simp_all add: rows v del: One_nat_def)
  have "\<exists>pg. read_page sample_ext done_db sample_pool 0 None 2 = Inr pg \<and> pg_entries pg = [v1, v2] \<and> pg_next_cursor pg = Some 2"
    unfolding read_page_def st dv p1 m1 bindr_Inr_simp by (simp add: ok Let_def last_seq_def)
  moreover have "\<exists>pg. read_page sample_ext done_db sample_pool 2 None 2 = Inr pg \<and> pg_entries pg = [v3] \<and> pg_next_cursor pg = None"
    unfolding read_page_def st dv p2 m2 bindr_Inr_simp by (simp add: ok Let_def last_seq_def)
  ultimately show ?thesis by auto
qed

theorem paging_exact_witness:
  "\<exists>es. mapr (entry_view sample_ext) (pool_entries done_db sample_pool) = Inr es \<and> length es = 3"
proof -
  obtain es where es: "follow sample_ext sample_pool 2 [done_db, done_db] 0 = Inr (es, True)" "length es = 3"
    using done_pages by blast
  have "\<forall>e \<in> set (pool_entries done_db sample_pool). e_seq e < 2 ^ 63" "length (pool_entries done_db sample_pool) = 3"
    by (simp_all add: pool_entries_def done_db_def) (simp_all add: done_entry_def)
  with paging_exact [OF done_log _ _ _ es(1), of done_db] es(2) show ?thesis by (simp add: done_log)
qed

end
