(* ===== verification/ServiceRestart.thy ===== *)
theory ServiceRestart
  imports Outbox
begin

text \<open>
  One service restart (\<^verbatim>\<open>crates/agent-run-store/src/service_restart.rs\<close>): the admission barrier, the capture
  of running executions, the two warnings and the forced stop, the hand-over to the next writer, the
  confirmation of every continuation, and the notices to the orchestrators before and after.
\<close>

section \<open>Model\<close>

definition WARNING_DELAY_NS :: int where
  "WARNING_DELAY_NS = 30000000000"

definition RESUME_CONFIRM_NS :: int where
  "RESUME_CONFIRM_NS = 60000000000"

definition NOTICE_WAIT_NS :: int where
  "NOTICE_WAIT_NS = 10000000000"

definition FIRST_NOTICE :: string where
  "FIRST_NOTICE =
     ''Agent Run is preparing to restart. Stop your work and call finish with status done and a concise '' @
     ''summary of completed and remaining work. This is a temporary interruption; you will resume after the '' @
     ''restart. Do not include credentials.''"

definition SECOND_NOTICE :: string where
  "SECOND_NOTICE =
     ''Agent Run is restarting. Call finish immediately with status done and the context needed to continue. '' @
     ''If you do not stop within 30 seconds, your work will be interrupted.''"

definition BLOCKED_PREFIX :: string where
  "BLOCKED_PREFIX =
     ''Agent Run is restarting. New agent starts are temporarily blocked; please wait. [agent-run-restart:''"

definition BEFORE_NOTICE :: string where
  "BEFORE_NOTICE =
     ''Agent Run is preparing a service restart. Your agents will pause and resume afterwards. You will receive '' @
     ''their restart results.''"

definition AFTER_NOTICE :: string where
  "AFTER_NOTICE = ''Agent Run has finished its restart procedure. New agent starts are available again.''"

definition finish_marker :: "nat \<Rightarrow> string" where
  "finish_marker restart = ''[agent-run-restart-finish:'' @ show_nat restart @ '']''"

definition resume_result :: "string \<Rightarrow> string option \<Rightarrow> string" where
  "resume_result status reason =
     (let why = (case reason of Some r \<Rightarrow> r | None \<Rightarrow> ''reason unavailable'') in
      if status = ''started'' then ''resumed''
      else if status = ''finished'' then ''finished before restart''
      else if status = ''cancelled'' then ''cancelled by the orchestrator''
      else if status = ''failed'' then ''failed '' @ em_dash @ '' '' @ why
      else ''not confirmed '' @ em_dash @ '' '' @ why)"

subsection \<open>Notices to orchestrators\<close>

definition notice_of :: "db \<Rightarrow> nat \<Rightarrow> string \<Rightarrow> string \<Rightarrow> string \<Rightarrow> restart_notice_row option" where
  "notice_of db restart carrier session stage =
     find (\<lambda>n. rn_restart n = restart \<and> rn_transport n = carrier \<and> rn_external n = session \<and> rn_stage n = stage)
       (restart_notices db)"

definition enqueue_notice ::
    "ext \<Rightarrow> nat \<Rightarrow> string \<Rightarrow> string \<Rightarrow> string \<Rightarrow> string \<Rightarrow> db \<Rightarrow> db res" where
  "enqueue_notice x restart carrier session stage message db =
     (if notice_of db restart carrier session stage \<noteq> None then Inr db
      else
      bindr (session_for_reference x db
          \<lparr> transport = carrier, external_session_id = session, external_turn_id = None \<rparr> (x_now x)) (\<lambda>(sid, db1).
      let i = notification_id x db1 in
      Inr ((insert_delivery
          \<lparr> d_id = i, d_agent = None, d_session = Some sid, d_event = None, d_state = ''pending'', d_attempts = 0,
            d_lease_owner = None, d_lease_until = None, d_next_attempt_at = Some (x_now x), d_last_error = None,
            d_ambiguous = False \<rparr> db1)
        \<lparr> restart_notices := restart_notices db1 @
           [\<lparr> rn_restart = restart, rn_transport = carrier, rn_external = session, rn_stage = stage,
              rn_message = message, rn_delivery = i \<rparr>] \<rparr>)))"

definition stored_transport :: "string \<Rightarrow> string" where
  "stored_transport t = (if t = ''codex'' then ''codex_queue'' else if t = ''claude'' then ''claude_uds'' else t)"

definition result_entries :: "db \<Rightarrow> nat \<Rightarrow> string \<Rightarrow> string \<Rightarrow> (string \<times> string \<times> string option) list" where
  "result_entries db restart carrier session =
     map (\<lambda>(a, r). (record_root a, ra_resume_status r, ra_resume_error r))
       (sort_key (\<lambda>(a, r). a_id a)
         (filter (\<lambda>(a, r). a_id a = ra_agent r \<and> ra_restart r = restart \<and> \<not> ra_cancelled_before r
             \<and> list_ex (\<lambda>s. Some (s_id s) = ra_session r \<and> s_external s = session
                  \<and> stored_transport (s_transport s) = carrier) (sessions db))
           (List.product (agents db) (restart_agents db))))"

definition result_message :: "(string \<times> string \<times> string option) list \<Rightarrow> string" where
  "result_message es =
     AFTER_NOTICE @ concat (map (\<lambda>(agent, status, reason). nl @ ''- '' @ agent @ '': '' @ resume_result status reason) es)"

definition unsent :: "db \<Rightarrow> string \<Rightarrow> bool" where
  "unsent db i =
     list_ex (\<lambda>d. d_id d = i \<and> d_state d = ''pending'' \<and> d_attempts d = 0 \<and> bridge_of db (d_id d) = None) (deliveries db)"

definition queue_restart_result :: "ext \<Rightarrow> nat \<Rightarrow> string \<Rightarrow> string \<Rightarrow> db \<Rightarrow> db res" where
  "queue_restart_result x restart carrier session db =
     (let message = result_message (result_entries db restart carrier session) in
      enqueue_notice x restart carrier session ''after'' message
        (db\<lparr> restart_notices := map (\<lambda>n. if rn_restart n = restart \<and> rn_transport n = carrier
             \<and> rn_external n = session \<and> rn_stage n = ''after'' \<and> unsent db (rn_delivery n)
           then n\<lparr> rn_message := message \<rparr> else n) (restart_notices db) \<rparr>))"

fun queue_results :: "ext \<Rightarrow> nat \<Rightarrow> (string \<times> string) list \<Rightarrow> db \<Rightarrow> db res" where
  "queue_results x restart [] db = Inr db"
| "queue_results x restart ((carrier, session) # rs) db =
     bindr (queue_restart_result x restart carrier session db) (queue_results x restart rs)"

definition recipients_of :: "db \<Rightarrow> nat \<Rightarrow> restart_recipient_row list" where
  "recipients_of db restart = filter (\<lambda>r. rr_restart r = restart) (restart_recipients db)"

definition recipient_key :: "restart_recipient_row \<Rightarrow> string \<times> string" where
  "recipient_key r = (rr_transport r, rr_external r)"

definition queue_restart_results :: "ext \<Rightarrow> nat \<Rightarrow> db \<Rightarrow> db res" where
  "queue_restart_results x restart db =
     queue_results x restart (map recipient_key (sort_key recipient_key (recipients_of db restart))) db"

subsection \<open>The barrier\<close>

definition blocked_message :: "nat \<Rightarrow> string" where
  "blocked_message restart = BLOCKED_PREFIX @ show_nat restart @ '']''"

definition blocked_restart_id :: "string \<Rightarrow> int option" where
  "blocked_restart_id message =
     (case strip_prefix BLOCKED_PREFIX (trim_start_matches ''invalid agent transition: '' message) of
        None \<Rightarrow> None
      | Some tail \<Rightarrow>
          (case split_once (CHR '']'') tail of
             None \<Rightarrow> None
           | Some (i, _) \<Rightarrow> (case parse_i64 i of Some n \<Rightarrow> if 0 < n then Some n else None | None \<Rightarrow> None)))"

definition require_admissions_open :: "db \<Rightarrow> unit res" where
  "require_admissions_open db =
     (case active_service_restart db of
        Some i \<Rightarrow> Inl (Transition (blocked_message i))
      | None \<Rightarrow> Inr ())"

subsection \<open>Members of a restart\<close>

definition restart_by_id :: "db \<Rightarrow> nat \<Rightarrow> restart_row option" where
  "restart_by_id db i = find (\<lambda>r. r_id r = i) (restarts db)"

definition update_restart :: "(restart_row \<Rightarrow> bool) \<Rightarrow> (restart_row \<Rightarrow> restart_row) \<Rightarrow> db \<Rightarrow> db" where
  "update_restart P f db = db\<lparr> restarts := map (\<lambda>r. if P r then f r else r) (restarts db) \<rparr>"

definition update_members :: "(restart_agent_row \<Rightarrow> bool) \<Rightarrow> (restart_agent_row \<Rightarrow> restart_agent_row) \<Rightarrow> db \<Rightarrow> db" where
  "update_members P f db = db\<lparr> restart_agents := map (\<lambda>a. if P a then f a else a) (restart_agents db) \<rparr>"

definition active_agent :: "agent_row \<Rightarrow> bool" where
  "active_agent a \<longleftrightarrow> \<not> terminal (a_status a)"

definition finish_accepted :: "db \<Rightarrow> string \<Rightarrow> bool" where
  "finish_accepted db agent =
     list_ex (\<lambda>t. t_agent t = agent \<and> t_ownership_active t
       \<and> list_ex (\<lambda>l. l_attempt l = t_id t \<and> l_finish l \<noteq> None) (worker_lifecycle db)) (attempts db)"

definition finish_restart :: "db \<Rightarrow> string \<Rightarrow> string \<Rightarrow> nat option" where
  "finish_restart db agent attempt =
     map_option (\<lambda>(a, r). r_id r)
       (find (\<lambda>(a, r). r_id r = ra_restart a \<and> ra_agent a = agent
           \<and> list_ex (\<lambda>t. t_id t = attempt \<and> t_agent t = agent \<and> t_ownership_active t) (attempts db)
           \<and> r_phase r = ''preparing'' \<and> r_finished_at r = None \<and> \<not> ra_cancelled_before a
           \<and> ra_resume_status a = ''pending'' \<and> ra_first_notice a \<noteq> None)
         (List.product (restart_agents db) (restarts db)))"

definition upsert_recipient ::
    "nat \<Rightarrow> string \<Rightarrow> string \<Rightarrow> (restart_recipient_row \<Rightarrow> restart_recipient_row) \<Rightarrow> db \<Rightarrow> db" where
  "upsert_recipient restart carrier session f db =
     (let same = (\<lambda>r. rr_restart r = restart \<and> rr_transport r = carrier \<and> rr_external r = session) in
      if list_ex same (restart_recipients db)
      then db\<lparr> restart_recipients := map (\<lambda>r. if same r then f r else r) (restart_recipients db) \<rparr>
      else db\<lparr> restart_recipients := restart_recipients db @
             [f \<lparr> rr_restart = restart, rr_transport = carrier, rr_external = session, rr_had_agents = False,
                  rr_tried_start = False \<rparr>] \<rparr>)"

definition set_had_agents :: "restart_recipient_row \<Rightarrow> restart_recipient_row" where
  "set_had_agents r = r\<lparr> rr_had_agents := True \<rparr>"

definition set_tried_start :: "restart_recipient_row \<Rightarrow> restart_recipient_row" where
  "set_tried_start r = r\<lparr> rr_tried_start := True \<rparr>"

definition bind_captured ::
    "ext \<Rightarrow> string \<Rightarrow> string \<Rightarrow> string \<Rightarrow> string \<Rightarrow> nat \<times> string \<Rightarrow> db \<Rightarrow> db res" where
  "bind_captured x agent sid carrier session row db =
     (case row of (restart, phase) \<Rightarrow>
      let db1 = update_members (\<lambda>a. ra_restart a = restart \<and> ra_agent a = agent \<and> ra_session a = None)
            (\<lambda>a. a\<lparr> ra_session := Some sid \<rparr>) db;
          db2 = upsert_recipient restart carrier session set_had_agents db1 in
      if phase = ''complete'' then queue_restart_result x restart carrier session db2
      else if phase = ''preparing'' then enqueue_notice x restart carrier session ''before'' BEFORE_NOTICE db2
      else Inr db2)"

fun bind_captured_rows ::
    "ext \<Rightarrow> string \<Rightarrow> string \<Rightarrow> string \<Rightarrow> string \<Rightarrow> (nat \<times> string) list \<Rightarrow> db \<Rightarrow> db res" where
  "bind_captured_rows x agent sid carrier session [] db = Inr db"
| "bind_captured_rows x agent sid carrier session (row # rows) db =
     bindr (bind_captured x agent sid carrier session row db) (bind_captured_rows x agent sid carrier session rows)"

definition bind_captured_agent :: "ext \<Rightarrow> string \<Rightarrow> string \<Rightarrow> orchestrator_ref \<Rightarrow> db \<Rightarrow> db res" where
  "bind_captured_agent x agent sid r db =
     bindr (canonical_transport r) (\<lambda>carrier.
       bind_captured_rows x agent sid carrier (external_session_id r)
         (map (\<lambda>(a, q). (ra_restart a, r_phase q))
           (filter (\<lambda>(a, q). r_id q = ra_restart a \<and> ra_agent a = agent \<and> ra_session a = None \<and> \<not> ra_cancelled_before a)
             (List.product (restart_agents db) (restarts db)))) db)"

definition require_restart_resume :: "db \<Rightarrow> nat \<Rightarrow> string \<Rightarrow> unit res" where
  "require_restart_resume db restart agent =
     (if list_ex (\<lambda>(a, r). r_id r = ra_restart a \<and> r_id r = restart \<and> r_phase r = ''recovering''
           \<and> r_finished_at r = None \<and> ra_agent a = agent \<and> \<not> ra_cancelled_before a
           \<and> ra_resume_status a = ''pending'' \<and> ra_resumed_execution a = None)
         (List.product (restart_agents db) (restarts db))
      then Inr () else Inl Conflict)"

subsection \<open>Beginning a restart\<close>

definition cancel_requested :: "db \<Rightarrow> agent_row \<Rightarrow> bool" where
  "cancel_requested db a \<longleftrightarrow>
     a_status a = Cancelling
     \<or> list_ex (\<lambda>c. c_agent c = a_id a \<and> c_kind c = ''cancel''
          \<and> (c_state c \<in> {''pending'', ''claimed''}
             \<or> (c_state c = ''completed''
                \<and> (case c_result c of Some r \<Rightarrow> json_true (jfield ''accepted'' r) | None \<Rightarrow> False)))) (commands db)"

definition captured :: "nat \<Rightarrow> db \<Rightarrow> restart_agent_row list" where
  "captured restart db =
     map (\<lambda>a. \<lparr> ra_restart = restart, ra_agent = a_id a, ra_session = a_session a,
                 ra_cancelled_before = cancel_requested db a, ra_first_notice = None, ra_second_notice = None,
                 ra_force_requested = None, ra_resume_requested = None, ra_resumed_execution = None,
                 ra_resume_status = (if cancel_requested db a then ''cancelled'' else ''pending''),
                 ra_resume_error = None \<rparr>)
       (filter (\<lambda>a. active_agent a \<and> \<not> finish_accepted db (a_id a)) (agents db))"

definition captured_recipients :: "db \<Rightarrow> restart_agent_row list \<Rightarrow> (string \<times> string) list" where
  "captured_recipients db rows =
     map (\<lambda>(a, s). (stored_transport (s_transport s), s_external s))
       (filter (\<lambda>(a, s). Some (s_id s) = ra_session a \<and> \<not> ra_cancelled_before a) (List.product rows (sessions db)))"

fun enqueue_before :: "ext \<Rightarrow> nat \<Rightarrow> (string \<times> string) list \<Rightarrow> db \<Rightarrow> db res" where
  "enqueue_before x restart [] db = Inr db"
| "enqueue_before x restart ((carrier, session) # rs) db =
     bindr (enqueue_notice x restart carrier session ''before'' BEFORE_NOTICE db) (enqueue_before x restart rs)"

definition begin_new :: "ext \<Rightarrow> string \<Rightarrow> rat \<Rightarrow> db \<Rightarrow> error + (nat \<times> db)" where
  "begin_new x request tm db =
     (let restart = Suc (restart_seq db);
          rows = captured restart db;
          db1 = db\<lparr> restart_seq := restart,
               restarts := restarts db @ [\<lparr> r_id = restart, r_request_id = request, r_phase = ''preparing'',
                 r_started_at = tm, r_boot_id = x_boot_id x, r_notice_wait = None, r_writer_epoch = writer_epoch db,
                 r_finished_at = None \<rparr>],
               restart_agents := restart_agents db @ rows \<rparr>;
          db2 = fold (\<lambda>(carrier, session). upsert_recipient restart carrier session set_had_agents)
            (captured_recipients db rows) db1 in
      bindr (enqueue_before x restart (map recipient_key (filter rr_had_agents (recipients_of db2 restart))) db2)
        (\<lambda>db3. Inr (restart, db3)))"

definition begin_tx :: "ext \<Rightarrow> string \<Rightarrow> rat \<Rightarrow> db \<Rightarrow> error + (nat \<times> db)" where
  "begin_tx x request tm db =
     (case find (\<lambda>r. r_request_id r = request) (restarts db) of
        Some r \<Rightarrow> Inr (r_id r, db)
      | None \<Rightarrow>
          if list_ex (\<lambda>r. r_finished_at r = None) (restarts db) then Inl Conflict
          else begin_new x request tm db)"

definition begin_service_restart :: "ext \<Rightarrow> string \<Rightarrow> f64 \<Rightarrow> db \<Rightarrow> nat res \<times> db" where
  "begin_service_restart x request at_time db =
     (if trim request = [] \<or> 256 < length request \<or> list_ex is_control (chars request)
         \<or> (case at_time of Finite tm \<Rightarrow> tm < 0 | NotFinite \<Rightarrow> True)
      then (Inl (invalid ''invalid service restart request''), db)
      else commit db (begin_tx x request (case at_time of Finite tm \<Rightarrow> tm | NotFinite \<Rightarrow> 0) db))"

subsection \<open>Callers, hand-over and recovery\<close>

definition remember_tx :: "ext \<Rightarrow> nat \<Rightarrow> string \<Rightarrow> string \<Rightarrow> db \<Rightarrow> error + (unit \<times> db)" where
  "remember_tx x restart carrier session db =
     (case restart_by_id db restart of
        None \<Rightarrow> Inl (invalid ''unknown service restart'')
      | Some r \<Rightarrow>
          let db1 = upsert_recipient restart carrier session set_tried_start db in
          bindr (if r_phase r = ''complete'' then queue_restart_result x restart carrier session db1 else Inr db1)
            (\<lambda>db2. Inr ((), db2)))"

definition remember_service_restart_caller :: "ext \<Rightarrow> nat \<Rightarrow> orchestrator_ref \<Rightarrow> db \<Rightarrow> unit res \<times> db" where
  "remember_service_restart_caller x restart r db =
     commit db (bindr (validate_ref r) (\<lambda>_. bindr (canonical_transport r) (\<lambda>carrier.
       remember_tx x restart carrier (external_session_id r) db)))"

definition claimable :: "nat \<Rightarrow> db \<Rightarrow> restart_row \<Rightarrow> bool" where
  "claimable restart db r \<longleftrightarrow>
     r_id r = restart \<and> r_phase r = ''ready'' \<and> r_writer_epoch r \<noteq> None \<and> r_writer_epoch r = writer_epoch db"

definition claim_service_restart :: "nat \<Rightarrow> db \<Rightarrow> bool res \<times> db" where
  "claim_service_restart restart db =
     commit db (Inr (length (filter (claimable restart db) (restarts db)) = 1,
       update_restart (claimable restart db) (\<lambda>r. r\<lparr> r_phase := ''requesting'' \<rparr>) db))"

definition recover_tx :: "ext \<Rightarrow> nat option \<Rightarrow> db \<Rightarrow> error + (nat option \<times> db)" where
  "recover_tx x failed_restart db =
     (case find (\<lambda>r. r_finished_at r = None) (restarts db) of
        None \<Rightarrow> Inr (None, db)
      | Some r \<Rightarrow>
          if (case failed_restart of Some requested \<Rightarrow> requested \<noteq> r_id r | None \<Rightarrow> False) then Inl Conflict
          else if r_phase r = ''recovering'' then Inr (Some (r_id r), db)
          else
            let new_writer = (case (r_writer_epoch r, writer_epoch db) of
                  (Some old, Some new) \<Rightarrow> old < new | _ \<Rightarrow> False);
                failed_on_same_writer = (failed_restart = Some (r_id r)
                  \<and> (case (r_writer_epoch r, writer_epoch db) of (Some old, Some new) \<Rightarrow> new = old | _ \<Rightarrow> False)) in
            if r_phase r \<notin> {''ready'', ''requesting''} \<or> \<not> (new_writer \<or> failed_on_same_writer)
            then Inr (None, db)
            else Inr (Some (r_id r),
              update_restart (\<lambda>q. r_id q = r_id r \<and> r_phase q \<in> {''ready'', ''requesting''})
                (\<lambda>q. q\<lparr> r_phase := ''recovering'', r_boot_id := x_boot_id x \<rparr>) db))"

definition recover_service_restart_for :: "ext \<Rightarrow> nat option \<Rightarrow> db \<Rightarrow> nat option res \<times> db" where
  "recover_service_restart_for x failed_restart db = commit db (recover_tx x failed_restart db)"

definition recover_service_restart :: "ext \<Rightarrow> db \<Rightarrow> nat option res \<times> db" where
  "recover_service_restart x db = recover_service_restart_for x None db"

definition recover_service_restart_after_failure :: "ext \<Rightarrow> nat \<Rightarrow> db \<Rightarrow> nat option res \<times> db" where
  "recover_service_restart_after_failure x restart db = recover_service_restart_for x (Some restart) db"

subsection \<open>Confirming continuations\<close>

definition clock_ns :: "nat \<Rightarrow> nat res" where
  "clock_ns now_ns = (if now_ns < 2 ^ 63 then Inr now_ns else Inl (invalid ''invalid restart clock''))"

text \<open>Both readings lie in \<^verbatim>\<open>0..2^63\<close>, so \<^verbatim>\<open>saturating_sub\<close> never saturates.\<close>

definition elapsed :: "nat \<Rightarrow> nat \<Rightarrow> int" where
  "elapsed now_ns start = int now_ns - int start"

definition in_phase :: "db \<Rightarrow> nat \<Rightarrow> string \<Rightarrow> bool" where
  "in_phase db restart phase = list_ex (\<lambda>r. r_id r = restart \<and> r_phase r = phase) (restarts db)"

definition in_phase_of_boot :: "db \<Rightarrow> nat \<Rightarrow> string \<Rightarrow> string \<Rightarrow> bool" where
  "in_phase_of_boot db restart phase boot =
     list_ex (\<lambda>r. r_id r = restart \<and> r_phase r = phase \<and> r_boot_id r = boot) (restarts db)"

definition resumable :: "nat \<Rightarrow> string \<Rightarrow> string \<Rightarrow> db \<Rightarrow> restart_agent_row \<Rightarrow> bool" where
  "resumable restart agent boot db a \<longleftrightarrow>
     ra_restart a = restart \<and> ra_agent a = agent \<and> \<not> ra_cancelled_before a \<and> ra_resume_status a = ''pending''
     \<and> in_phase_of_boot db restart ''recovering'' boot"

definition request_service_restart_resume :: "nat \<Rightarrow> string \<Rightarrow> string \<Rightarrow> nat \<Rightarrow> db \<Rightarrow> unit res \<times> db" where
  "request_service_restart_resume restart agent boot now_ns db =
     commit db (bindr (clock_ns now_ns) (\<lambda>now.
       if length (filter (resumable restart agent boot db) (restart_agents db)) \<noteq> 1 then Inl Conflict
       else Inr ((), update_members (resumable restart agent boot db)
         (\<lambda>a. a\<lparr> ra_resume_requested := Some (case ra_resume_requested a of Some t \<Rightarrow> t | None \<Rightarrow> now) \<rparr>) db)))"

definition refusable :: "nat \<Rightarrow> string \<Rightarrow> db \<Rightarrow> restart_agent_row \<Rightarrow> bool" where
  "refusable restart agent db a \<longleftrightarrow>
     ra_restart a = restart \<and> ra_agent a = agent \<and> ra_resume_status a = ''pending'' \<and> ra_resume_requested a \<noteq> None
     \<and> ra_resumed_execution a = None \<and> in_phase db restart ''recovering''"

definition fail_service_restart_resume :: "nat \<Rightarrow> string \<Rightarrow> string \<Rightarrow> db \<Rightarrow> unit res \<times> db" where
  "fail_service_restart_resume restart agent reason db =
     (if reason = [] \<or> 256 < length reason \<or> list_ex is_control (chars reason)
      then (Inl (invalid ''invalid restart failure reason''), db)
      else commit db
        (if length (filter (refusable restart agent db) (restart_agents db)) \<noteq> 1 then Inl Conflict
         else Inr ((), update_members (refusable restart agent db)
           (\<lambda>a. a\<lparr> ra_resume_status := ''failed'', ra_resume_error := Some reason \<rparr>) db)))"

definition UNCONFIRMED_REASON :: string where
  "UNCONFIRMED_REASON = ''No continuation confirmation within 60 seconds; the outcome is unknown.''"

definition ended_reason :: "string option \<Rightarrow> string" where
  "ended_reason failure =
     ''Continuation ended before confirmation: '' @
       (case failure of
          Some kind \<Rightarrow> if kind \<noteq> [] \<and> length kind \<le> 128
               \<and> list_all (\<lambda>b. is_ascii_alphanumeric b \<or> b \<in> {CHR ''_'', CHR ''-'', CHR ''.''}) kind
             then kind else ''execution_ended''
        | None \<Rightarrow> ''execution_ended'')"

text \<open>What the store knows of a continuation: accepted, ended, and its failure kind.\<close>

definition continuation_seen :: "db \<Rightarrow> string option \<Rightarrow> (bool \<times> bool \<times> string option) res" where
  "continuation_seen db child =
     (case child of
        None \<Rightarrow> Inr (False, False, None)
      | Some c \<Rightarrow>
          bindr (ok_or no_rows (agent_by_id db c)) (\<lambda>a.
            Inr (a_status a = Succeeded \<or> list_ex (\<lambda>v. v_agent v = c \<and> v_kind v = ''native_resume_accepted'') (events db),
                 terminal (a_status a), a_failure_kind a)))"

definition resume_outcome :: "bool \<times> bool \<times> string option \<Rightarrow> int \<Rightarrow> (string \<times> string option) option" where
  "resume_outcome observed waited =
     (case observed of (accepted, ended, failure) \<Rightarrow>
        if accepted then Some (''started'', None)
        else if ended then Some (''failed'', Some (ended_reason failure))
        else if RESUME_CONFIRM_NS \<le> waited then Some (''unconfirmed'', Some UNCONFIRMED_REASON)
        else None)"

definition record_outcome :: "nat \<Rightarrow> string \<Rightarrow> (string \<times> string option) option \<Rightarrow> db \<Rightarrow> db" where
  "record_outcome restart agent outcome db =
     (case outcome of
        None \<Rightarrow> db
      | Some (st, reason) \<Rightarrow>
          update_members (\<lambda>a. ra_restart a = restart \<and> ra_agent a = agent \<and> ra_resume_status a = ''pending'')
            (\<lambda>a. a\<lparr> ra_resume_status := st, ra_resume_error := reason \<rparr>) db)"

fun refresh_members :: "nat \<Rightarrow> nat \<Rightarrow> restart_agent_row list \<Rightarrow> db \<Rightarrow> db res" where
  "refresh_members restart now [] db = Inr db"
| "refresh_members restart now (a # rows) db =
     bindr (continuation_seen db (ra_resumed_execution a)) (\<lambda>seen.
       refresh_members restart now rows
         (record_outcome restart (ra_agent a)
           (resume_outcome seen (elapsed now (case ra_resume_requested a of Some t \<Rightarrow> t | None \<Rightarrow> 0))) db))"

definition awaiting_rows :: "nat \<Rightarrow> db \<Rightarrow> restart_agent_row list" where
  "awaiting_rows restart db =
     filter (\<lambda>a. ra_restart a = restart \<and> ra_resume_status a = ''pending'' \<and> ra_resume_requested a \<noteq> None)
       (restart_agents db)"

definition unresolved :: "nat \<Rightarrow> db \<Rightarrow> bool" where
  "unresolved restart db =
     list_ex (\<lambda>a. ra_restart a = restart
       \<and> (ra_resume_status a = ''pending''
          \<or> (ra_resume_status a = ''cancelled''
             \<and> list_ex (\<lambda>c. Some (a_id c) = ra_resumed_execution a \<and> active_agent c) (agents db)))) (restart_agents db)"

definition close_restart :: "nat \<Rightarrow> rat \<Rightarrow> db \<Rightarrow> db" where
  "close_restart restart tm =
     update_restart (\<lambda>r. r_id r = restart \<and> r_phase r = ''recovering'')
       (\<lambda>r. r\<lparr> r_phase := ''complete'', r_finished_at := Some tm \<rparr>)"

definition refresh_tx :: "ext \<Rightarrow> nat \<Rightarrow> string \<Rightarrow> nat \<Rightarrow> rat \<Rightarrow> db \<Rightarrow> error + (bool \<times> db)" where
  "refresh_tx x restart boot now tm db =
     (if \<not> in_phase_of_boot db restart ''recovering'' boot then Inl Conflict
      else bindr (refresh_members restart now (awaiting_rows restart db) db) (\<lambda>db1.
        if unresolved restart db1 then Inr (False, db1)
        else bindr (queue_restart_results x restart db1) (\<lambda>db2. Inr (True, close_restart restart tm db2))))"

definition refresh_service_restart :: "ext \<Rightarrow> nat \<Rightarrow> string \<Rightarrow> nat \<Rightarrow> f64 \<Rightarrow> db \<Rightarrow> bool res \<times> db" where
  "refresh_service_restart x restart boot now_ns at_time db =
     commit db (bindr (clock_ns now_ns) (\<lambda>now.
       case at_time of
         NotFinite \<Rightarrow> Inl (invalid ''invalid restart time'')
       | Finite tm \<Rightarrow> if tm < 0 then Inl (invalid ''invalid restart time'') else refresh_tx x restart boot now tm db))"

subsection \<open>Warnings and forced stops\<close>

datatype restart_step = FirstNotice | SecondNotice | ForceStop

definition restart_decision ::
    "nat \<Rightarrow> nat option \<Rightarrow> nat option \<Rightarrow> nat option \<Rightarrow> bool \<Rightarrow> bool \<Rightarrow> restart_step option" where
  "restart_decision now first second forced finished restart_finish =
     (if forced \<noteq> None then None
      else case (first, second) of
        (None, None) \<Rightarrow> if \<not> finished then Some FirstNotice else None
      | (None, Some s) \<Rightarrow>
          if \<not> finished then Some FirstNotice
          else if restart_finish \<and> WARNING_DELAY_NS \<le> elapsed now s then Some ForceStop else None
      | (Some f, None) \<Rightarrow>
          if WARNING_DELAY_NS \<le> elapsed now f \<and> \<not> finished then Some SecondNotice
          else if finished \<and> restart_finish \<and> 2 * WARNING_DELAY_NS \<le> elapsed now f then Some ForceStop
          else None
      | (Some f, Some s) \<Rightarrow>
          if (\<not> finished \<or> restart_finish) \<and> WARNING_DELAY_NS \<le> elapsed now s then Some ForceStop else None)"

definition steer_payload :: "nat \<Rightarrow> string \<Rightarrow> json" where
  "steer_payload restart notice =
     JObj [(''text'', JStr (notice @ '' Begin the finish summary with this exact line followed by a newline: '' @
       finish_marker restart))]"

fun step_command :: "nat \<Rightarrow> restart_step \<Rightarrow> string \<times> json" where
  "step_command restart FirstNotice = (''steer'', steer_payload restart FIRST_NOTICE)"
| "step_command restart SecondNotice = (''steer'', steer_payload restart SECOND_NOTICE)"
| "step_command restart ForceStop = (''cancel'', JObj [])"

fun stamp_step :: "nat \<Rightarrow> restart_step \<Rightarrow> restart_agent_row \<Rightarrow> restart_agent_row" where
  "stamp_step now FirstNotice a = a\<lparr> ra_first_notice := Some now \<rparr>"
| "stamp_step now SecondNotice a = a\<lparr> ra_second_notice := Some now \<rparr>"
| "stamp_step now ForceStop a = a\<lparr> ra_force_requested := Some now \<rparr>"

definition take_step :: "ext \<Rightarrow> nat \<Rightarrow> nat \<Rightarrow> string \<Rightarrow> restart_step \<Rightarrow> db \<Rightarrow> db" where
  "take_step x restart now agent st db =
     (case step_command restart st of (kind, payload) \<Rightarrow>
        update_members (\<lambda>a. ra_restart a = restart \<and> ra_agent a = agent) (stamp_step now st)
          (insert_command
            \<lparr> c_id = 0, c_agent = agent, c_kind = kind, c_payload = payload, c_state = ''pending'',
              c_created_at = x_now x, c_result = None, c_claimed_at = None, c_completed_at = None \<rparr> db))"

definition finish_seen :: "db \<Rightarrow> nat \<Rightarrow> string \<Rightarrow> bool" where
  "finish_seen db restart agent =
     list_ex (\<lambda>v. v_agent v = agent \<and> v_kind v = ''worker_finish_accepted_v1''
       \<and> jfield ''service_restart_id'' (v_data v) = JNum (int restart)) (events db)"

definition stoppable :: "nat \<Rightarrow> db \<Rightarrow> restart_agent_row \<Rightarrow> bool" where
  "stoppable restart db r \<longleftrightarrow>
     ra_restart r = restart \<and> \<not> ra_cancelled_before r \<and> ra_resume_status r = ''pending''
     \<and> list_ex (\<lambda>a. a_id a = ra_agent r \<and> a_status a \<in> {Created, Starting, Running}) (agents db)
     \<and> \<not> list_ex (\<lambda>c. c_agent c = ra_agent r \<and> c_kind c = ''cancel'' \<and> c_state c \<in> {''pending'', ''claimed''})
           (commands db)"

text \<open>The members with what the loop needs of each, read before the first decision is taken.\<close>

definition restart_plan :: "nat \<Rightarrow> nat \<Rightarrow> db \<Rightarrow> (string \<times> restart_step) list" where
  "restart_plan restart now db =
     List.map_filter (\<lambda>r. map_option (Pair (ra_agent r))
         (restart_decision now (ra_first_notice r) (ra_second_notice r) (ra_force_requested r)
           (finish_accepted db (ra_agent r)) (finish_seen db restart (ra_agent r))))
       (filter (stoppable restart db) (restart_agents db))"

definition awaiting_notice :: "nat \<Rightarrow> db \<Rightarrow> bool" where
  "awaiting_notice restart db =
     list_ex (\<lambda>n. rn_restart n = restart \<and> rn_stage n = ''before''
       \<and> list_ex (\<lambda>d. d_id d = rn_delivery n \<and> d_state d \<in> {''pending'', ''sending''}) (deliveries db)) (restart_notices db)"

definition wait_started :: "nat \<Rightarrow> restart_row \<Rightarrow> nat" where
  "wait_started now r = (case r_notice_wait r of Some t \<Rightarrow> t | None \<Rightarrow> now)"

definition mark_ready :: "nat \<Rightarrow> db \<Rightarrow> db" where
  "mark_ready restart db =
     update_restart (\<lambda>r. r_id r = restart \<and> r_phase r = ''preparing'' \<and> \<not> list_ex active_agent (agents db))
       (\<lambda>r. r\<lparr> r_phase := ''ready'' \<rparr>) db"

definition stop_members :: "ext \<Rightarrow> nat \<Rightarrow> nat \<Rightarrow> db \<Rightarrow> nat \<times> db" where
  "stop_members x restart now db =
     (let plan = restart_plan restart now db in
      (length plan, mark_ready restart (fold (\<lambda>(agent, st). take_step x restart now agent st) plan db)))"

definition advance_tx :: "ext \<Rightarrow> nat \<Rightarrow> string \<Rightarrow> nat \<Rightarrow> db \<Rightarrow> error + (nat \<times> db)" where
  "advance_tx x restart boot now db =
     (if \<not> in_phase_of_boot db restart ''preparing'' boot then Inl Conflict
      else if \<not> awaiting_notice restart db then Inr (stop_members x restart now db)
      else
        let db1 = update_restart (\<lambda>r. r_id r = restart) (\<lambda>r. r\<lparr> r_notice_wait := Some (wait_started now r) \<rparr>) db in
        bindr (ok_or no_rows (restart_by_id db restart)) (\<lambda>r.
          if elapsed now (wait_started now r) < NOTICE_WAIT_NS then Inr (0, db1)
          else Inr (stop_members x restart now db1)))"

definition advance_service_restart :: "ext \<Rightarrow> nat \<Rightarrow> string \<Rightarrow> nat \<Rightarrow> db \<Rightarrow> nat res \<times> db" where
  "advance_service_restart x restart boot now_ns db =
     commit db (bindr (clock_ns now_ns) (\<lambda>now. advance_tx x restart boot now db))"

end
