(* ===== verification/RestartRuns.thy ===== *)
theory RestartRuns
  imports ServiceRestart
begin

text \<open>
  Runs of a service restart: what every operation of \<^verbatim>\<open>service_restart.rs\<close> changes in the four restart tables,
  the step relation of the store around one restart, the invariant its schema states, and the order of phases.
\<close>

section \<open>What an operation changes\<close>

text \<open>Queueing a notice writes sessions, deliveries and notices only.\<close>

definition same_restart :: "db \<Rightarrow> db \<Rightarrow> bool" where
  "same_restart db db' \<longleftrightarrow>
     restarts db' = restarts db \<and> restart_seq db' = restart_seq db \<and> restart_agents db' = restart_agents db
     \<and> restart_recipients db' = restart_recipients db \<and> agents db' = agents db"

lemma same_restart_refl [simp]: "same_restart db db"
  by (simp add: same_restart_def)

lemma same_restart_trans: "same_restart a b \<Longrightarrow> same_restart b c \<Longrightarrow> same_restart a c"
  by (simp add: same_restart_def)

definition notice_key :: "restart_notice_row \<Rightarrow> nat \<times> string \<times> string \<times> string" where
  "notice_key n = (rn_restart n, rn_transport n, rn_external n, rn_stage n)"

lemma notice_of_None_iff:
  "notice_of db restart carrier session st = None \<longleftrightarrow> (restart, carrier, session, st) \<notin> notice_key ` set (restart_notices db)"
  by (auto simp: notice_of_def find_None_iff notice_key_def)

lemma enqueue_notice_cases:
  assumes "enqueue_notice x restart carrier session st msg db = Inr db'"
  obtains (kept) "db' = db" "(restart, carrier, session, st) \<in> notice_key ` set (restart_notices db)"
  | (queued) n where "same_restart db db'" "restart_notices db' = restart_notices db @ [n]"
      "notice_key n = (restart, carrier, session, st)" "rn_message n = msg"
      "(restart, carrier, session, st) \<notin> notice_key ` set (restart_notices db)"
proof (cases "notice_of db restart carrier session st")
  case (Some n)
  then have "notice_of db restart carrier session st \<noteq> None" by simp
  then have "(restart, carrier, session, st) \<in> notice_key ` set (restart_notices db)" by (simp only: notice_of_None_iff) simp
  with Some assms show ?thesis by (intro kept) (simp_all add: enqueue_notice_def)
next
  case None
  with assms obtain sid db1 where s: "session_for_reference x db
      \<lparr> transport = carrier, external_session_id = session, external_turn_id = None \<rparr> (x_now x) = Inr (sid, db1)"
    and d: "db' = (insert_delivery
          \<lparr> d_id = notification_id x db1, d_agent = None, d_session = Some sid, d_event = None, d_state = ''pending'',
            d_attempts = 0, d_lease_owner = None, d_lease_until = None, d_next_attempt_at = Some (x_now x),
            d_last_error = None, d_ambiguous = False \<rparr> db1)
        \<lparr> restart_notices := restart_notices db1 @
           [\<lparr> rn_restart = restart, rn_transport = carrier, rn_external = session, rn_stage = st,
              rn_message = msg, rn_delivery = notification_id x db1 \<rparr>] \<rparr>"
    by (auto simp: enqueue_notice_def Let_def)
  from session_for_sessions [OF s] obtain ss where "db1 = db\<lparr> sessions := ss \<rparr>" by blast
  with d show ?thesis using None
    by (intro queued [of "\<lparr> rn_restart = restart, rn_transport = carrier, rn_external = session, rn_stage = st,
              rn_message = msg, rn_delivery = notification_id x db1 \<rparr>"])
      (simp_all add: same_restart_def insert_delivery_def notice_key_def notice_of_None_iff)
qed

text \<open>The notices after an operation: unique per recipient and stage, each of a recorded recipient.\<close>

definition recipient_row_key :: "restart_recipient_row \<Rightarrow> nat \<times> string \<times> string" where
  "recipient_row_key r = (rr_restart r, rr_transport r, rr_external r)"

definition notices_wf :: "db \<Rightarrow> bool" where
  "notices_wf db \<longleftrightarrow>
     distinct (map notice_key (restart_notices db))
     \<and> notice_key ` set (restart_notices db) \<subseteq>
         {(i, carrier, session, st). st \<in> {''before'', ''after''}
            \<and> (i, carrier, session) \<in> recipient_row_key ` set (restart_recipients db)}"

definition announces :: "db \<Rightarrow> db \<Rightarrow> bool" where
  "announces db db' \<longleftrightarrow> same_restart db db' \<and> notice_key ` set (restart_notices db) \<subseteq> notice_key ` set (restart_notices db')"

lemma announces_refl [simp]: "announces db db"
  by (simp add: announces_def)

lemma announces_trans: "announces a b \<Longrightarrow> announces b c \<Longrightarrow> announces a c"
  unfolding announces_def by (elim conjE, intro conjI) (erule (1) same_restart_trans, erule (1) subset_trans)

lemma announces_recipients: "announces db db' \<Longrightarrow> restart_recipients db' = restart_recipients db"
  by (simp add: announces_def same_restart_def)

lemma enqueue_notice_keeps:
  assumes r: "enqueue_notice x restart carrier session st msg db = Inr db'"
  shows "announces db db'"
    and "notices_wf db \<Longrightarrow> st \<in> {''before'', ''after''}
      \<Longrightarrow> (restart, carrier, session) \<in> recipient_row_key ` set (restart_recipients db) \<Longrightarrow> notices_wf db'"
    and "(restart, carrier, session, st) \<in> notice_key ` set (restart_notices db')"
proof -
  have "announces db db' \<and> (notices_wf db \<longrightarrow> st \<in> {''before'', ''after''}
      \<longrightarrow> (restart, carrier, session) \<in> recipient_row_key ` set (restart_recipients db) \<longrightarrow> notices_wf db')
    \<and> (restart, carrier, session, st) \<in> notice_key ` set (restart_notices db')"
    using r
  proof (cases rule: enqueue_notice_cases)
    case kept
    then show ?thesis by simp
  next
    case (queued n)
    then show ?thesis by (simp add: notices_wf_def announces_def same_restart_def subset_insertI)
  qed
  then show "announces db db'" "notices_wf db \<Longrightarrow> st \<in> {''before'', ''after''}
      \<Longrightarrow> (restart, carrier, session) \<in> recipient_row_key ` set (restart_recipients db) \<Longrightarrow> notices_wf db'"
    "(restart, carrier, session, st) \<in> notice_key ` set (restart_notices db')" by blast+
qed

definition reworded :: "(restart_notice_row \<Rightarrow> bool) \<Rightarrow> string \<Rightarrow> db \<Rightarrow> db" where
  "reworded P msg db = db\<lparr> restart_notices := map (\<lambda>n. if P n then n\<lparr> rn_message := msg \<rparr> else n) (restart_notices db) \<rparr>"

lemma reworded_keeps:
  "map notice_key (restart_notices (reworded P msg db)) = map notice_key (restart_notices db)"
  "announces db (reworded P msg db)"
  "notices_wf (reworded P msg db) \<longleftrightarrow> notices_wf db"
proof -
  show keys: "map notice_key (restart_notices (reworded P msg db)) = map notice_key (restart_notices db)"
    by (simp add: reworded_def notice_key_def)
  then have set_keys: "notice_key ` set (restart_notices (reworded P msg db)) = notice_key ` set (restart_notices db)"
    by (metis set_map)
  show "announces db (reworded P msg db)"
    unfolding announces_def set_keys by (simp add: reworded_def same_restart_def)
  show "notices_wf (reworded P msg db) \<longleftrightarrow> notices_wf db"
    unfolding notices_wf_def keys set_keys by (simp add: reworded_def)
qed

lemma queue_restart_result_reworded:
  "\<exists>P. queue_restart_result x restart carrier session db =
     enqueue_notice x restart carrier session ''after'' (result_message (result_entries db restart carrier session))
       (reworded P (result_message (result_entries db restart carrier session)) db)"
  unfolding queue_restart_result_def reworded_def Let_def by (rule exI, rule refl)

lemma queue_result_keeps:
  assumes r: "queue_restart_result x restart carrier session db = Inr db'"
  shows "announces db db'"
    and "notices_wf db \<Longrightarrow> (restart, carrier, session) \<in> recipient_row_key ` set (restart_recipients db) \<Longrightarrow> notices_wf db'"
    and "(restart, carrier, session, ''after'') \<in> notice_key ` set (restart_notices db')"
proof -
  obtain P msg where e: "enqueue_notice x restart carrier session ''after'' msg (reworded P msg db) = Inr db'"
    using queue_restart_result_reworded [of x restart carrier session db] unfolding r by (elim exE) (rule that, erule sym)
  show "announces db db'" by (rule announces_trans [OF reworded_keeps(2) enqueue_notice_keeps(1) [OF e]])
  show "(restart, carrier, session, ''after'') \<in> notice_key ` set (restart_notices db')"
    by (rule enqueue_notice_keeps(3) [OF e])
  assume "notices_wf db" and "(restart, carrier, session) \<in> recipient_row_key ` set (restart_recipients db)"
  then show "notices_wf db'"
    using enqueue_notice_keeps(2) [OF e] by (simp add: reworded_keeps(3) announces_recipients [OF reworded_keeps(2)])
qed

lemma queue_results_keeps:
  assumes "queue_results x restart rs db = Inr db'"
  shows "announces db db'
    \<and> (notices_wf db \<longrightarrow> (\<forall>(carrier, session) \<in> set rs.
          (restart, carrier, session) \<in> recipient_row_key ` set (restart_recipients db)) \<longrightarrow> notices_wf db')
    \<and> (\<forall>(carrier, session) \<in> set rs. (restart, carrier, session, ''after'') \<in> notice_key ` set (restart_notices db'))"
  using assms
proof (induction rs arbitrary: db)
  case (Cons k rs)
  obtain carrier session where k: "k = (carrier, session)" by (cases k)
  with Cons.prems obtain db1 where r: "queue_restart_result x restart carrier session db = Inr db1"
    "queue_results x restart rs db1 = Inr db'" by auto
  note one = queue_result_keeps [OF r(1)] and rest = Cons.IH [OF r(2)]
  have a: "announces db db'" by (rule announces_trans [OF one(1) conjunct1 [OF rest]])
  have n: "(restart, carrier, session, ''after'') \<in> notice_key ` set (restart_notices db')"
    using one(3) conjunct1 [OF rest] by (auto simp: announces_def)
  have "notices_wf db'" if "notices_wf db" "\<forall>(carrier, session) \<in> set (k # rs).
      (restart, carrier, session) \<in> recipient_row_key ` set (restart_recipients db)"
  proof -
    have "notices_wf db1" using one(2) that k by simp
    then show ?thesis using rest that(2) unfolding announces_recipients [OF one(1)] by simp
  qed
  with a n rest show ?case unfolding k by simp
qed simp

lemma enqueue_before_keeps:
  assumes "enqueue_before x restart rs db = Inr db'"
  shows "announces db db'
    \<and> (notices_wf db \<longrightarrow> (\<forall>(carrier, session) \<in> set rs.
          (restart, carrier, session) \<in> recipient_row_key ` set (restart_recipients db)) \<longrightarrow> notices_wf db')"
  using assms
proof (induction rs arbitrary: db)
  case (Cons k rs)
  obtain carrier session where k: "k = (carrier, session)" by (cases k)
  with Cons.prems obtain db1 where r: "enqueue_notice x restart carrier session ''before'' BEFORE_NOTICE db = Inr db1"
    "enqueue_before x restart rs db1 = Inr db'" by auto
  note one = enqueue_notice_keeps [OF r(1)] and rest = Cons.IH [OF r(2)]
  have a: "announces db db'" by (rule announces_trans [OF one(1) conjunct1 [OF rest]])
  have "notices_wf db'" if "notices_wf db" "\<forall>(carrier, session) \<in> set (k # rs).
      (restart, carrier, session) \<in> recipient_row_key ` set (restart_recipients db)"
  proof -
    have "notices_wf db1" using one(2) that k by simp
    then show ?thesis using rest that(2) unfolding announces_recipients [OF one(1)] by simp
  qed
  with a show ?case by blast
qed simp

section \<open>The invariant of the restart tables\<close>

text \<open>The \<^verbatim>\<open>CHECK\<close>s, keys and the unique index on active restarts of \<^verbatim>\<open>035_service_restart.sql\<close>.\<close>

definition restart_phases :: "string list" where
  "restart_phases = [''preparing'', ''ready'', ''requesting'', ''recovering'', ''complete'']"

definition resume_statuses :: "string list" where
  "resume_statuses = [''pending'', ''started'', ''failed'', ''unconfirmed'', ''cancelled'', ''finished'']"

definition phase_rank :: "string \<Rightarrow> nat" where
  "phase_rank p = length (takeWhile (\<lambda>q. q \<noteq> p) restart_phases)"

lemma phase_rank_simps [simp]:
  "phase_rank ''preparing'' = 0" "phase_rank ''ready'' = 1" "phase_rank ''requesting'' = 2"
  "phase_rank ''recovering'' = 3" "phase_rank ''complete'' = 4"
  by (simp_all add: phase_rank_def restart_phases_def)

definition row_typed :: "restart_row \<Rightarrow> bool" where
  "row_typed r \<longleftrightarrow> 0 < r_id r \<and> r_phase r \<in> set restart_phases \<and> (r_phase r = ''complete'' \<longleftrightarrow> r_finished_at r \<noteq> None)"

definition rows_wf :: "restart_row list \<Rightarrow> nat \<Rightarrow> bool" where
  "rows_wf rs seq \<longleftrightarrow>
     distinct (map r_id rs) \<and> distinct (map r_request_id rs) \<and> (\<forall>r \<in> set rs. row_typed r \<and> r_id r \<le> seq)
     \<and> length (filter (\<lambda>r. r_finished_at r = None) rs) \<le> 1"

text \<open>
  A member is warned, warned again and stopped in this order, and never hurried: the second warning comes
  at least thirty seconds after the first, the stop at least sixty seconds after the first.
\<close>

definition patient :: "restart_agent_row \<Rightarrow> bool" where
  "patient a \<longleftrightarrow>
     (\<forall>s. ra_second_notice a = Some s \<longrightarrow> (\<exists>f. ra_first_notice a = Some f \<and> f + 30000000000 \<le> s))
     \<and> (\<forall>t. ra_force_requested a = Some t \<longrightarrow> (\<exists>f. ra_first_notice a = Some f \<and> f + 60000000000 \<le> t))"

definition member_key :: "restart_agent_row \<Rightarrow> nat \<times> string" where
  "member_key a = (ra_restart a, ra_agent a)"

definition members_wf :: "db \<Rightarrow> bool" where
  "members_wf db \<longleftrightarrow>
     distinct (map member_key (restart_agents db))
     \<and> (\<forall>a \<in> set (restart_agents db). ra_resume_status a \<in> set resume_statuses \<and> patient a)"

text \<open>The foreign keys of the three dependent tables.\<close>

definition references_ok :: "db \<Rightarrow> bool" where
  "references_ok db \<longleftrightarrow>
     ra_restart ` set (restart_agents db) \<subseteq> r_id ` set (restarts db)
     \<and> rr_restart ` set (restart_recipients db) \<subseteq> r_id ` set (restarts db)"

definition restart_wf :: "db \<Rightarrow> bool" where
  "restart_wf db \<longleftrightarrow>
     rows_wf (restarts db) (restart_seq db) \<and> members_wf db \<and> references_ok db
     \<and> distinct (map recipient_row_key (restart_recipients db)) \<and> notices_wf db \<and> distinct (map a_id (agents db))"

text \<open>How a restart may change: its identity is fixed, its phase only advances, and once finished it is fixed.\<close>

definition row_forward :: "restart_row \<Rightarrow> restart_row \<Rightarrow> bool" where
  "row_forward r r' \<longleftrightarrow>
     r_id r' = r_id r \<and> r_request_id r' = r_request_id r \<and> r_started_at r' = r_started_at r
     \<and> r_writer_epoch r' = r_writer_epoch r \<and> phase_rank (r_phase r) \<le> phase_rank (r_phase r')
     \<and> (r_finished_at r \<noteq> None \<longrightarrow> r' = r)"

definition rows_forward :: "db \<Rightarrow> db \<Rightarrow> bool" where
  "rows_forward db db' \<longleftrightarrow>
     restart_seq db \<le> restart_seq db'
     \<and> (\<forall>r' \<in> set (restarts db'). r_id r' \<le> restart_seq db \<longrightarrow> (\<exists>r \<in> set (restarts db). row_forward r r'))"

lemma row_forward_refl [simp]: "row_forward r r"
  by (simp add: row_forward_def)

lemma row_forward_trans: "row_forward a b \<Longrightarrow> row_forward b c \<Longrightarrow> row_forward a c"
  by (auto simp: row_forward_def)

lemma rows_forward_same: "restarts db' = restarts db \<Longrightarrow> restart_seq db' = restart_seq db \<Longrightarrow> rows_forward db db'"
  unfolding rows_forward_def by (intro conjI ballI impI) (simp, rule bexI, rule row_forward_refl, simp)

lemma rows_forward_trans:
  assumes "rows_forward a b" and "rows_forward b c"
  shows "rows_forward a c"
  unfolding rows_forward_def
proof (intro conjI ballI impI)
  show "restart_seq a \<le> restart_seq c" using assms by (simp add: rows_forward_def)
  fix r assume r: "r \<in> set (restarts c)" "r_id r \<le> restart_seq a"
  then have "r_id r \<le> restart_seq b" using assms(1) by (simp add: rows_forward_def)
  with r assms(2) obtain q where q: "q \<in> set (restarts b)" "row_forward q r" by (auto simp: rows_forward_def)
  then have "r_id q \<le> restart_seq a" using r by (simp add: row_forward_def)
  with q assms(1) obtain p where "p \<in> set (restarts a)" "row_forward p q" by (auto simp: rows_forward_def)
  with q show "\<exists>p \<in> set (restarts a). row_forward p r" using row_forward_trans by blast
qed

section \<open>Every operation keeps the invariant\<close>

text \<open>An update of restart rows that advances each row it changes.\<close>

definition row_step :: "restart_row \<Rightarrow> restart_row \<Rightarrow> bool" where
  "row_step r r' \<longleftrightarrow> row_forward r r' \<and> row_typed r' \<and> (r_finished_at r' = None \<longrightarrow> r_finished_at r = None)"

lemma row_stepD:
  assumes "row_step r r'"
  shows "r_id r' = r_id r" "r_request_id r' = r_request_id r" "row_typed r'" "row_forward r r'"
    "r_finished_at r' = None \<Longrightarrow> r_finished_at r = None"
  using assms unfolding row_step_def row_forward_def by blast+

lemma rows_wf_map:
  assumes "rows_wf rs seq" and step: "\<And>r. r \<in> set rs \<Longrightarrow> row_step r (f r)"
  shows "rows_wf (map f rs) seq"
proof -
  have ids: "map r_id (map f rs) = map r_id rs" "map r_request_id (map f rs) = map r_request_id rs"
    using row_stepD(1,2) [OF step] by simp_all
  have "length (filter (\<lambda>r. r_finished_at r = None) (map f rs)) \<le> length (filter (\<lambda>r. r_finished_at r = None) rs)"
    using row_stepD(5) [OF step] by (induction rs) auto
  moreover have "row_typed r \<and> r_id r \<le> seq" if "r \<in> set (map f rs)" for r
    using that row_stepD(1,3) [OF step] assms(1) by (auto simp: rows_wf_def)
  ultimately show ?thesis using assms(1) unfolding rows_wf_def ids by simp
qed

lemma restart_wf_rows:
  assumes "restart_wf db" and "rows_wf rs (restart_seq db)" and "r_id ` set rs = r_id ` set (restarts db)"
  shows "restart_wf (db\<lparr> restarts := rs \<rparr>)"
  using assms by (simp add: restart_wf_def references_ok_def members_wf_def notices_wf_def)

lemma rows_forward_map:
  assumes "restarts db' = map g (restarts db)" and "\<And>r. r \<in> set (restarts db) \<Longrightarrow> row_forward r (g r)"
    and "restart_seq db' = restart_seq db"
  shows "rows_forward db db'"
  unfolding rows_forward_def assms(1,3) set_map using assms(2) by (intro conjI ballI impI) (simp, elim imageE, blast)

lemma update_restart_keeps:
  assumes wf: "restart_wf db" and step: "\<And>r. r \<in> set (restarts db) \<Longrightarrow> P r \<Longrightarrow> row_step r (f r)"
  shows "restart_wf (update_restart P f db) \<and> rows_forward db (update_restart P f db)"
proof -
  let ?g = "\<lambda>r. if P r then f r else r"
  have t: "row_typed r" if "r \<in> set (restarts db)" for r
    using wf that by (simp add: restart_wf_def rows_wf_def)
  have s: "row_step r (?g r)" if "r \<in> set (restarts db)" for r
  proof (cases "P r")
    case True
    then show ?thesis using step [OF that] by simp
  next
    case False
    then show ?thesis using t [OF that] by (simp add: row_step_def)
  qed
  have "map r_id (map ?g (restarts db)) = map r_id (restarts db)" using row_stepD(1) [OF s] by simp
  then have ids: "r_id ` set (map ?g (restarts db)) = r_id ` set (restarts db)" by (metis set_map)
  have "rows_wf (map ?g (restarts db)) (restart_seq db)"
    by (rule rows_wf_map [OF _ s]) (use wf in \<open>simp add: restart_wf_def\<close>)
  then have "restart_wf (update_restart P f db)"
    unfolding update_restart_def by (rule restart_wf_rows [OF wf _ ids])
  moreover have "rows_forward db (update_restart P f db)"
    by (rule rows_forward_map [OF _ row_stepD(4) [OF s]]) (simp_all add: update_restart_def)
  ultimately show ?thesis by blast
qed

definition kept :: "db \<Rightarrow> db \<Rightarrow> bool" where
  "kept db db' \<longleftrightarrow> (restart_wf db \<longrightarrow> restart_wf db' \<and> rows_forward db db')"

lemma kept_refl [simp]: "kept db db"
  by (simp add: kept_def rows_forward_same)

lemma kept_trans: "kept a b \<Longrightarrow> kept b c \<Longrightarrow> kept a c"
  unfolding kept_def using rows_forward_trans by blast

lemma kept_update_restart:
  assumes "\<And>r. restart_wf db \<Longrightarrow> r \<in> set (restarts db) \<Longrightarrow> P r \<Longrightarrow> row_step r (f r)"
  shows "kept db (update_restart P f db)"
  unfolding kept_def using update_restart_keeps assms by blast

lemma restart_wf_members:
  assumes "restart_wf db" and "map member_key ms = map member_key (restart_agents db)"
    and "\<forall>a \<in> set ms. ra_resume_status a \<in> set resume_statuses \<and> patient a"
  shows "restart_wf (db\<lparr> restart_agents := ms \<rparr>)"
proof -
  have "map ra_restart ms = map fst (map member_key ms)" for ms by (simp add: member_key_def)
  with assms(2) have "ra_restart ` set ms = ra_restart ` set (restart_agents db)" by (metis set_map)
  with assms show ?thesis by (simp add: restart_wf_def references_ok_def members_wf_def notices_wf_def)
qed

lemma kept_update_members:
  assumes "\<And>a. restart_wf db \<Longrightarrow> a \<in> set (restart_agents db) \<Longrightarrow> P a \<Longrightarrow>
    member_key (f a) = member_key a \<and> ra_resume_status (f a) \<in> set resume_statuses \<and> patient (f a)"
  shows "kept db (update_members P f db)"
  unfolding kept_def
proof (intro impI conjI)
  let ?g = "\<lambda>a. if P a then f a else a"
  assume wf: "restart_wf db"
  then have "ra_resume_status a \<in> set resume_statuses \<and> patient a" if "a \<in> set (restart_agents db)" for a
    using that by (simp add: restart_wf_def members_wf_def)
  with assms [OF wf] have g: "member_key (?g a) = member_key a" "ra_resume_status (?g a) \<in> set resume_statuses \<and> patient (?g a)"
    if "a \<in> set (restart_agents db)" for a using that by simp_all
  show "restart_wf (update_members P f db)"
    unfolding update_members_def
  proof (rule restart_wf_members [OF wf])
    show "map member_key (map ?g (restart_agents db)) = map member_key (restart_agents db)" using g(1) by simp
    show "\<forall>a \<in> set (map ?g (restart_agents db)). ra_resume_status a \<in> set resume_statuses \<and> patient a"
      unfolding set_map using g(2) by blast
  qed
  show "rows_forward db (update_members P f db)" by (rule rows_forward_same) (simp_all add: update_members_def)
qed

lemma upsert_keys:
  assumes "\<And>r. recipient_row_key (f r) = recipient_row_key r"
  shows "map recipient_row_key (restart_recipients (upsert_recipient i c s f db)) =
    (if (i, c, s) \<in> recipient_row_key ` set (restart_recipients db) then map recipient_row_key (restart_recipients db)
     else map recipient_row_key (restart_recipients db) @ [(i, c, s)])"
proof -
  have "recipient_row_key (if Q r then f r else r) = recipient_row_key r" for Q r using assms by simp
  moreover have "list_ex (\<lambda>r. rr_restart r = i \<and> rr_transport r = c \<and> rr_external r = s) (restart_recipients db)
      \<longleftrightarrow> (i, c, s) \<in> recipient_row_key ` set (restart_recipients db)"
    by (auto simp: list_ex_iff recipient_row_key_def)
  ultimately show ?thesis
    by (simp add: upsert_recipient_def Let_def assms) (simp add: recipient_row_key_def)
qed

lemma recipient_flags [simp]:
  "recipient_row_key (set_had_agents r) = recipient_row_key r" "recipient_row_key (set_tried_start r) = recipient_row_key r"
  by (simp_all add: set_had_agents_def set_tried_start_def recipient_row_key_def)

lemma upsert_frame:
  "restarts (upsert_recipient i c s f db) = restarts db" "restart_seq (upsert_recipient i c s f db) = restart_seq db"
  "restart_agents (upsert_recipient i c s f db) = restart_agents db"
  "restart_notices (upsert_recipient i c s f db) = restart_notices db" "agents (upsert_recipient i c s f db) = agents db"
  by (simp_all add: upsert_recipient_def Let_def)

lemma upsert_keeps:
  assumes f: "\<And>r. recipient_row_key (f r) = recipient_row_key r"
  shows "(i, c, s) \<in> recipient_row_key ` set (restart_recipients (upsert_recipient i c s f db))"
    and "recipient_row_key ` set (restart_recipients db) \<subseteq> recipient_row_key ` set (restart_recipients (upsert_recipient i c s f db))"
    and "i \<in> r_id ` set (restarts db) \<Longrightarrow> kept db (upsert_recipient i c s f db)"
proof -
  let ?db = "upsert_recipient i c s f db"
  have keys: "recipient_row_key ` set (restart_recipients ?db) = insert (i, c, s) (recipient_row_key ` set (restart_recipients db))"
    unfolding set_map [symmetric] upsert_keys [OF f] by auto
  then show "(i, c, s) \<in> recipient_row_key ` set (restart_recipients ?db)"
    "recipient_row_key ` set (restart_recipients db) \<subseteq> recipient_row_key ` set (restart_recipients ?db)" by blast+
  assume i: "i \<in> r_id ` set (restarts db)"
  have fst_key: "rr_restart ` A = fst ` (recipient_row_key ` A)" for A by (simp add: recipient_row_key_def image_image)
  show "kept db ?db" unfolding kept_def
  proof (intro impI conjI)
    assume wf: "restart_wf db"
    have "distinct (map recipient_row_key (restart_recipients ?db))"
      using wf by (simp add: upsert_keys [OF f] restart_wf_def)
    moreover have "references_ok ?db"
      using wf i unfolding references_ok_def restart_wf_def upsert_frame fst_key keys by simp
    moreover have "notices_wf ?db"
      using wf unfolding notices_wf_def restart_wf_def upsert_frame keys by auto
    ultimately show "restart_wf ?db" using wf by (simp add: restart_wf_def members_wf_def upsert_frame)
    show "rows_forward db ?db" by (rule rows_forward_same) (simp_all add: upsert_frame)
  qed
qed

lemma kept_announces:
  assumes "announces db db'" and "notices_wf db \<Longrightarrow> notices_wf db'"
  shows "kept db db'"
  using assms rows_forward_same [of db' db]
  by (simp add: kept_def announces_def same_restart_def restart_wf_def members_wf_def references_ok_def)

subsection \<open>Hand-over and recovery\<close>

lemma row_step_phase:
  assumes "row_typed r" and "r_phase r \<noteq> ''complete''"
    and "r_id r' = r_id r" "r_request_id r' = r_request_id r" "r_started_at r' = r_started_at r"
      "r_writer_epoch r' = r_writer_epoch r"
    and "phase_rank (r_phase r) \<le> phase_rank (r_phase r')" and "r_phase r' \<in> set restart_phases"
    and "r_phase r' = ''complete'' \<longleftrightarrow> r_finished_at r' \<noteq> None"
  shows "row_step r r'"
proof -
  have "r_finished_at r = None" using assms(1,2) by (simp add: row_typed_def)
  with assms show ?thesis by (simp add: row_step_def row_forward_def row_typed_def)
qed

lemma wf_row_typed: "restart_wf db \<Longrightarrow> r \<in> set (restarts db) \<Longrightarrow> row_typed r"
  by (simp add: restart_wf_def rows_wf_def)

lemma claim_kept: "kept db (snd (claim_service_restart restart db))"
  unfolding claim_service_restart_def commit_simps snd_conv
  by (rule kept_update_restart, rule row_step_phase)
    (auto simp: wf_row_typed claimable_def restart_phases_def row_typed_def dest: wf_row_typed)

lemma recovering_step:
  assumes "row_typed r" "r_phase r \<in> {''ready'', ''requesting''}"
  shows "row_step r (r\<lparr> r_phase := ''recovering'', r_boot_id := boot \<rparr>)"
  by (rule row_step_phase) (use assms in \<open>auto simp: row_typed_def restart_phases_def\<close>)

lemma commit_kept:
  assumes "\<And>a db'. body = Inr (a, db') \<Longrightarrow> kept db db'"
  shows "kept db (snd (commit db body))"
  using assms by (cases body) auto

lemma recover_kept: "kept db (snd (recover_service_restart_for x failed db))"
  unfolding recover_service_restart_for_def
proof (rule commit_kept)
  fix out db' assume r: "recover_tx x failed db = Inr (out, db')"
  then have "db' = db \<or> (\<exists>i. db' = update_restart (\<lambda>q. r_id q = i \<and> r_phase q \<in> {''ready'', ''requesting''})
        (\<lambda>q. q\<lparr> r_phase := ''recovering'', r_boot_id := x_boot_id x \<rparr>) db)"
    unfolding recover_tx_def by (auto simp: Let_def split: option.splits if_splits)
  moreover have "kept db (update_restart (\<lambda>q. r_id q = i \<and> r_phase q \<in> {''ready'', ''requesting''})
        (\<lambda>q. q\<lparr> r_phase := ''recovering'', r_boot_id := x_boot_id x \<rparr>) db)" for i
    by (rule kept_update_restart, rule recovering_step) (simp_all add: wf_row_typed)
  ultimately show "kept db db'" by (elim disjE exE) simp_all
qed

subsection \<open>Notices, callers and bindings\<close>

lemma remember_kept: "kept db (snd (remember_service_restart_caller x restart r db))"
  unfolding remember_service_restart_caller_def
proof (rule commit_kept)
  fix u db' assume "bindr (validate_ref r) (\<lambda>_. bindr (canonical_transport r) (\<lambda>carrier.
      remember_tx x restart carrier (external_session_id r) db)) = Inr (u, db')"
  then obtain carrier where t: "remember_tx x restart carrier (external_session_id r) db = Inr (u, db')" by auto
  let ?db = "upsert_recipient restart carrier (external_session_id r) set_tried_start db"
  from t obtain q where q: "restart_by_id db restart = Some q"
    and o: "?db = db' \<or> queue_restart_result x restart carrier (external_session_id r) ?db = Inr db'"
    by (auto simp: remember_tx_def Let_def split: option.splits if_splits)
  have "restart \<in> r_id ` set (restarts db)" using q find_Some_in by (force simp: restart_by_id_def)
  note up = upsert_keeps [where f = set_tried_start and i = restart and c = carrier and s = "external_session_id r" and db = db,
    OF recipient_flags(2)]
  have "kept ?db db'" using o
  proof
    assume "queue_restart_result x restart carrier (external_session_id r) ?db = Inr db'"
    note a = queue_result_keeps [OF this]
    show ?thesis by (rule kept_announces [OF a(1) a(2) [OF _ up(1)]])
  qed simp
  with up(3) \<open>restart \<in> r_id ` set (restarts db)\<close> show "kept db db'" using kept_trans by blast
qed

lemma bind_captured_kept:
  assumes "bind_captured x agent sid carrier session (restart, phase) db = Inr db'"
    and "restart \<in> r_id ` set (restarts db)"
  shows "kept db db' \<and> restarts db' = restarts db"
proof -
  let ?db1 = "update_members (\<lambda>a. ra_restart a = restart \<and> ra_agent a = agent \<and> ra_session a = None)
            (\<lambda>a. a\<lparr> ra_session := Some sid \<rparr>) db"
  let ?db2 = "upsert_recipient restart carrier session set_had_agents ?db1"
  have k1: "kept db ?db1"
    by (rule kept_update_members) (simp add: member_key_def patient_def restart_wf_def members_wf_def)
  have rows: "restarts ?db1 = restarts db" by (simp add: update_members_def)
  note up = upsert_keeps [where f = set_had_agents and i = restart and c = carrier and s = session and db = ?db1,
    OF recipient_flags(1)]
  have k2: "kept db ?db2" by (rule kept_trans [OF k1 up(3)]) (simp only: rows assms(2))
  consider "db' = ?db2" | st msg where "enqueue_notice x restart carrier session st msg ?db2 = Inr db'" "st \<in> {''before'', ''after''}"
    | "queue_restart_result x restart carrier session ?db2 = Inr db'"
    using assms(1) by (fastforce simp: bind_captured_def Let_def split: if_splits)
  then have "kept ?db2 db' \<and> restarts db' = restarts ?db2"
  proof cases
    case 2
    note a = enqueue_notice_keeps [OF this(1)]
    have "kept ?db2 db'" by (rule kept_announces [OF a(1) a(2) [OF _ 2(2) up(1)]])
    with a(1) show ?thesis by (simp add: announces_def same_restart_def)
  next
    case 3
    note a = queue_result_keeps [OF this]
    have "kept ?db2 db'" by (rule kept_announces [OF a(1) a(2) [OF _ up(1)]])
    with a(1) show ?thesis by (simp add: announces_def same_restart_def)
  qed simp
  then show ?thesis using kept_trans [OF k2] by (simp add: upsert_frame rows)
qed

lemma bind_rows_kept:
  assumes "bind_captured_rows x agent sid carrier session rows db = Inr db'"
    and "\<forall>(i, phase) \<in> set rows. i \<in> r_id ` set (restarts db)"
  shows "kept db db'"
  using assms
proof (induction rows arbitrary: db)
  case (Cons row rows)
  obtain i phase where row: "row = (i, phase)" by (cases row)
  with Cons.prems(1) obtain db1 where b: "bind_captured x agent sid carrier session (i, phase) db = Inr db1"
    "bind_captured_rows x agent sid carrier session rows db1 = Inr db'" by auto
  have one: "kept db db1 \<and> restarts db1 = restarts db" by (rule bind_captured_kept [OF b(1)]) (use Cons.prems(2) row in auto)
  then have "kept db1 db'" using Cons.IH [OF b(2)] Cons.prems(2) by simp
  with one kept_trans show ?case by blast
qed simp

lemma bind_agent_kept:
  assumes "bind_captured_agent x agent sid r db = Inr db'"
  shows "kept db db'"
proof -
  obtain carrier where "bind_captured_rows x agent sid carrier (external_session_id r)
      (map (\<lambda>(a, q). (ra_restart a, r_phase q))
         (filter (\<lambda>(a, q). r_id q = ra_restart a \<and> ra_agent a = agent \<and> ra_session a = None \<and> \<not> ra_cancelled_before a)
           (List.product (restart_agents db) (restarts db)))) db = Inr db'"
    using assms by (auto simp: bind_captured_agent_def)
  then show ?thesis by (rule bind_rows_kept) force
qed

subsection \<open>Continuations\<close>

lemma wf_member: "restart_wf db \<Longrightarrow> a \<in> set (restart_agents db) \<Longrightarrow> ra_resume_status a \<in> set resume_statuses \<and> patient a"
  by (simp add: restart_wf_def members_wf_def)

lemma request_kept: "kept db (snd (request_service_restart_resume restart agent boot now db))"
  unfolding request_service_restart_resume_def
proof (rule commit_kept)
  fix u db' assume "bindr (clock_ns now) (\<lambda>now.
       if length (filter (resumable restart agent boot db) (restart_agents db)) \<noteq> 1 then Inl Conflict
       else Inr ((), update_members (resumable restart agent boot db)
         (\<lambda>a. a\<lparr> ra_resume_requested := Some (case ra_resume_requested a of Some t \<Rightarrow> t | None \<Rightarrow> now) \<rparr>) db)) = Inr (u, db')"
  then obtain n where "db' = update_members (resumable restart agent boot db)
         (\<lambda>a. a\<lparr> ra_resume_requested := Some (case ra_resume_requested a of Some t \<Rightarrow> t | None \<Rightarrow> n) \<rparr>) db"
    by (auto split: if_splits)
  then show "kept db db'"
    by (simp only:) (rule kept_update_members, drule (1) wf_member, simp add: member_key_def patient_def)
qed

lemma fail_kept: "kept db (snd (fail_service_restart_resume restart agent reason db))"
proof -
  have "kept db (update_members (refusable restart agent db)
      (\<lambda>a. a\<lparr> ra_resume_status := ''failed'', ra_resume_error := Some reason \<rparr>) db)"
    by (rule kept_update_members, drule (1) wf_member) (simp add: member_key_def patient_def resume_statuses_def)
  then show ?thesis by (simp add: fail_service_restart_resume_def)
qed

text \<open>Recording outcomes touches the status columns of members only.\<close>

lemma record_outcome_frame:
  "restarts (record_outcome i agent out db) = restarts db" "restart_seq (record_outcome i agent out db) = restart_seq db"
  "restart_recipients (record_outcome i agent out db) = restart_recipients db"
  "restart_notices (record_outcome i agent out db) = restart_notices db" "agents (record_outcome i agent out db) = agents db"
  "events (record_outcome i agent out db) = events db" "sessions (record_outcome i agent out db) = sessions db"
  by (simp_all add: record_outcome_def update_members_def split: option.split prod.split)

lemma resume_outcome_status: "resume_outcome seen waited = Some (st, reason) \<Longrightarrow> st \<in> {''started'', ''failed'', ''unconfirmed''}"
  by (auto simp: resume_outcome_def split: prod.splits if_splits)

lemma record_outcome_kept: "kept db (record_outcome i agent (resume_outcome seen waited) db)"
proof (cases "resume_outcome seen waited")
  case (Some out)
  obtain st reason where out: "out = (st, reason)" by (cases out)
  with Some have st: "st \<in> set resume_statuses"
    using resume_outcome_status [of seen waited st reason] by (auto simp: resume_statuses_def)
  show ?thesis unfolding record_outcome_def Some out option.case prod.case
    by (rule kept_update_members, drule (1) wf_member) (simp add: member_key_def patient_def st)
qed (simp add: record_outcome_def)

lemma refresh_members_kept:
  assumes "refresh_members i now rows db = Inr db'"
  shows "kept db db' \<and> restarts db' = restarts db \<and> restart_seq db' = restart_seq db
    \<and> restart_recipients db' = restart_recipients db \<and> restart_notices db' = restart_notices db
    \<and> agents db' = agents db \<and> events db' = events db \<and> sessions db' = sessions db"
  using assms
proof (induction rows arbitrary: db)
  case (Cons a rows)
  then obtain seen where "refresh_members i now rows (record_outcome i (ra_agent a)
      (resume_outcome seen (elapsed now (case ra_resume_requested a of Some t \<Rightarrow> t | None \<Rightarrow> 0))) db) = Inr db'"
    by auto
  from Cons.IH [OF this] kept_trans [OF record_outcome_kept] show ?case by (simp only: record_outcome_frame) blast
qed simp

lemma recipients_recorded:
  "(carrier, session) \<in> set (map recipient_key (sort_key recipient_key (recipients_of db i)))
   \<longleftrightarrow> (i, carrier, session) \<in> recipient_row_key ` set (restart_recipients db)"
  by (auto simp: recipients_of_def recipient_key_def recipient_row_key_def)

lemma queue_restart_results_kept:
  assumes "queue_restart_results x i db = Inr db'"
  shows "kept db db' \<and> announces db db'"
proof -
  note q = queue_results_keeps [OF assms [unfolded queue_restart_results_def]]
  have "notices_wf db'" if "notices_wf db"
    using q that recipients_recorded [of _ _ db i] by (simp only:) blast
  with kept_announces q show ?thesis by blast
qed

lemma close_kept: "kept db (close_restart i tm db)"
  unfolding close_restart_def
  by (rule kept_update_restart, rule row_step_phase) (auto simp: wf_row_typed restart_phases_def)

lemma refresh_kept: "kept db (snd (refresh_service_restart x i boot now at_time db))"
  unfolding refresh_service_restart_def
proof (rule commit_kept)
  fix b db' assume "bindr (clock_ns now) (\<lambda>now.
       case at_time of
         NotFinite \<Rightarrow> Inl (invalid ''invalid restart time'')
       | Finite tm \<Rightarrow> if tm < 0 then Inl (invalid ''invalid restart time'') else refresh_tx x i boot now tm db) = Inr (b, db')"
  then obtain n tm where "refresh_tx x i boot n tm db = Inr (b, db')" by (cases at_time) (auto split: if_splits)
  then obtain db1 where r: "refresh_members i n (awaiting_rows i db) db = Inr db1"
    and o: "db' = db1 \<or> (\<exists>db2. queue_restart_results x i db1 = Inr db2 \<and> db' = close_restart i tm db2)"
    by (auto simp: refresh_tx_def split: if_splits)
  have k: "kept db db1" using refresh_members_kept [OF r] by blast
  from o show "kept db db'"
  proof (elim disjE exE conjE)
    fix db2 assume q: "queue_restart_results x i db1 = Inr db2" and d: "db' = close_restart i tm db2"
    have "kept db db2" by (rule kept_trans [OF k conjunct1 [OF queue_restart_results_kept [OF q]]])
    then show ?thesis unfolding d by (rule kept_trans [OF _ close_kept])
  qed (simp add: k)
qed

subsection \<open>Warnings and forced stops\<close>

text \<open>One pass stamps each planned member once and queues one command for it.\<close>

definition stamp_plan :: "nat \<Rightarrow> nat \<Rightarrow> (string \<times> restart_step) list \<Rightarrow> restart_agent_row \<Rightarrow> restart_agent_row" where
  "stamp_plan i now plan a =
     (if ra_restart a = i then case map_of plan (ra_agent a) of Some st \<Rightarrow> stamp_step now st a | None \<Rightarrow> a else a)"

definition plan_command :: "ext \<Rightarrow> nat \<Rightarrow> string \<times> restart_step \<Rightarrow> nat \<Rightarrow> command_row" where
  "plan_command x i p n =
     \<lparr> c_id = n, c_agent = fst p, c_kind = fst (step_command i (snd p)), c_payload = snd (step_command i (snd p)),
       c_state = ''pending'', c_created_at = x_now x, c_result = None, c_claimed_at = None, c_completed_at = None \<rparr>"

definition run_plan :: "ext \<Rightarrow> nat \<Rightarrow> nat \<Rightarrow> (string \<times> restart_step) list \<Rightarrow> db \<Rightarrow> db" where
  "run_plan x i now plan db = fold (\<lambda>(agent, st). take_step x i now agent st) plan db"

lemma stamp_step_frame [simp]:
  "ra_restart (stamp_step now st a) = ra_restart a" "ra_agent (stamp_step now st a) = ra_agent a"
  "ra_resume_status (stamp_step now st a) = ra_resume_status a"
  by (cases st; simp)+

lemma take_step_writes:
  "take_step x i now agent st db =
     db\<lparr> commands := commands db @ [plan_command x i (agent, st) (Suc (command_seq db))], command_seq := Suc (command_seq db),
         restart_agents := map (stamp_plan i now [(agent, st)]) (restart_agents db) \<rparr>"
proof -
  have "(\<lambda>a. if ra_restart a = i \<and> ra_agent a = agent then stamp_step now st a else a) = stamp_plan i now [(agent, st)]"
    by (auto simp: stamp_plan_def)
  then show ?thesis
    by (simp add: take_step_def update_members_def insert_command_def plan_command_def Let_def split: prod.split)
qed

lemma stamp_plan_Cons:
  assumes "agent \<notin> fst ` set plan"
  shows "stamp_plan i now plan (stamp_plan i now [(agent, st)] a) = stamp_plan i now ((agent, st) # plan) a"
proof -
  have "map_of plan agent = None" using assms by (simp add: map_of_eq_None_iff)
  then show ?thesis by (cases "ra_agent a = agent"; simp add: stamp_plan_def split: option.split)
qed

lemma run_plan_writes:
  assumes "distinct (map fst plan)"
  shows "run_plan x i now plan db =
     db\<lparr> commands := commands db @ map2 (plan_command x i) plan [Suc (command_seq db)..<Suc (command_seq db + length plan)],
         command_seq := command_seq db + length plan,
         restart_agents := map (stamp_plan i now plan) (restart_agents db) \<rparr>"
  using assms
proof (induction plan arbitrary: db)
  case Nil
  have "stamp_plan i now [] = (\<lambda>a. a)" by (rule ext) (simp add: stamp_plan_def)
  then show ?case by (simp add: run_plan_def)
next
  case (Cons p plan)
  obtain agent st where p: "p = (agent, st)" by (cases p)
  let ?db = "take_step x i now agent st db"
  have "run_plan x i now (p # plan) db = run_plan x i now plan ?db" by (simp add: run_plan_def p)
  also have "\<dots> = ?db\<lparr> commands := commands ?db @ map2 (plan_command x i) plan [Suc (command_seq ?db)..<Suc (command_seq ?db + length plan)],
         command_seq := command_seq ?db + length plan,
         restart_agents := map (stamp_plan i now plan) (restart_agents ?db) \<rparr>"
    by (rule Cons.IH) (use Cons.prems in simp)
  also have "\<dots> = db\<lparr> commands := commands db @ map2 (plan_command x i) (p # plan) [Suc (command_seq db)..<Suc (command_seq db + length (p # plan))],
         command_seq := command_seq db + length (p # plan),
         restart_agents := map (stamp_plan i now (p # plan)) (restart_agents db) \<rparr>"
  proof -
    have u: "map2 f (p # plan) [Suc n..<Suc (n + length (p # plan))] = f p (Suc n) # map2 f plan [Suc (Suc n)..<Suc (Suc n + length plan)]"
      for f :: "string \<times> restart_step \<Rightarrow> nat \<Rightarrow> command_row" and n by (simp add: upt_conv_Cons del: upt_Suc)
    have c: "stamp_plan i now plan \<circ> stamp_plan i now [(agent, st)] = stamp_plan i now (p # plan)"
      by (rule ext) (use stamp_plan_Cons Cons.prems p in simp)
    show ?thesis unfolding u by (simp add: take_step_writes p c [unfolded p] del: upt_Suc)
  qed
  finally show ?case .
qed

lemma patient_step:
  assumes "patient a" and "restart_decision now (ra_first_notice a) (ra_second_notice a) (ra_force_requested a) fin rf = Some st"
  shows "patient (stamp_step now st a)"
  using assms by (cases st)
    (auto simp: patient_def restart_decision_def elapsed_def WARNING_DELAY_NS_def split: option.splits if_splits)

lemma plan_agents:
  "set (map fst (restart_plan i now db)) \<subseteq> ra_agent ` {a \<in> set (restart_agents db). ra_restart a = i}"
  by (auto simp: restart_plan_def List.map_filter_def stoppable_def)

lemma plan_distinct:
  assumes "distinct (map member_key (restart_agents db))"
  shows "distinct (map fst (restart_plan i now db))"
proof -
  let ?d = "\<lambda>r. restart_decision now (ra_first_notice r) (ra_second_notice r) (ra_force_requested r)
           (finish_accepted db (ra_agent r)) (finish_seen db i (ra_agent r))"
  have "map fst (List.map_filter (\<lambda>r. map_option (Pair (ra_agent r)) (?d r)) rs) = map ra_agent (filter (\<lambda>r. ?d r \<noteq> None) rs)" for rs
    by (induction rs) (auto simp: map_filter_simps split: option.splits)
  then have "map fst (restart_plan i now db) = map ra_agent (filter (\<lambda>r. ?d r \<noteq> None) (filter (stoppable i db) (restart_agents db)))"
    by (simp only: restart_plan_def)
  moreover have "inj_on ra_agent {a \<in> set (restart_agents db). stoppable i db a}"
    using assms by (auto simp: distinct_map inj_on_def member_key_def stoppable_def)
  moreover have "distinct (restart_agents db)" using assms by (simp add: distinct_map)
  ultimately show ?thesis by (simp add: distinct_map inj_on_def)
qed

lemma plan_decision:
  assumes "(agent, st) \<in> set (restart_plan i now db)"
  shows "\<exists>r \<in> set (restart_agents db). member_key r = (i, agent) \<and> stoppable i db r
    \<and> restart_decision now (ra_first_notice r) (ra_second_notice r) (ra_force_requested r)
        (finish_accepted db agent) (finish_seen db i agent) = Some st"
  using assms by (auto simp: restart_plan_def List.map_filter_def stoppable_def member_key_def)

lemma planned_patient:
  assumes "members_wf db" and a: "a \<in> set (restart_agents db)"
  shows "patient (stamp_plan i now (restart_plan i now db) a)"
proof (cases "ra_restart a = i \<and> map_of (restart_plan i now db) (ra_agent a) \<noteq> None")
  case True
  then obtain st where st: "map_of (restart_plan i now db) (ra_agent a) = Some st" by auto
  from plan_decision [OF map_of_SomeD [OF st]] obtain r where r: "r \<in> set (restart_agents db)"
    "member_key r = (i, ra_agent a)" and d: "restart_decision now (ra_first_notice r) (ra_second_notice r)
      (ra_force_requested r) (finish_accepted db (ra_agent a)) (finish_seen db i (ra_agent a)) = Some st" by blast
  have "member_key r = member_key a" using r(2) True by (simp add: member_key_def)
  then have "r = a" using assms(1) r(1) a by (auto simp: members_wf_def distinct_map dest: inj_onD)
  moreover have "patient a" using assms by (simp add: members_wf_def)
  ultimately have "patient (stamp_step now st a)" using d patient_step by blast
  with True st show ?thesis by (simp add: stamp_plan_def)
next
  case False
  then have "stamp_plan i now (restart_plan i now db) a = a" by (auto simp: stamp_plan_def)
  with assms show ?thesis by (simp add: members_wf_def)
qed

lemma stamp_plan_frame [simp]:
  "member_key (stamp_plan i now plan a) = member_key a" "ra_resume_status (stamp_plan i now plan a) = ra_resume_status a"
  by (simp_all add: stamp_plan_def member_key_def split: option.split)

lemma restart_wf_commands:
  "restart_wf (db\<lparr> commands := cs, command_seq := n, restart_agents := ms \<rparr>) = restart_wf (db\<lparr> restart_agents := ms \<rparr>)"
  by (simp add: restart_wf_def members_wf_def references_ok_def notices_wf_def)

lemma run_plan_kept: "kept db (run_plan x i now (restart_plan i now db) db)"
  unfolding kept_def
proof (intro impI conjI)
  let ?plan = "restart_plan i now db"
  assume wf: "restart_wf db"
  then have m: "members_wf db" by (simp add: restart_wf_def)
  then have dist: "distinct (map fst ?plan)" by (intro plan_distinct) (simp add: members_wf_def)
  note run = run_plan_writes [OF dist, of x i now db]
  have ok: "ra_resume_status a \<in> set resume_statuses \<and> patient a"
    if "a \<in> set (map (stamp_plan i now ?plan) (restart_agents db))" for a
    using that planned_patient [OF m] m by (auto simp: members_wf_def)
  have "restart_wf (db\<lparr> restart_agents := map (stamp_plan i now ?plan) (restart_agents db) \<rparr>)"
    by (rule restart_wf_members [OF wf]) (use ok in \<open>simp_all add: comp_def\<close>)
  then show "restart_wf (run_plan x i now ?plan db)"
    unfolding run restart_wf_commands .
  show "rows_forward db (run_plan x i now ?plan db)"
    unfolding run by (rule rows_forward_same) simp_all
qed

lemma mark_ready_kept: "kept db (mark_ready i db)"
  unfolding mark_ready_def
  by (rule kept_update_restart, rule row_step_phase) (auto simp: wf_row_typed restart_phases_def row_typed_def dest: wf_row_typed)

lemma stop_members_kept: "kept db (snd (stop_members x i now db))"
  unfolding stop_members_def Let_def snd_conv run_plan_def [symmetric]
  by (rule kept_trans [OF run_plan_kept mark_ready_kept])

lemma in_phase_row:
  assumes "restart_wf db" and "in_phase_of_boot db i ph boot" and "r \<in> set (restarts db)" and "r_id r = i"
  shows "r_phase r = ph \<and> r_boot_id r = boot"
proof -
  from assms(2) obtain q where q: "q \<in> set (restarts db)" "r_id q = i" "r_phase q = ph" "r_boot_id q = boot"
    by (auto simp: in_phase_of_boot_def list_ex_iff)
  have "q = r" using assms(1) q(1,2) assms(3,4) by (auto simp: restart_wf_def rows_wf_def distinct_map dest: inj_onD)
  with q show ?thesis by simp
qed

lemma advance_kept: "kept db (snd (advance_service_restart x i boot now db))"
  unfolding advance_service_restart_def
proof (rule commit_kept)
  fix n db' assume "bindr (clock_ns now) (\<lambda>now. advance_tx x i boot now db) = Inr (n, db')"
  then obtain k where a: "advance_tx x i boot k db = Inr (n, db')" by auto
  let ?db1 = "update_restart (\<lambda>r. r_id r = i) (\<lambda>r. r\<lparr> r_notice_wait := Some (wait_started k r) \<rparr>) db"
  have ph: "in_phase_of_boot db i ''preparing'' boot" using a by (simp add: advance_tx_def split: if_splits)
  have k1: "kept db ?db1"
  proof (rule kept_update_restart)
    fix r assume r: "restart_wf db" "r \<in> set (restarts db)" "r_id r = i"
    then have "r_phase r = ''preparing''" using in_phase_row [OF r(1) ph r(2,3)] by simp
    with wf_row_typed [OF r(1,2)] show "row_step r (r\<lparr> r_notice_wait := Some (wait_started k r) \<rparr>)"
      by (intro row_step_phase) (simp_all add: row_typed_def)
  qed
  consider "db' = snd (stop_members x i k db)" | "db' = ?db1" | "db' = snd (stop_members x i k ?db1)"
    using a by (auto simp: advance_tx_def Let_def split: if_splits)
  then show "kept db db'"
  proof cases
    case 1
    then show ?thesis using stop_members_kept by simp
  next
    case 2
    then show ?thesis using k1 by simp
  next
    case 3
    then show ?thesis using kept_trans [OF k1 stop_members_kept] by simp
  qed
qed

subsection \<open>Beginning a restart\<close>

definition opened :: "ext \<Rightarrow> string \<Rightarrow> rat \<Rightarrow> db \<Rightarrow> db" where
  "opened x request tm db =
     db\<lparr> restart_seq := Suc (restart_seq db),
        restarts := restarts db @ [\<lparr> r_id = Suc (restart_seq db), r_request_id = request, r_phase = ''preparing'',
          r_started_at = tm, r_boot_id = x_boot_id x, r_notice_wait = None, r_writer_epoch = writer_epoch db,
          r_finished_at = None \<rparr>],
        restart_agents := restart_agents db @ captured (Suc (restart_seq db)) db \<rparr>"

lemma captured_keys:
  "map member_key (captured i db) = map (Pair i) (map a_id (filter (\<lambda>a. active_agent a \<and> \<not> finish_accepted db (a_id a)) (agents db)))"
  by (simp add: captured_def member_key_def)

lemma captured_member: "a \<in> set (captured i db) \<Longrightarrow> ra_resume_status a \<in> set resume_statuses \<and> patient a \<and> ra_restart a = i"
  by (auto simp: captured_def resume_statuses_def patient_def split: if_splits)

lemma wf_bounds:
  assumes "restart_wf db"
  shows "r \<in> set (restarts db) \<Longrightarrow> r_id r \<le> restart_seq db"
    and "a \<in> set (restart_agents db) \<Longrightarrow> ra_restart a \<le> restart_seq db"
  using assms by (force simp: restart_wf_def rows_wf_def references_ok_def)+

lemma opened_members:
  assumes wf: "restart_wf db"
  shows "members_wf (opened x request tm db)"
proof -
  have old: "(Suc (restart_seq db), s) \<notin> member_key ` set (restart_agents db)" for s
    using wf_bounds(2) [OF wf] by (force simp: member_key_def)
  have "distinct (map member_key (captured (Suc (restart_seq db)) db))"
    using wf unfolding captured_keys by (simp add: distinct_map inj_on_def restart_wf_def)
  moreover have "member_key ` set (captured (Suc (restart_seq db)) db) \<subseteq> range (Pair (Suc (restart_seq db)))"
    unfolding set_map [symmetric] captured_keys by auto
  ultimately show ?thesis using wf captured_member [of _ "Suc (restart_seq db)" db] old
    by (auto simp: members_wf_def restart_wf_def opened_def)
qed

lemma opened_wf:
  assumes wf: "restart_wf db" and fresh: "request \<notin> r_request_id ` set (restarts db)"
    and idle: "\<not> list_ex (\<lambda>r. r_finished_at r = None) (restarts db)"
  shows "restart_wf (opened x request tm db) \<and> rows_forward db (opened x request tm db)"
proof
  have none: "filter (\<lambda>r. r_finished_at r = None) (restarts db) = []"
    using idle by (auto simp: list_ex_iff filter_empty_conv)
  have new: "Suc (restart_seq db) \<notin> r_id ` set (restarts db)" using wf_bounds(1) [OF wf] by force
  have "rows_wf (restarts (opened x request tm db)) (restart_seq (opened x request tm db))"
    using wf fresh new none by (auto simp: opened_def rows_wf_def restart_wf_def row_typed_def restart_phases_def le_SucI)
  moreover have "references_ok (opened x request tm db)"
    using wf captured_member [of _ "Suc (restart_seq db)" db] by (auto simp: opened_def references_ok_def restart_wf_def)
  ultimately show "restart_wf (opened x request tm db)"
    using wf opened_members [OF wf, of x request tm] by (simp add: restart_wf_def) (simp add: opened_def notices_wf_def)
  show "rows_forward db (opened x request tm db)"
    unfolding rows_forward_def by (auto simp: opened_def intro: row_forward_refl)
qed

lemma upserts_kept:
  assumes "i \<in> r_id ` set (restarts db)"
  shows "kept db (fold (\<lambda>(c, s). upsert_recipient i c s set_had_agents) ks db)"
  using assms
proof (induction ks arbitrary: db)
  case (Cons k ks)
  obtain c s where k: "k = (c, s)" by (cases k)
  have "kept db (upsert_recipient i c s set_had_agents db)"
    by (rule upsert_keeps(3) [OF recipient_flags(1) Cons.prems])
  moreover have "kept (upsert_recipient i c s set_had_agents db)
      (fold (\<lambda>(c, s). upsert_recipient i c s set_had_agents) ks (upsert_recipient i c s set_had_agents db))"
    by (rule Cons.IH) (simp only: upsert_frame Cons.prems)
  ultimately show ?case unfolding k fold.simps o_apply prod.case by (rule kept_trans)
qed simp

lemma begin_new_kept:
  assumes b: "begin_new x request tm db = Inr (i, db')"
  shows "kept (opened x request tm db) db' \<and> i = Suc (restart_seq db)"
proof -
  let ?i = "Suc (restart_seq db)"
  let ?db1 = "opened x request tm db"
  let ?db2 = "fold (\<lambda>(c, s). upsert_recipient ?i c s set_had_agents) (captured_recipients db (captured ?i db)) ?db1"
  have i: "i = ?i" and e: "enqueue_before x ?i (map recipient_key (filter rr_had_agents (recipients_of ?db2 ?i))) ?db2 = Inr db'"
    using b by (auto simp: begin_new_def Let_def opened_def [symmetric])
  have k: "kept ?db1 ?db2" by (rule upserts_kept) (simp add: opened_def)
  note q = enqueue_before_keeps [OF e]
  have "notices_wf db'" if "notices_wf ?db2"
  proof -
    have "(?i, c, s) \<in> recipient_row_key ` set (restart_recipients ?db2)"
      if "(c, s) \<in> set (map recipient_key (filter rr_had_agents (recipients_of ?db2 ?i)))" for c s
      using that by (force simp: recipients_of_def recipient_key_def recipient_row_key_def)
    with q that show ?thesis by (simp only:) blast
  qed
  with q have "kept ?db2 db'" using kept_announces by blast
  with k i show ?thesis using kept_trans by blast
qed

lemma begin_kept: "kept db (snd (begin_service_restart x request at_time db))"
proof -
  define tm where "tm = (case at_time of Finite tm \<Rightarrow> tm | NotFinite \<Rightarrow> 0)"
  have "kept db (snd (commit db (begin_tx x request tm db)))"
  proof (rule commit_kept)
    fix i db' assume b: "begin_tx x request tm db = Inr (i, db')"
    show "kept db db'"
    proof (cases "find (\<lambda>r. r_request_id r = request) (restarts db)")
      case None
      with b have n: "begin_new x request tm db = Inr (i, db')" and idle: "\<not> list_ex (\<lambda>r. r_finished_at r = None) (restarts db)"
        by (simp_all add: begin_tx_def split: if_splits)
      have "request \<notin> r_request_id ` set (restarts db)" using None by (auto simp: find_None_iff)
      then have "kept db (opened x request tm db)" unfolding kept_def using opened_wf idle by blast
      with begin_new_kept [OF n] kept_trans show ?thesis by blast
    qed (use b in \<open>simp add: begin_tx_def\<close>)
  qed
  then show ?thesis by (simp add: begin_service_restart_def tm_def)
qed

end
