(* ===== verification/RestartFacts.thy ===== *)
theory RestartFacts
  imports RestartRuns Sample
begin

text \<open>
  Properties of service restarts over every run of the store: the shape of the restart tables, the order of
  phases, the time a worker is given before it is stopped, and how a recovery ends.
\<close>

section \<open>Runs\<close>

text \<open>
  What the other components write to the restart tables: they resume and finish members (which sets the
  continuation and the status of a member), delete members with their agent, and delete finished restarts
  with their recipients and notices. They never touch a warning or an unfinished restart.
\<close>

definition stamps :: "restart_agent_row \<Rightarrow> nat \<times> string \<times> nat option \<times> nat option \<times> nat option" where
  "stamps a = (ra_restart a, ra_agent a, ra_first_notice a, ra_second_notice a, ra_force_requested a)"

definition elsewhere :: "db \<Rightarrow> db \<Rightarrow> bool" where
  "elsewhere db db' \<longleftrightarrow>
     restart_seq db' = restart_seq db
     \<and> subseq (restarts db') (restarts db) \<and> (\<forall>r \<in> set (restarts db). r_finished_at r = None \<longrightarrow> r \<in> set (restarts db'))
     \<and> subseq (map stamps (restart_agents db')) (map stamps (restart_agents db))
     \<and> (\<forall>a \<in> set (restart_agents db'). ra_resume_status a \<in> set resume_statuses)
     \<and> subseq (restart_recipients db') (restart_recipients db) \<and> subseq (restart_notices db') (restart_notices db)
     \<and> references_ok db'
     \<and> (\<forall>n \<in> set (restart_notices db').
          (rn_restart n, rn_transport n, rn_external n) \<in> recipient_row_key ` set (restart_recipients db'))
     \<and> distinct (map a_id (agents db'))"

inductive restart_move :: "db \<Rightarrow> db \<Rightarrow> bool" where
  Begin: "restart_move db (snd (begin_service_restart x request at_time db))"
| Remember: "restart_move db (snd (remember_service_restart_caller x i r db))"
| Claim: "restart_move db (snd (claim_service_restart i db))"
| Recover: "restart_move db (snd (recover_service_restart x db))"
| Recover_After_Failure: "restart_move db (snd (recover_service_restart_after_failure x i db))"
| Request: "restart_move db (snd (request_service_restart_resume i agent boot now db))"
| Refuse: "restart_move db (snd (fail_service_restart_resume i agent reason db))"
| Refresh: "restart_move db (snd (refresh_service_restart x i boot now at_time db))"
| Advance: "restart_move db (snd (advance_service_restart x i boot now db))"
| Bind: "bind_captured_agent x agent sid r db = Inr db' \<Longrightarrow> restart_move db db'"
| Elsewhere: "elsewhere db db' \<Longrightarrow> restart_move db db'"

lemma subseq_facts:
  assumes "subseq xs ys"
  shows "set xs \<subseteq> set ys" "distinct (map f ys) \<Longrightarrow> distinct (map f xs)" "length (filter P xs) \<le> length (filter P ys)"
proof -
  from assms obtain N where N: "xs = nths ys N" by (auto simp: subseq_conv_nths)
  then show "set xs \<subseteq> set ys" "distinct (map f ys) \<Longrightarrow> distinct (map f xs)"
    by (simp_all add: set_nths_subset nths_map [symmetric] distinct_nthsI)
  show "length (filter P xs) \<le> length (filter P ys)" using assms by (intro list_emb_length) (rule subseq_filter)
qed

lemma patient_stamps: "stamps a = stamps b \<Longrightarrow> patient a = patient b"
  by (simp add: stamps_def patient_def)

lemma elsewhere_rows:
  assumes "subseq rs' rs" and "rows_wf rs seq"
  shows "rows_wf rs' seq"
  using subseq_facts(1) [OF assms(1)] subseq_facts(2) [OF assms(1), of r_id] subseq_facts(2) [OF assms(1), of r_request_id]
    subseq_facts(3) [OF assms(1), of "\<lambda>r. r_finished_at r = None"] assms(2)
  by (simp add: rows_wf_def subset_iff)

lemma elsewhere_members:
  assumes "subseq (map stamps (restart_agents db')) (map stamps (restart_agents db))" and "members_wf db"
    and "\<forall>a \<in> set (restart_agents db'). ra_resume_status a \<in> set resume_statuses"
  shows "members_wf db'"
proof -
  have "patient a" if "a \<in> set (restart_agents db')" for a
  proof -
    have "stamps a \<in> stamps ` set (restart_agents db)" using subseq_facts(1) [OF assms(1)] that by auto
    then obtain b where b: "stamps a = stamps b" "b \<in> set (restart_agents db)" by blast
    with assms(2) show ?thesis unfolding patient_stamps [OF b(1)] members_wf_def by blast
  qed
  moreover have k: "map member_key as = map (\<lambda>s. (fst s, fst (snd s))) (map stamps as)" for as
    by (simp add: member_key_def stamps_def)
  have "distinct (map member_key (restart_agents db'))"
    unfolding k by (rule subseq_facts(2) [OF assms(1)]) (use assms(2) in \<open>simp only: members_wf_def k [symmetric]\<close>)
  ultimately show ?thesis using assms(3) by (simp add: members_wf_def)
qed

lemma elsewhere_notices:
  assumes "subseq (restart_notices db') (restart_notices db)" and "notices_wf db"
    and "\<forall>n \<in> set (restart_notices db').
      (rn_restart n, rn_transport n, rn_external n) \<in> recipient_row_key ` set (restart_recipients db')"
  shows "notices_wf db'"
  using subseq_facts(1) [OF assms(1)] subseq_facts(2) [OF assms(1), of notice_key] assms(2,3)
  unfolding notices_wf_def by (auto simp: notice_key_def)

lemma elsewhere_kept:
  assumes e: "elsewhere db db'"
  shows "kept db db'"
  unfolding kept_def
proof (intro impI conjI)
  assume wf: "restart_wf db"
  have "distinct (map recipient_row_key (restart_recipients db'))"
    using subseq_facts(2) [of "restart_recipients db'" "restart_recipients db" recipient_row_key] e wf
    by (simp add: elsewhere_def restart_wf_def)
  with e wf show "restart_wf db'"
    using elsewhere_rows elsewhere_members elsewhere_notices unfolding restart_wf_def elsewhere_def by (elim conjE) metis
  have "subseq (restarts db') (restarts db)" "restart_seq db' = restart_seq db" using e by (simp_all add: elsewhere_def)
  with subseq_facts(1) [OF this(1)] show "rows_forward db db'"
    unfolding rows_forward_def by (intro conjI ballI impI) (simp, rule bexI [where x = r' for r'], rule row_forward_refl, blast)
qed

lemma move_kept: "restart_move db db' \<Longrightarrow> kept db db'"
  by (induction rule: restart_move.induct)
    (simp_all add: begin_kept remember_kept claim_kept recover_service_restart_def recover_service_restart_after_failure_def
      recover_kept request_kept fail_kept refresh_kept advance_kept bind_agent_kept elsewhere_kept)

lemma run_kept: "restart_move\<^sup>*\<^sup>* db db' \<Longrightarrow> kept db db'"
  by (induction rule: rtranclp_induct) (use move_kept kept_trans in \<open>auto\<close>)

lemma sample_restart_wf: "restart_wf sample_db"
  by (simp add: restart_wf_def rows_wf_def members_wf_def references_ok_def notices_wf_def sample_db_def)

lemma forward_row:
  assumes wf: "restart_wf a" and fw: "rows_forward a b" and r: "r \<in> set (restarts a)" "r' \<in> set (restarts b)" "r_id r = r_id r'"
  shows "row_forward r r'"
proof -
  have "r_id r' \<le> restart_seq a" using wf_bounds(1) [OF wf r(1)] r(3) by simp
  then obtain q where q: "q \<in> set (restarts a)" "row_forward q r'" using fw r(2) unfolding rows_forward_def by blast
  then have "r_id q = r_id r" using r(3) by (simp add: row_forward_def)
  moreover have "inj_on r_id (set (restarts a))" using wf by (simp add: restart_wf_def rows_wf_def distinct_map)
  ultimately have "q = r" using q(1) r(1) by (meson inj_onD)
  with q show ?thesis by simp
qed

section \<open>The tables and the phases\<close>

text \<open>
  C18 (type). The restart tables keep their type in every run: whatever sequence of restart operations and of
  writes by the other components happens, every phase and every member status is one the schema admits, a
  restart is complete exactly when it has an end time, at most one restart is unfinished, the keys of
  restarts, members, recipients and notices are unique, every reference is to an existing row, and the
  warnings of a member stand in order. So no insert or update of these operations can violate a constraint
  of the schema.
\<close>

theorem restart_typed:
  assumes "restart_wf db" and "restart_move\<^sup>*\<^sup>* db db'"
  shows "restart_wf db'"
  using run_kept [OF assms(2)] assms(1) by (simp add: kept_def)

theorem restart_typed_witness:
  "restart_wf (snd (begin_service_restart sample_ext ''q'' (Finite 0) sample_db))"
  by (rule restart_typed [OF sample_restart_wf]) (rule r_into_rtranclp, rule Begin)

text \<open>
  C14 (safety). The service manager is asked to restart the broker at most once per restart: after one caller
  claimed a restart, no later claim of it succeeds, whatever happens in between. A restart moves through
  preparing, ready, requesting, recovering and complete in this direction only, under a fixed identity,
  request and writer epoch; a finished restart never changes again, and no later restart gets its number.
\<close>

theorem restart_claimed_once:
  assumes wf: "restart_wf db" and claim: "claim_service_restart i db = (Inr True, db1)" and run: "restart_move\<^sup>*\<^sup>* db1 db2"
  shows "fst (claim_service_restart i db2) = Inr False
    \<and> (\<forall>r \<in> set (restarts db). \<forall>r' \<in> set (restarts db2). r_id r = r_id r' \<longrightarrow> row_forward r r')"
proof -
  have db1: "db1 = snd (claim_service_restart i db)" using claim by simp
  have k1: "restart_wf db1" "rows_forward db db1"
    using claim_kept [of db i] wf unfolding db1 kept_def by blast+
  have k2: "restart_wf db2" "rows_forward db1 db2" using run_kept [OF run] k1(1) by (simp_all add: kept_def)
  have none: "\<not> claimable i db2 r'" if r': "r' \<in> set (restarts db2)" for r'
  proof
    assume c: "claimable i db2 r'"
    have "filter (claimable i db) (restarts db) \<noteq> []" using claim by (auto simp: claim_service_restart_def)
    then obtain r where r: "r \<in> set (restarts db)" "claimable i db r" by (auto simp: filter_empty_conv)
    let ?r1 = "r\<lparr> r_phase := ''requesting'' \<rparr>"
    have "?r1 \<in> set (restarts db1)" using r by (force simp: db1 claim_service_restart_def update_restart_def)
    moreover have "r_id ?r1 = r_id r'" using r c by (simp add: claimable_def)
    ultimately have "row_forward ?r1 r'" using forward_row [OF k1(1) k2(2)] r' by blast
    then show False using c by (simp add: row_forward_def claimable_def)
  qed
  then have "filter (claimable i db2) (restarts db2) = []" by (simp add: filter_empty_conv)
  moreover have "rows_forward db db2" by (rule rows_forward_trans [OF k1(2) k2(2)])
  ultimately show ?thesis using forward_row [OF wf] by (simp add: claim_service_restart_def)
qed

definition ready_db :: db where
  "ready_db = sample_db\<lparr> restart_seq := 1, writer_epoch := Some 1, restarts :=
     [\<lparr> r_id = 1, r_request_id = ''q'', r_phase = ''ready'', r_started_at = 0, r_boot_id = ''b'', r_notice_wait = None,
        r_writer_epoch = Some 1, r_finished_at = None \<rparr>] \<rparr>"

lemma ready_restart_wf: "restart_wf ready_db"
  by (simp add: ready_db_def restart_wf_def rows_wf_def members_wf_def references_ok_def notices_wf_def row_typed_def
      restart_phases_def sample_db_def)

theorem restart_claimed_once_witness:
  "fst (claim_service_restart 1 ready_db) = Inr True
   \<and> fst (claim_service_restart 1 (snd (recover_service_restart sample_ext (snd (claim_service_restart 1 ready_db))))) = Inr False"
proof
  show c: "fst (claim_service_restart 1 ready_db) = Inr True"
    by (simp add: claim_service_restart_def claimable_def ready_db_def)
  have "restart_move\<^sup>*\<^sup>* (snd (claim_service_restart 1 ready_db))
      (snd (recover_service_restart sample_ext (snd (claim_service_restart 1 ready_db))))"
    by (rule r_into_rtranclp, rule Recover)
  then show "fst (claim_service_restart 1 (snd (recover_service_restart sample_ext (snd (claim_service_restart 1 ready_db))))) = Inr False"
    using restart_claimed_once [OF ready_restart_wf, of 1 "snd (claim_service_restart 1 ready_db)"] c
    by (metis prod.collapse)
qed

section \<open>Patience\<close>

lemma update_restart_reads [simp]:
  "restart_plan i now (update_restart P f db) = restart_plan i now db"
  "members_wf (update_restart P f db) = members_wf db" "commands (update_restart P f db) = commands db"
proof -
  have "stoppable i (update_restart P f db) = stoppable i db" by (rule ext) (simp add: stoppable_def update_restart_def)
  then show "restart_plan i now (update_restart P f db) = restart_plan i now db"
    by (simp add: restart_plan_def finish_accepted_def finish_seen_def) (simp add: update_restart_def)
qed (simp_all add: members_wf_def update_restart_def)

lemma stop_members_commands:
  assumes "members_wf db" and "stop_members x i now db = (n, db')"
  shows "n = length (restart_plan i now db) \<and> (\<exists>ns. length ns = n
    \<and> commands db' = commands db @ map2 (plan_command x i) (restart_plan i now db) ns)"
proof -
  have "distinct (map fst (restart_plan i now db))"
    using assms(1) by (intro plan_distinct) (simp add: members_wf_def)
  note run = run_plan_writes [OF this, of x i now db, unfolded run_plan_def]
  show ?thesis using assms(2) unfolding stop_members_def Let_def run
    by (auto simp: mark_ready_def simp del: upt_Suc intro!: exI [of _ "[Suc (command_seq db)..<Suc (command_seq db + n)]"])
qed

lemma advance_commands:
  assumes wf: "restart_wf db" and a: "advance_service_restart x i boot now db = (Inr n, db')"
  shows "(n = 0 \<and> commands db' = commands db)
    \<or> (n = length (restart_plan i now db) \<and> (\<exists>ns. length ns = n
         \<and> commands db' = commands db @ map2 (plan_command x i) (restart_plan i now db) ns))"
proof -
  let ?db1 = "update_restart (\<lambda>r. r_id r = i) (\<lambda>r. r\<lparr> r_notice_wait := Some (wait_started now r) \<rparr>) db"
  have m: "members_wf db" using wf by (simp add: restart_wf_def)
  have t: "advance_tx x i boot now db = Inr (n, db')"
    using a by (auto simp: advance_service_restart_def commit_def clock_ns_def split: sum.splits if_splits)
  consider "stop_members x i now db = (n, db')" | "n = 0 \<and> db' = ?db1" | "stop_members x i now ?db1 = (n, db')"
    using t by (auto simp: advance_tx_def Let_def split: if_splits)
  then show ?thesis
  proof cases
    case 1
    with stop_members_commands [OF m 1] show ?thesis by blast
  next
    case 3
    have "members_wf ?db1" using m by simp
    from stop_members_commands [OF this 3] show ?thesis unfolding update_restart_reads by (rule disjI2)
  qed simp
qed

lemma plan_patience:
  assumes "patient a" and "restart_decision now (ra_first_notice a) (ra_second_notice a) (ra_force_requested a) fin rf = Some st"
  shows "case st of
      FirstNotice \<Rightarrow> ra_first_notice a = None
    | SecondNotice \<Rightarrow> \<exists>f. ra_first_notice a = Some f \<and> f + 30000000000 \<le> now
    | ForceStop \<Rightarrow> \<exists>f. ra_first_notice a = Some f \<and> f + 60000000000 \<le> now"
  using assms by (cases st)
    (auto simp: patient_def restart_decision_def elapsed_def WARNING_DELAY_NS_def split: option.splits if_splits)

text \<open>
  C15 (bounds). A worker is never stopped without warning: in every run, the commands one pass of the restart
  queues are counted exactly, each goes to a captured member that was not cancelled before the restart and
  still works, and a cancel is queued only sixty seconds or more after that member's first warning was
  recorded, a second warning only thirty seconds or more after the first, a first warning only once.
\<close>

theorem stop_after_warning:
  assumes "restart_wf db0" and "restart_move\<^sup>*\<^sup>* db0 db"
    and a: "advance_service_restart x i boot now db = (Inr n, db')"
  shows "\<exists>new. commands db' = commands db @ new \<and> length new = n
    \<and> (\<forall>c \<in> set new. \<exists>m \<in> set (restart_agents db). member_key m = (i, c_agent c) \<and> stoppable i db m
         \<and> ((c_kind c = ''cancel'' \<and> (\<exists>f. ra_first_notice m = Some f \<and> f + 60000000000 \<le> now))
            \<or> (c_kind c = ''steer''
               \<and> (case ra_first_notice m of None \<Rightarrow> True | Some f \<Rightarrow> f + 30000000000 \<le> now))))"
proof -
  have wf: "restart_wf db" using run_kept [OF assms(2)] assms(1) by (simp add: kept_def)
  from advance_commands [OF wf a] show ?thesis
  proof (elim disjE conjE exE)
    assume "n = 0" "commands db' = commands db"
    then show ?thesis by simp
  next
    fix ns assume n: "n = length (restart_plan i now db)" "length ns = n"
      and c: "commands db' = commands db @ map2 (plan_command x i) (restart_plan i now db) ns"
    have "\<exists>m \<in> set (restart_agents db). member_key m = (i, c_agent c) \<and> stoppable i db m
         \<and> ((c_kind c = ''cancel'' \<and> (\<exists>f. ra_first_notice m = Some f \<and> f + 60000000000 \<le> now))
            \<or> (c_kind c = ''steer''
               \<and> (case ra_first_notice m of None \<Rightarrow> True | Some f \<Rightarrow> f + 30000000000 \<le> now)))"
      if "c \<in> set (map2 (plan_command x i) (restart_plan i now db) ns)" for c
    proof -
      from that obtain agent st k where p: "(agent, st) \<in> set (restart_plan i now db)" "c = plan_command x i (agent, st) k"
        by (auto dest: set_zip_leftD)
      from plan_decision [OF p(1)] obtain m where m: "m \<in> set (restart_agents db)" "member_key m = (i, agent)"
        "stoppable i db m" and d: "restart_decision now (ra_first_notice m) (ra_second_notice m) (ra_force_requested m)
          (finish_accepted db agent) (finish_seen db i agent) = Some st" by blast
      have "patient m" using wf_member [OF wf m(1)] by simp
      from plan_patience [OF this d] m p(2) show ?thesis
        by (intro bexI [of _ m]) (cases st; auto simp: plan_command_def)+
    qed
    with n c show ?thesis by (intro exI [of _ "map2 (plan_command x i) (restart_plan i now db) ns"]) simp
  qed
qed

definition sample_captured :: restart_agent_row where
  "sample_captured = \<lparr> ra_restart = 1, ra_agent = ag_a, ra_session = Some ''s'', ra_cancelled_before = False,
     ra_first_notice = Some 0, ra_second_notice = Some 30000000000, ra_force_requested = None, ra_resume_requested = None,
     ra_resumed_execution = None, ra_resume_status = ''pending'', ra_resume_error = None \<rparr>"

definition warned_db :: db where
  "warned_db = ready_db\<lparr> restarts := map (\<lambda>r. r\<lparr> r_phase := ''preparing'' \<rparr>) (restarts ready_db),
     restart_agents := [sample_captured] \<rparr>"

lemma warned_restart_wf: "restart_wf warned_db"
  by (simp add: warned_db_def ready_db_def sample_captured_def restart_wf_def rows_wf_def members_wf_def references_ok_def
      notices_wf_def row_typed_def restart_phases_def resume_statuses_def patient_def sample_db_def)

lemma warned_plan: "restart_plan 1 60000000000 warned_db = [(ag_a, ForceStop)]"
  by (simp add: restart_plan_def warned_db_def ready_db_def sample_captured_def stoppable_def finish_accepted_def sample_db_def
      finish_seen_def restart_decision_def elapsed_def WARNING_DELAY_NS_def map_filter_simps)

lemma warned_advance:
  "\<exists>db'. advance_service_restart sample_ext 1 ''b'' 60000000000 warned_db = (Inr (Suc 0), db')"
proof -
  have "in_phase_of_boot warned_db 1 ''preparing'' ''b''" "\<not> awaiting_notice 1 warned_db"
    by (simp_all add: in_phase_of_boot_def awaiting_notice_def warned_db_def ready_db_def sample_db_def)
  then show ?thesis
    by (simp add: advance_service_restart_def clock_ns_def advance_tx_def stop_members_def warned_plan [simplified] Let_def)
qed

theorem stop_after_warning_witness:
  "\<exists>db' c m f. advance_service_restart sample_ext 1 ''b'' 60000000000 warned_db = (Inr 1, db')
     \<and> commands db' = [c] \<and> m \<in> set (restart_agents warned_db) \<and> member_key m = (1, c_agent c)
     \<and> ra_first_notice m = Some f \<and> f + 30000000000 \<le> 60000000000"
proof -
  obtain db' where a: "advance_service_restart sample_ext 1 ''b'' 60000000000 warned_db = (Inr 1, db')"
    using warned_advance by auto
  from stop_after_warning [OF warned_restart_wf rtranclp.rtrancl_refl a] obtain new m c
    where n: "commands db' = commands warned_db @ new" "new = [c]"
    and m: "m \<in> set (restart_agents warned_db)" "member_key m = (1, c_agent c)"
      "(\<exists>f. ra_first_notice m = Some f \<and> f + 60000000000 \<le> 60000000000)
       \<or> (case ra_first_notice m of None \<Rightarrow> True | Some f \<Rightarrow> f + 30000000000 \<le> 60000000000)"
    by (auto simp: length_Suc_conv)
  moreover have "m = sample_captured" using m(1) by (simp add: warned_db_def)
  ultimately show ?thesis using a
    by (intro exI [of _ db'] exI [of _ c] exI [of _ m] exI [of _ 0])
      (simp add: warned_db_def ready_db_def sample_db_def sample_captured_def)
qed

section \<open>The barrier and the end of a recovery\<close>

lemma only_active:
  assumes wf: "restart_wf db" and r: "r \<in> set (restarts db)" "r_finished_at r = None"
  shows "active_service_restart db = Some (r_id r)"
    and "q \<in> set (restarts db) \<Longrightarrow> r_finished_at q = None \<Longrightarrow> q = r"
proof -
  let ?u = "filter (\<lambda>r. r_finished_at r = None) (restarts db)"
  have "length ?u \<le> 1" using wf by (simp add: restart_wf_def rows_wf_def)
  moreover have "r \<in> set ?u" using r by simp
  ultimately have u: "?u = [r]" by (cases ?u) (auto simp: Suc_le_eq)
  then have "set ?u = {r}" by simp
  then show "q \<in> set (restarts db) \<Longrightarrow> r_finished_at q = None \<Longrightarrow> q = r" unfolding set_filter by blast
  have "find P xs = (case filter P xs of [] \<Rightarrow> None | y # _ \<Rightarrow> Some y)" for P and xs :: "restart_row list"
    by (induction xs) auto
  with u show "active_service_restart db = Some (r_id r)" by (simp add: active_service_restart_def)
qed

lemma recovering_row:
  assumes "restart_wf db" and "in_phase_of_boot db i ''recovering'' boot"
  obtains r where "r \<in> set (restarts db)" "r_id r = i" "r_phase r = ''recovering''" "r_finished_at r = None"
proof -
  from assms(2) obtain r where r: "r \<in> set (restarts db)" "r_id r = i" "r_phase r = ''recovering''"
    by (auto simp: in_phase_of_boot_def list_ex_iff)
  moreover have "row_typed r" using wf_row_typed [OF assms(1) r(1)] .
  ultimately show ?thesis by (intro that [of r]) (auto simp: row_typed_def)
qed

lemma closed_idle:
  assumes wf: "restart_wf db" and r: "r \<in> set (restarts db)" "r_phase r = ''recovering''" "r_finished_at r = None"
  shows "active_service_restart (close_restart (r_id r) tm db) = None"
proof -
  let ?g = "\<lambda>q. if r_id q = r_id r \<and> r_phase q = ''recovering'' then q\<lparr> r_phase := ''complete'', r_finished_at := Some tm \<rparr> else q"
  have "r_finished_at (?g q) \<noteq> None" if "q \<in> set (restarts db)" for q
    using only_active(2) [OF wf r(1,3) that] r by (cases "r_finished_at q") auto
  then have "find (\<lambda>q. r_finished_at q = None) (map ?g (restarts db)) = None"
    unfolding find_None_iff set_map by blast
  then show ?thesis by (simp add: active_service_restart_def close_restart_def update_restart_def)
qed

lemma refresh_tx_of:
  assumes "refresh_service_restart x i boot now (Finite tm) db = (Inr b, db')"
  shows "refresh_tx x i boot now tm db = Inr (b, db')"
  using assms by (auto simp: refresh_service_restart_def clock_ns_def commit_def split: sum.splits if_splits)

text \<open>
  C19 (functional). A recovery ends exactly when every captured worker has a result, and it reopens admissions:
  when the refresh answers true, no restart is active any more, so starts are admitted again, no member of
  the restart is still pending, and every recipient of the restart has its result notice queued; when it
  answers false, starts stay refused with this restart's number.
\<close>

theorem recovery_reopens:
  assumes wf: "restart_wf db" and r: "refresh_service_restart x i boot now (Finite tm) db = (Inr done_now, db')"
  shows "require_admissions_open db' = (if done_now then Inr () else Inl (Transition (blocked_message i)))
    \<and> (done_now \<longleftrightarrow> \<not> unresolved i db')
    \<and> (done_now \<longrightarrow> (\<forall>m \<in> set (restart_agents db'). ra_restart m = i \<longrightarrow> ra_resume_status m \<noteq> ''pending'')
         \<and> (\<forall>q \<in> set (recipients_of db' i). notice_of db' i (rr_transport q) (rr_external q) ''after'' \<noteq> None))"
proof -
  note t = refresh_tx_of [OF r]
  have ph: "in_phase_of_boot db i ''recovering'' boot" using t by (simp add: refresh_tx_def split: if_splits)
  from t ph obtain db1 where m: "refresh_members i now (awaiting_rows i db) db = Inr db1"
    and o: "(done_now = False \<and> unresolved i db1 \<and> db' = db1)
      \<or> (done_now = True \<and> \<not> unresolved i db1 \<and> (\<exists>db2. queue_restart_results x i db1 = Inr db2 \<and> db' = close_restart i tm db2))"
    by (auto simp: refresh_tx_def split: if_splits)
  note f = refresh_members_kept [OF m]
  have wf1: "restart_wf db1" using f wf by (simp add: kept_def)
  obtain q where q: "q \<in> set (restarts db)" "r_id q = i" "r_phase q = ''recovering''" "r_finished_at q = None"
    by (rule recovering_row [OF wf ph])
  have q1: "q \<in> set (restarts db1)" using q(1) f by simp
  from o show ?thesis
  proof (elim disjE conjE exE)
    assume d: "done_now = False" "unresolved i db1" "db' = db1"
    with only_active(1) [OF wf1 q1 q(4)] q(2) show ?thesis by (simp add: require_admissions_open_def)
  next
    fix db2 assume d: "done_now = True" "\<not> unresolved i db1" "queue_restart_results x i db1 = Inr db2" "db' = close_restart i tm db2"
    note k = queue_restart_results_kept [OF d(3)]
    have s: "restarts db2 = restarts db1" "restart_agents db2 = restart_agents db1" "agents db2 = agents db1"
      "restart_recipients db2 = restart_recipients db1" using k by (simp_all add: announces_def same_restart_def)
    have wf2: "restart_wf db2" using k wf1 by (simp add: kept_def)
    have "active_service_restart db' = None"
      using closed_idle [OF wf2, of q tm] q q1 s(1) d(4) by simp
    moreover have u: "unresolved i db' = unresolved i db1"
      by (simp add: unresolved_def d(4) close_restart_def update_restart_def s)
    moreover have "ra_resume_status m \<noteq> ''pending''" if "m \<in> set (restart_agents db')" "ra_restart m = i" for m
      using d(2) that by (auto simp: unresolved_def list_ex_iff d(4) close_restart_def update_restart_def s)
    moreover have "notice_of db' i (rr_transport p) (rr_external p) ''after'' \<noteq> None" if "p \<in> set (recipients_of db' i)" for p
    proof -
      have "p \<in> set (recipients_of db1 i)"
        using that by (simp add: recipients_of_def d(4) close_restart_def update_restart_def s)
      then have "(i, rr_transport p, rr_external p, ''after'') \<in> notice_key ` set (restart_notices db2)"
        using queue_results_keeps [OF d(3) [unfolded queue_restart_results_def]] by (auto simp: recipient_key_def)
      then have "notice_of db2 i (rr_transport p) (rr_external p) ''after'' \<noteq> None" by (simp only: notice_of_None_iff) simp
      then show ?thesis by (simp add: notice_of_def d(4) close_restart_def update_restart_def)
    qed
    ultimately show ?thesis using d by (simp add: require_admissions_open_def)
  qed
qed

text \<open>A recipient whose reference is valid can always be told.\<close>

definition reachable_recipient :: "string \<Rightarrow> string \<Rightarrow> bool" where
  "reachable_recipient carrier session \<longleftrightarrow>
     validate_ref \<lparr> transport = carrier, external_session_id = session, external_turn_id = None \<rparr> = Inr ()"

lemma session_for_ok:
  assumes "validate_ref r = Inr ()"
  shows "\<exists>sid db'. session_for_reference x db r tm = Inr (sid, db')"
proof -
  obtain c where c: "canonical_transport r = Inr c" using assms by (auto simp: validate_ref_def)
  then obtain l where "legacy_transport r = Inr l" by (simp add: legacy_transport_def)
  with assms c show ?thesis
    by (auto simp: session_for_reference_def session_id_for_reference_def session_ids_for_reference_def Let_def split: list.split)
qed

lemma enqueue_ok:
  assumes "reachable_recipient carrier session"
  shows "\<exists>db'. enqueue_notice x i carrier session st msg db = Inr db'"
proof (cases "notice_of db i carrier session st")
  case None
  from session_for_ok [OF assms [unfolded reachable_recipient_def]] obtain sid db1 where
    "session_for_reference x db \<lparr> transport = carrier, external_session_id = session, external_turn_id = None \<rparr> (x_now x) = Inr (sid, db1)"
    by blast
  with None show ?thesis by (simp add: enqueue_notice_def Let_def)
qed (simp add: enqueue_notice_def)

lemma queue_results_ok:
  assumes "\<forall>(carrier, session) \<in> set rs. reachable_recipient carrier session"
  shows "\<exists>db'. queue_results x i rs db = Inr db'"
  using assms
proof (induction rs arbitrary: db)
  case (Cons k rs)
  obtain carrier session where k: "k = (carrier, session)" by (cases k)
  have "reachable_recipient carrier session" using Cons.prems k by simp
  then obtain db1 where "queue_restart_result x i carrier session db = Inr db1"
    using enqueue_ok unfolding queue_restart_result_def Let_def by blast
  moreover obtain db' where "queue_results x i rs db1 = Inr db'" using Cons.IH [of db1] Cons.prems by auto
  ultimately show ?case by (simp add: k)
qed simp

text \<open>After a minute without confirmation every awaited member gets a result.\<close>

lemma record_outcome_rows:
  assumes "m \<in> set (restart_agents (record_outcome i agent (resume_outcome seen waited) db))"
    and "ra_resume_status m \<in> {''pending'', ''cancelled''}"
  shows "m \<in> set (restart_agents db)"
    and "RESUME_CONFIRM_NS \<le> waited \<Longrightarrow> \<not> (ra_restart m = i \<and> ra_agent m = agent \<and> ra_resume_status m = ''pending'')"
proof -
  have late: "resume_outcome seen waited \<noteq> None" if "RESUME_CONFIRM_NS \<le> waited"
    using that by (simp add: resume_outcome_def split: prod.split)
  have "m \<in> set (restart_agents db) \<and> (RESUME_CONFIRM_NS \<le> waited \<longrightarrow>
      \<not> (ra_restart m = i \<and> ra_agent m = agent \<and> ra_resume_status m = ''pending''))"
  proof (cases "resume_outcome seen waited")
    case (Some out)
    obtain st reason where out: "out = (st, reason)" by (cases out)
    with Some resume_outcome_status have "st \<in> {''started'', ''failed'', ''unconfirmed''}" by blast
    with assms Some out show ?thesis by (auto simp: record_outcome_def update_members_def)
  qed (use assms late in \<open>auto simp: record_outcome_def\<close>)
  then show "m \<in> set (restart_agents db)"
    "RESUME_CONFIRM_NS \<le> waited \<Longrightarrow> \<not> (ra_restart m = i \<and> ra_agent m = agent \<and> ra_resume_status m = ''pending'')" by blast+
qed

lemma refresh_members_rows:
  assumes "refresh_members i now rows db = Inr db'"
    and "m \<in> set (restart_agents db')" and "ra_resume_status m \<in> {''pending'', ''cancelled''}"
  shows "m \<in> set (restart_agents db)
    \<and> ((\<forall>a \<in> set rows. \<exists>t. ra_resume_requested a = Some t \<and> t + 60000000000 \<le> now) \<longrightarrow>
         ra_restart m = i \<longrightarrow> ra_resume_status m = ''pending'' \<longrightarrow> ra_agent m \<notin> ra_agent ` set rows)"
  using assms
proof (induction rows arbitrary: db)
  case (Cons a rows)
  let ?w = "elapsed now (case ra_resume_requested a of Some t \<Rightarrow> t | None \<Rightarrow> 0)"
  from Cons.prems(1) obtain seen where r: "refresh_members i now rows
      (record_outcome i (ra_agent a) (resume_outcome seen ?w) db) = Inr db'" by auto
  note ih = Cons.IH [OF r Cons.prems(2,3)]
  note one = record_outcome_rows [OF conjunct1 [OF ih] Cons.prems(3)]
  have "RESUME_CONFIRM_NS \<le> ?w" if "\<exists>t. ra_resume_requested a = Some t \<and> t + 60000000000 \<le> now"
    using that by (auto simp: elapsed_def RESUME_CONFIRM_NS_def)
  with ih one show ?case by auto
qed simp

lemma refresh_members_ok:
  assumes "\<forall>a \<in> set rows. \<forall>c. ra_resumed_execution a = Some c \<longrightarrow> agent_by_id db c \<noteq> None"
  shows "\<exists>db'. refresh_members i now rows db = Inr db'"
  using assms
proof (induction rows arbitrary: db)
  case (Cons a rows)
  have "\<exists>seen. continuation_seen db (ra_resumed_execution a) = Inr seen"
    using Cons.prems by (auto simp: continuation_seen_def split: option.split)
  then obtain seen where s: "continuation_seen db (ra_resumed_execution a) = Inr seen" by blast
  let ?db = "record_outcome i (ra_agent a)
    (resume_outcome seen (elapsed now (case ra_resume_requested a of Some t \<Rightarrow> t | None \<Rightarrow> 0))) db"
  have "agent_by_id ?db c = agent_by_id db c" for c by (simp add: agent_by_id_def record_outcome_frame)
  then obtain db' where "refresh_members i now rows ?db = Inr db'" using Cons.IH [of ?db] Cons.prems by auto
  with s show ?case by simp
qed simp

text \<open>
  C16 (liveness). A recovery never hangs on a worker that does not answer: once sixty seconds have passed since
  every pending member was asked to resume, one refresh on the recorded boot answers true, whatever the
  continuations report, as long as the continuations it must look at exist, the cancelled members' own
  continuations have ended, and the recipients have valid references.
\<close>

theorem recovery_ends:
  assumes wf: "restart_wf db" and ph: "in_phase_of_boot db i ''recovering'' boot" and "now < 2 ^ 63" and "0 \<le> tm"
    and asked: "\<forall>m \<in> set (restart_agents db). ra_restart m = i \<longrightarrow> ra_resume_status m = ''pending'' \<longrightarrow>
      (\<exists>t. ra_resume_requested m = Some t \<and> t + 60000000000 \<le> now)
      \<and> (\<forall>c. ra_resumed_execution m = Some c \<longrightarrow> agent_by_id db c \<noteq> None)"
    and ended: "\<forall>m \<in> set (restart_agents db). ra_restart m = i \<longrightarrow> ra_resume_status m = ''cancelled'' \<longrightarrow>
      (\<forall>c \<in> set (agents db). Some (a_id c) = ra_resumed_execution m \<longrightarrow> terminal (a_status c))"
    and told: "\<forall>q \<in> set (recipients_of db i). reachable_recipient (rr_transport q) (rr_external q)"
  shows "\<exists>db'. refresh_service_restart x i boot now (Finite tm) db = (Inr True, db')"
proof -
  let ?rows = "awaiting_rows i db"
  have rows: "\<forall>a \<in> set ?rows. \<exists>t. ra_resume_requested a = Some t \<and> t + 60000000000 \<le> now"
    "\<forall>a \<in> set ?rows. \<forall>c. ra_resumed_execution a = Some c \<longrightarrow> agent_by_id db c \<noteq> None"
    using asked by (auto simp: awaiting_rows_def)
  obtain db1 where m: "refresh_members i now ?rows db = Inr db1" using refresh_members_ok [OF rows(2)] by blast
  note f = refresh_members_kept [OF m] and kept = refresh_members_rows [OF m]
  have "\<not> unresolved i db1"
  proof
    assume "unresolved i db1"
    then obtain a where a: "a \<in> set (restart_agents db1)" "ra_restart a = i"
      and d: "ra_resume_status a = ''pending'' \<or> (ra_resume_status a = ''cancelled''
        \<and> (\<exists>c \<in> set (agents db1). Some (a_id c) = ra_resumed_execution a \<and> active_agent c))"
      by (auto simp: unresolved_def list_ex_iff)
    have s: "ra_resume_status a \<in> {''pending'', ''cancelled''}" using d by blast
    note k = kept [OF a(1) s]
    from d show False
    proof
      assume p: "ra_resume_status a = ''pending''"
      with k a(2) asked have "a \<in> set ?rows" by (auto simp: awaiting_rows_def)
      with k rows(1) a(2) p show False by blast
    next
      assume "ra_resume_status a = ''cancelled'' \<and> (\<exists>c \<in> set (agents db1). Some (a_id c) = ra_resumed_execution a \<and> active_agent c)"
      with ended conjunct1 [OF k] a(2) f show False by (auto simp: active_agent_def)
    qed
  qed
  moreover have "recipients_of db1 i = recipients_of db i" using f by (simp add: recipients_of_def)
  with told obtain db2 where "queue_restart_results x i db1 = Inr db2"
    using queue_results_ok [of "map recipient_key (sort_key recipient_key (recipients_of db1 i))" x i db1]
    by (auto simp: queue_restart_results_def recipient_key_def)
  ultimately show ?thesis using ph m assms(3,4)
    by (simp add: refresh_service_restart_def clock_ns_def refresh_tx_def)
qed

definition recovering_db :: db where
  "recovering_db = ready_db\<lparr> restarts := map (\<lambda>r. r\<lparr> r_phase := ''recovering'' \<rparr>) (restarts ready_db),
     restart_agents := [sample_captured\<lparr> ra_resume_requested := Some 0 \<rparr>],
     restart_recipients := [\<lparr> rr_restart = 1, rr_transport = ''codex_queue'', rr_external = ''e'', rr_had_agents = True,
       rr_tried_start = False \<rparr>] \<rparr>"

lemma recovering_restart_wf: "restart_wf recovering_db"
  by (simp add: recovering_db_def ready_db_def sample_captured_def restart_wf_def rows_wf_def members_wf_def references_ok_def
      notices_wf_def row_typed_def restart_phases_def resume_statuses_def patient_def sample_db_def)

lemma recovering_reachable: "reachable_recipient ''codex_queue'' ''e''"
  by (simp add: reachable_recipient_def validate_ref_def canonical_transport_def canonical_transport_name_def
      external_id_def nonblank_def nul_def text_eval)

theorem recovery_ends_witness:
  "\<exists>db'. refresh_service_restart sample_ext 1 ''b'' 60000000000 (Finite 5) recovering_db = (Inr True, db')"
  by (rule recovery_ends [OF recovering_restart_wf])
    (simp_all add: recovering_db_def ready_db_def sample_captured_def in_phase_of_boot_def recipients_of_def
      recovering_reachable)

theorem recovery_reopens_witness:
  "\<exists>b db'. refresh_service_restart sample_ext 1 ''b'' 1 (Finite 5) recovering_db = (Inr b, db')
     \<and> require_admissions_open db' = (if b then Inr () else Inl (Transition (blocked_message 1)))"
proof -
  have "\<exists>db'. refresh_service_restart sample_ext 1 ''b'' 1 (Finite 5) recovering_db = (Inr False, db')"
    by (simp add: refresh_service_restart_def clock_ns_def refresh_tx_def in_phase_of_boot_def recovering_db_def ready_db_def
        awaiting_rows_def sample_captured_def continuation_seen_def resume_outcome_def elapsed_def RESUME_CONFIRM_NS_def
        record_outcome_def unresolved_def)
  then show ?thesis using recovery_reopens [OF recovering_restart_wf] by blast
qed

subsection \<open>The refusal a host hook reads\<close>

lemma blocked_refusal: "trim_start_matches ''invalid agent transition: '' (''invalid agent transition: '' @ BLOCKED_PREFIX @ s) = BLOCKED_PREFIX @ s"
proof -
  have "trim_start_matches ''invalid agent transition: '' (BLOCKED_PREFIX @ s) = BLOCKED_PREFIX @ s"
    by (subst trim_start_matches.simps) (simp add: BLOCKED_PREFIX_def starts_with_prefix)
  then show ?thesis by (subst trim_start_matches.simps) (simp add: starts_with_prefix)
qed

text \<open>
  While a restart is active every new start is refused, and the refusal carries the number of
  exactly that restart: the host hook that parses the rendered error gets it back, so the caller can be
  remembered under it; and a second restart under another request is a conflict.
\<close>

theorem refusal_names_restart:
  assumes "active_service_restart db = Some i" and "0 < i" and "i < 2 ^ 63"
  shows "require_admissions_open db = Inl (Transition (blocked_message i))
    \<and> blocked_restart_id (display (Transition (blocked_message i))) = Some (int i)
    \<and> (request \<notin> r_request_id ` set (restarts db) \<longrightarrow> begin_tx x request tm db = Inl Conflict)"
proof (intro conjI impI)
  have "CHR '']'' \<notin> set (show_nat i)" using show_nat_digits [of i] by (auto simp: is_ascii_digit_def)
  then have "split_once (CHR '']'') (show_nat i @ '']'') = Some (show_nat i, [])" by (rule split_once_append)
  moreover have "strip_prefix BLOCKED_PREFIX (BLOCKED_PREFIX @ show_nat i @ '']'') = Some (show_nat i @ '']'')"
    by (simp add: strip_prefix_Some)
  ultimately show "blocked_restart_id (display (Transition (blocked_message i))) = Some (int i)"
    using parse_i64_show_nat [OF assms(3)] assms(2) blocked_refusal [of "show_nat i @ '']''"]
    by (simp add: blocked_restart_id_def blocked_message_def)
  show "require_admissions_open db = Inl (Transition (blocked_message i))"
    using assms(1) by (simp add: require_admissions_open_def)
  assume "request \<notin> r_request_id ` set (restarts db)"
  then have "find (\<lambda>r. r_request_id r = request) (restarts db) = None" by (auto simp: find_None_iff)
  moreover obtain r where "r \<in> set (restarts db)" "r_finished_at r = None"
    using assms(1) find_Some_in by (fastforce simp: active_service_restart_def)
  ultimately show "begin_tx x request tm db = Inl Conflict" by (auto simp: begin_tx_def list_ex_iff)
qed

theorem refusal_names_restart_witness:
  "require_admissions_open ready_db = Inl (Transition (blocked_message 1))
   \<and> blocked_restart_id (display (Transition (blocked_message 1))) = Some 1"
proof -
  have "active_service_restart ready_db = Some 1" by (simp add: active_service_restart_def ready_db_def)
  from refusal_names_restart [OF this, of "''other''"] show ?thesis by simp
qed

end
