(* ===== verification/Canonical.thy ===== *)
theory Canonical
  imports Db
begin

text \<open>
  The canonical JSON serialiser (\<^verbatim>\<open>crates/agent-run-domain/src/canonical.rs\<close>): sorted keys, compact
  separators, and the escapes of the Python encoder in both of its modes. Numbers of the model's documents
  are integers, so the formatting of floating-point numbers is not modelled. The property shows that the
  bytes determine the document: what is hashed and compared is exactly the content.
\<close>

section \<open>Model\<close>

definition hex_digit :: "nat \<Rightarrow> char" where
  "hex_digit n = char_of (if n < 10 then 48 + n else 87 + n)"

text \<open>Four lower-case digits: every code unit the serialiser escapes is below \<open>0x10000\<close>.\<close>

definition push_u_escape :: "nat \<Rightarrow> string" where
  "push_u_escape n =
     [CHR 0x5C, CHR ''u'', hex_digit (n div 4096 mod 16), hex_digit (n div 256 mod 16), hex_digit (n div 16 mod 16),
      hex_digit (n mod 16)]"

definition write_char :: "bool \<Rightarrow> nat \<Rightarrow> string" where
  "write_char ensure_ascii c =
     (if c = 0x22 then [CHR 0x5C, CHR 0x22]
      else if c = 0x5C then [CHR 0x5C, CHR 0x5C]
      else if c = 0x08 then [CHR 0x5C, CHR ''b'']
      else if c = 0x09 then [CHR 0x5C, CHR ''t'']
      else if c = 0x0A then [CHR 0x5C, CHR ''n'']
      else if c = 0x0C then [CHR 0x5C, CHR ''f'']
      else if c = 0x0D then [CHR 0x5C, CHR ''r'']
      else if c < 0x20 then push_u_escape c
      else if ensure_ascii \<and> 0x7E < c then
        (if c < 0x10000 then push_u_escape c
         else push_u_escape (0xD800 + (c - 0x10000) div 1024) @ push_u_escape (0xDC00 + (c - 0x10000) mod 1024))
      else utf8_char c)"

definition write_string :: "bool \<Rightarrow> string \<Rightarrow> string" where
  "write_string ensure_ascii s = [CHR 0x22] @ concat (map (write_char ensure_ascii) (chars s)) @ [CHR 0x22]"

fun write_value :: "bool \<Rightarrow> json \<Rightarrow> string" where
  "write_value a JNull = ''null''"
| "write_value a (JBool b) = (if b then ''true'' else ''false'')"
| "write_value a (JNum n) = show_int n"
| "write_value a (JStr s) = write_string a s"
| "write_value a (JArr items) = ''['' @ join '','' (map (write_value a) items) @ '']''"
| "write_value a (JObj fs) =
     ''{'' @ join '','' (map (\<lambda>(k, t). write_string a k @ '':'' @ t)
       (sort_key fst (map (\<lambda>(k, v). (k, write_value a v)) fs))) @ ''}''"

definition dumps :: "json \<Rightarrow> bool \<Rightarrow> string" where
  "dumps v ensure_ascii = write_value ensure_ascii v"

section \<open>Decoding one character\<close>

definition hex_value :: "char \<Rightarrow> nat" where
  "hex_value b = (if byte_of b < 58 then byte_of b - 48 else byte_of b - 87)"

definition hex4 :: "string \<Rightarrow> nat" where
  "hex4 s = hex_value (s ! 0) * 4096 + hex_value (s ! 1) * 256 + hex_value (s ! 2) * 16 + hex_value (s ! 3)"

definition short_escape :: "char \<Rightarrow> nat" where
  "short_escape b =
     (if b = CHR ''b'' then 0x08 else if b = CHR ''t'' then 0x09 else if b = CHR ''n'' then 0x0A
      else if b = CHR ''f'' then 0x0C else if b = CHR ''r'' then 0x0D else byte_of b)"

definition read_char :: "string \<Rightarrow> nat" where
  "read_char s =
     (if s ! 0 \<noteq> CHR 0x5C then hd (chars s)
      else if s ! 1 \<noteq> CHR ''u'' then short_escape (s ! 1)
      else let h = hex4 (drop 2 s) in
        if 0xD800 \<le> h \<and> h < 0xE000 then 0x10000 + (h - 0xD800) * 1024 + (hex4 (drop 8 s) - 0xDC00) else h)"

lemma hex_value_digit: "n < 16 \<Longrightarrow> hex_value (hex_digit n) = n"
  by (simp add: hex_value_def hex_digit_def)

lemma hex4_escape:
  assumes "n < 0x10000"
  shows "hex4 (drop 2 (push_u_escape n @ s)) = n"
proof -
  define a b c where "a = n div 16" and "b = a div 16" and "c = b div 16"
  have d: "n div 256 = b" "n div 4096 = c" by (simp_all add: a_def b_def c_def div_mult2_eq [symmetric])
  have "c < 16" using assms by (simp add: d(2) [symmetric] div_less_iff_less_mult)
  moreover have "n = a * 16 + n mod 16" "a = b * 16 + a mod 16" "b = c * 16 + b mod 16"
    by (simp_all add: a_def b_def c_def)
  ultimately show ?thesis
    by (simp add: push_u_escape_def hex4_def hex_value_digit d a_def [symmetric])
qed

lemma push_u_escape_start: "(push_u_escape n @ s) ! 0 = CHR 0x5C" "(push_u_escape n @ s) ! 1 = CHR ''u''"
  "drop 6 (push_u_escape n @ s) = s" "length (push_u_escape n) = 6"
  by (simp_all add: push_u_escape_def)

lemma read_escape:
  assumes "n < 0x10000" and "\<not> (0xD800 \<le> n \<and> n < 0xE000)"
  shows "read_char (push_u_escape n @ s) = n"
  unfolding read_char_def push_u_escape_start hex4_escape [OF assms(1)] Let_def using assms(2) by simp

lemma read_pair:
  assumes "n < 0x100000"
  shows "read_char (push_u_escape (0xD800 + n div 1024) @ push_u_escape (0xDC00 + n mod 1024) @ s) = 0x10000 + n"
proof -
  have h: "n div 1024 < 1024" "n mod 1024 < 1024" using assms by (simp_all add: div_less_iff_less_mult)
  let ?s = "push_u_escape (0xD800 + n div 1024) @ push_u_escape (0xDC00 + n mod 1024) @ s"
  have "drop 8 ?s = drop 2 (push_u_escape (0xDC00 + n mod 1024) @ s)" by (simp add: push_u_escape_def)
  then have "hex4 (drop 8 ?s) = 0xDC00 + n mod 1024" using h by (simp only: hex4_escape)
  moreover have "hex4 (drop 2 ?s) = 0xD800 + n div 1024" using h by (intro hex4_escape) simp
  ultimately show ?thesis unfolding read_char_def push_u_escape_start Let_def using h by simp
qed

lemma utf8_first:
  assumes "scalar c" and "utf8_char c @ s = b # r" and "byte_of b < 0x80"
  shows "c = byte_of b"
proof -
  have "c # chars s = chars (b # r)" using chars_utf8_char [OF scalar_bound [OF assms(1)], of s] assms(2) by simp
  with assms(3) show ?thesis by (simp add: chars_Cons)
qed

lemma utf8_char_head:
  assumes "scalar c" and "c \<noteq> byte_of b" and "byte_of b < 0x80"
  shows "utf8_char c \<noteq> []" "hd (utf8_char c @ s) \<noteq> b"
proof -
  obtain d ds where u: "utf8_char c = d # ds" by (rule utf8_char_shape [OF assms(1)]) blast
  then show "utf8_char c \<noteq> []" by simp
  show "hd (utf8_char c @ s) \<noteq> b" using utf8_first [OF assms(1), of s d "ds @ s"] u assms(2,3) by auto
qed

lemma read_raw:
  assumes "scalar c" and "c \<noteq> 0x5C"
  shows "read_char (utf8_char c @ s) = c"
proof -
  have "(utf8_char c @ s) ! 0 \<noteq> CHR 0x5C"
    using utf8_char_head(1) [OF assms(1), of "CHR 0x5C"] utf8_char_head(2) [OF assms(1), of "CHR 0x5C" s] assms(2)
    by (simp add: hd_conv_nth)
  then show ?thesis by (simp add: read_char_def chars_utf8_char [OF scalar_bound [OF assms(1)]])
qed

lemma read_short: "b \<noteq> CHR ''u'' \<Longrightarrow> read_char (CHR 0x5C # b # s) = short_escape b"
  by (simp add: read_char_def)

lemma read_write:
  assumes "scalar c"
  shows "read_char (write_char a c @ s) = c"
proof (cases "c < 0x20 \<or> c = 0x22 \<or> c = 0x5C")
  case True
  show ?thesis
  proof (cases "c \<in> {0x22, 0x5C, 0x08, 0x09, 0x0A, 0x0C, 0x0D}")
    case True
    then show ?thesis by (auto simp: write_char_def read_short short_escape_def)
  next
    case False
    with True have "write_char a c = push_u_escape c" "c < 0x20" by (auto simp: write_char_def)
    then show ?thesis by (simp add: read_escape)
  qed
next
  case False
  then have c: "c \<noteq> 0x22" "c \<noteq> 0x5C" "0x20 \<le> c" by auto
  then have n: "c \<noteq> 8" "c \<noteq> 9" "c \<noteq> 10" "c \<noteq> 12" "c \<noteq> 13" "\<not> c < 0x20" by auto
  consider "a" "0x7E < c" "c < 0x10000" | "a" "0x10000 \<le> c" | "\<not> (a \<and> 0x7E < c)" by linarith
  then show ?thesis
  proof cases
    case 1
    then have "write_char a c = push_u_escape c" using c n by (simp add: write_char_def)
    moreover have "\<not> (0xD800 \<le> c \<and> c < 0xE000)" using assms by (auto simp: scalar_def)
    ultimately show ?thesis using read_escape [OF 1(3)] by simp
  next
    case 2
    then have "write_char a c @ s = push_u_escape (0xD800 + (c - 0x10000) div 1024) @ push_u_escape (0xDC00 + (c - 0x10000) mod 1024) @ s"
      using c n by (simp add: write_char_def)
    moreover have "c - 0x10000 < 0x100000" using assms 2 by (simp add: scalar_def)
    ultimately show ?thesis using 2 by (simp only: read_pair)
  next
    case 3
    then have "write_char a c = utf8_char c" using c n by (auto simp: write_char_def)
    with assms c show ?thesis by (simp add: read_raw)
  qed
qed

lemma write_char_shape:
  "(\<exists>r. write_char a c = CHR 0x5C # r) \<or> (write_char a c = utf8_char c \<and> c \<noteq> 0x22)"
  unfolding write_char_def push_u_escape_def by (simp split: if_split)

lemma write_char_head:
  assumes "scalar c"
  shows "hd (write_char a c @ s) \<noteq> CHR 0x22"
  using write_char_shape [of a c] utf8_char_head(2) [OF assms, of "CHR 0x22" s] by auto

lemma write_char_inj:
  assumes "scalar c" and "scalar d" and "write_char a c @ s = write_char a d @ t"
  shows "c = d \<and> s = t"
proof -
  have "c = d" using read_write [OF assms(1), of a s] read_write [OF assms(2), of a t] assms(3) by simp
  with assms(3) show ?thesis by simp
qed

lemma write_chars_inj:
  assumes "list_all scalar cs" and "list_all scalar ds"
    and "concat (map (write_char a) cs) @ CHR 0x22 # s = concat (map (write_char a) ds) @ CHR 0x22 # t"
  shows "cs = ds \<and> s = t"
  using assms
proof (induction cs arbitrary: ds)
  case Nil
  show ?case
  proof (cases ds)
    case (Cons d ds')
    with Nil.prems write_char_head [of d a "concat (map (write_char a) ds') @ CHR 0x22 # t"] show ?thesis
      by (metis append_Nil append_assoc concat.simps list.map list.pred_inject(2) list.sel(1))
  qed (use Nil in simp)
next
  case (Cons c cs)
  show ?case
  proof (cases ds)
    case Nil
    with Cons.prems write_char_head [of c a "concat (map (write_char a) cs) @ CHR 0x22 # s"] show ?thesis
      by (metis append_Nil append_assoc concat.simps list.map list.pred_inject(2) list.sel(1))
  next
    case (Cons d ds')
    then have "c = d \<and> concat (map (write_char a) cs) @ CHR 0x22 # s = concat (map (write_char a) ds') @ CHR 0x22 # t"
      using Cons.prems by (intro write_char_inj) simp_all
    with Cons.IH [of ds'] Cons.prems Cons show ?thesis by simp
  qed
qed

lemma write_string_inj:
  assumes "valid_utf8 x" and "valid_utf8 y" and "write_string a x @ s = write_string a y @ t"
  shows "x = y \<and> s = t"
proof -
  have "chars x = chars y \<and> s = t"
    by (rule write_chars_inj [OF valid_utf8_chars [OF assms(1)] valid_utf8_chars [OF assms(2)]])
      (use assms(3) in \<open>simp add: write_string_def\<close>)
  then show ?thesis using utf8_chars [OF assms(1)] utf8_chars [OF assms(2)] by metis
qed

section \<open>Documents up to the order of fields\<close>

fun normal_form :: "json \<Rightarrow> json" where
  "normal_form (JArr items) = JArr (map normal_form items)"
| "normal_form (JObj fs) = JObj (sort_key fst (map (\<lambda>(k, v). (k, normal_form v)) fs))"
| "normal_form v = v"

fun valid_json :: "json \<Rightarrow> bool" where
  "valid_json (JStr s) = valid_utf8 s"
| "valid_json (JArr items) = list_all valid_json items"
| "valid_json (JObj fs) = list_all (\<lambda>(k, v). valid_utf8 k \<and> valid_json v) fs"
| "valid_json _ = True"

text \<open>The serialisation of a document whose fields are in order already.\<close>

fun write_plain :: "bool \<Rightarrow> json \<Rightarrow> string" where
  "write_plain a (JArr items) = ''['' @ join '','' (map (write_plain a) items) @ '']''"
| "write_plain a (JObj fs) = ''{'' @ join '','' (map (\<lambda>(k, v). write_string a k @ '':'' @ write_plain a v) fs) @ ''}''"
| "write_plain a v = write_value a v"

lemma sort_key_map: "sort_key f (map g xs) = map g (sort_key (\<lambda>x. f (g x)) xs)"
proof (induction xs)
  case (Cons x xs)
  have "insort_key f (g x) (map g ys) = map g (insort_key (\<lambda>x. f (g x)) x ys)" for ys by (induction ys) simp_all
  with Cons show ?case by simp
qed simp

lemma write_value_normal: "write_value a v = write_plain a (normal_form v)"
proof (induction v)
  case (JArr items)
  then have "map (write_value a) items = map (write_plain a) (map normal_form items)" by simp
  then show ?case by (simp only: write_value.simps normal_form.simps write_plain.simps)
next
  case (JObj fs)
  let ?by_key = "sort_key fst fs"
  have k: "sort_key fst (map (\<lambda>(k, v). (k, g v)) fs) = map (\<lambda>(k, v). (k, g v)) ?by_key" for g :: "json \<Rightarrow> 'z"
    by (simp add: sort_key_map case_prod_beta)
  have "map (\<lambda>(k, t). write_string a k @ '':'' @ t) (map (\<lambda>(k, v). (k, write_value a v)) ?by_key) =
      map (\<lambda>(k, v). write_string a k @ '':'' @ write_plain a v) (map (\<lambda>(k, v). (k, normal_form v)) ?by_key)"
    using JObj by fastforce
  then show ?case unfolding write_value.simps normal_form.simps write_plain.simps k by (simp only:)
qed simp_all

lemma normal_form_valid: "valid_json v \<Longrightarrow> valid_json (normal_form v)"
  by (induction v) (auto simp: list_all_iff split: prod.splits)

section \<open>The bytes determine the document\<close>

definition delim :: "string \<Rightarrow> bool" where
  "delim s = (case s of [] \<Rightarrow> True | c # _ \<Rightarrow> c \<in> {CHR '','', CHR '']'', CHR ''}''})"

lemma show_nat_head: "show_nat n \<noteq> CHR ''-'' # r"
proof
  assume "show_nat n = CHR ''-'' # r"
  then have "is_ascii_digit (CHR ''-'')" using show_nat_digits [of n] by simp
  then show False by (simp add: is_ascii_digit_def)
qed

lemma show_int_inj:
  assumes "show_int m = show_int n"
  shows "m = n"
proof (cases "m < 0"; cases "n < 0")
  assume "m < 0" "n < 0"
  with assms have "show_nat (nat (- m)) = show_nat (nat (- n))" by (simp add: show_int_def)
  from iffD1 [OF show_nat_inj this] \<open>m < 0\<close> \<open>n < 0\<close> show ?thesis by simp
next
  assume "\<not> m < 0" "\<not> n < 0"
  with assms have "show_nat (nat m) = show_nat (nat n)" by (simp add: show_int_def)
  from iffD1 [OF show_nat_inj this] \<open>\<not> m < 0\<close> \<open>\<not> n < 0\<close> show ?thesis by simp
next
  assume "m < 0" "\<not> n < 0"
  with assms show_nat_head [of "nat n" "show_nat (nat (- m))"] show ?thesis by (simp add: show_int_def)
next
  assume "\<not> m < 0" "n < 0"
  with assms show_nat_head [of "nat m"] show ?thesis by (simp add: show_int_def)
qed

lemma show_int_run: "delim s \<Longrightarrow> takeWhile (\<lambda>b. is_ascii_digit b \<or> b = CHR ''-'') (show_int n @ s) = show_int n"
proof -
  assume s: "delim s"
  have "\<forall>b \<in> set (show_int n). is_ascii_digit b \<or> b = CHR ''-''" using show_nat_digits by (auto simp: show_int_def)
  moreover have "takeWhile (\<lambda>b. is_ascii_digit b \<or> b = CHR ''-'') s = []"
    using s by (cases s) (auto simp: delim_def is_ascii_digit_def)
  ultimately show ?thesis by simp
qed

lemma numbers_inj:
  assumes "show_int m @ s = show_int n @ t" and "delim s" and "delim t"
  shows "m = n \<and> s = t"
proof -
  have "show_int m = show_int n" using show_int_run [OF assms(2), of m] show_int_run [OF assms(3), of n] assms(1) by simp
  with assms(1) show_int_inj show ?thesis by auto
qed

lemma items_inj:
  assumes "\<And>x y s t. x \<in> set xs \<Longrightarrow> y \<in> set ys \<Longrightarrow> p x @ s = p y @ t \<Longrightarrow> delim s \<Longrightarrow> delim t \<Longrightarrow> x = y \<and> s = t"
    and "concat (map (\<lambda>z. CHR '','' # p z) xs) @ e # s = concat (map (\<lambda>z. CHR '','' # p z) ys) @ e # t"
    and "e \<in> {CHR '']'', CHR ''}''}"
  shows "xs = ys \<and> s = t"
  using assms
proof (induction xs arbitrary: ys)
  case Nil
  then show ?case by (cases ys) auto
next
  case (Cons x xs)
  then obtain y ys' where ys: "ys = y # ys'" by (cases ys) auto
  let ?r = "concat (map (\<lambda>z. CHR '','' # p z) xs) @ e # s" and ?r' = "concat (map (\<lambda>z. CHR '','' # p z) ys') @ e # t"
  have "delim ?r" "delim ?r'" using Cons.prems(3) by (cases xs; cases ys'; auto simp: delim_def)+
  moreover have "p x @ ?r = p y @ ?r'" using Cons.prems(2) ys by simp
  ultimately have "x = y \<and> ?r = ?r'" using Cons.prems(1) [of x y] ys by simp
  moreover have "xs = ys' \<and> s = t"
    by (rule Cons.IH [OF Cons.prems(1)]) (use calculation ys Cons.prems(3) in auto)
  ultimately show ?case using ys by simp
qed

lemma join_comma: "xs \<noteq> [] \<Longrightarrow> CHR '','' # join '','' (map p xs) = concat (map (\<lambda>z. CHR '','' # p z) xs)"
  by (cases xs) (simp_all add: join_def comp_def)

lemma join_inj:
  assumes one: "\<And>x y s t. x \<in> set xs \<Longrightarrow> y \<in> set ys \<Longrightarrow> p x @ s = p y @ t \<Longrightarrow> delim s \<Longrightarrow> delim t \<Longrightarrow> x = y \<and> s = t"
    and head: "\<And>z. p z \<noteq> [] \<and> hd (p z) \<noteq> e"
    and eq: "join '','' (map p xs) @ e # s = join '','' (map p ys) @ e # t" and e: "e \<in> {CHR '']'', CHR ''}''}"
  shows "xs = ys \<and> s = t"
proof (cases "xs = [] \<or> ys = []")
  case True
  have start: "join '','' (map p (z # zs)) @ r \<noteq> e # r'" for z zs r r'
    using head [of z] by (cases "p z") (simp_all add: join_def)
  have nil: "join '','' [] = []" by (simp add: join_def)
  from True show ?thesis
  proof
    assume x: "xs = []"
    then have "ys = []" using eq start by (cases ys) (auto simp: nil dest: sym)
    with x eq show ?thesis by simp
  next
    assume y: "ys = []"
    then have "xs = []" using eq start by (cases xs) (auto simp: nil)
    with y eq show ?thesis by simp
  qed
next
  case False
  then have "concat (map (\<lambda>z. CHR '','' # p z) xs) @ e # s = concat (map (\<lambda>z. CHR '','' # p z) ys) @ e # t"
    using eq by (simp add: join_comma [symmetric])
  then show ?thesis using items_inj [OF one _ e] by blast
qed

text \<open>The first byte tells the kind of document.\<close>

fun kind_of :: "json \<Rightarrow> nat" where
  "kind_of JNull = 0"
| "kind_of (JBool True) = 1"
| "kind_of (JBool False) = 2"
| "kind_of (JNum _) = 3"
| "kind_of (JStr _) = 4"
| "kind_of (JArr _) = 5"
| "kind_of (JObj _) = 6"

definition kind_of_head :: "char \<Rightarrow> nat" where
  "kind_of_head c =
     (if c = CHR ''n'' then 0 else if c = CHR ''t'' then 1 else if c = CHR ''f'' then 2 else if c = CHR 0x22 then 4
      else if c = CHR ''['' then 5 else if c = CHR ''{'' then 6 else if is_ascii_digit c \<or> c = CHR ''-'' then 3 else 7)"

lemma number_head: "\<exists>c r. show_int n = c # r \<and> kind_of_head c = 3"
proof -
  have "\<exists>c r. show_nat m = c # r \<and> kind_of_head c = 3" for m
  proof (cases "show_nat m")
    case Nil
    then show ?thesis using parse_show_nat [of m] by (simp add: parse_digits_def)
  next
    case (Cons c r)
    then have "is_ascii_digit c" using show_nat_digits [of m] by simp
    then show ?thesis using Cons by (auto simp: kind_of_head_def is_ascii_digit_def)
  qed
  then show ?thesis by (simp add: show_int_def kind_of_head_def)
qed

lemma plain_head: "write_plain a v \<noteq> [] \<and> kind_of_head (hd (write_plain a v)) = kind_of v"
proof (cases v)
  case (JBool b)
  then show ?thesis by (cases b) (simp_all add: kind_of_head_def)
next
  case (JNum n)
  then show ?thesis using number_head [of n] by auto
qed (simp_all add: kind_of_head_def write_string_def)

lemma same_kind:
  assumes "write_plain a v @ s = write_plain a w @ t"
  shows "kind_of v = kind_of w"
  using assms plain_head [of a v] plain_head [of a w] by (metis hd_append2)

lemma plain_inj:
  assumes "valid_json v" and "valid_json w" and "write_plain a v @ s = write_plain a w @ t" and "delim s" and "delim t"
  shows "v = w \<and> s = t"
  using assms
proof (induction v arbitrary: w s t)
  case JNull
  with same_kind [OF JNull.prems(3)] show ?case by (cases w rule: kind_of.cases) simp_all
next
  case (JBool b)
  with same_kind [OF JBool.prems(3)] show ?case by (cases b; cases w rule: kind_of.cases) simp_all
next
  case (JNum n)
  with same_kind [OF JNum.prems(3)] obtain m where "w = JNum m" by (cases w rule: kind_of.cases) simp_all
  with JNum.prems numbers_inj [of n s m t] show ?case by simp
next
  case (JStr x)
  with same_kind [OF JStr.prems(3)] obtain y where "w = JStr y" by (cases w rule: kind_of.cases) simp_all
  with JStr.prems write_string_inj [of x y a s t] show ?case by simp
next
  case (JArr xs)
  with same_kind [OF JArr.prems(3)] obtain ys where w: "w = JArr ys" by (cases w rule: kind_of.cases) simp_all
  have "xs = ys \<and> s = t"
  proof (rule join_inj [where p = "write_plain a" and e = "CHR '']''"])
    show "join '','' (map (write_plain a) xs) @ CHR '']'' # s = join '','' (map (write_plain a) ys) @ CHR '']'' # t"
      using JArr.prems(3) w by simp
    show "write_plain a z \<noteq> [] \<and> hd (write_plain a z) \<noteq> CHR '']''" for z
      using plain_head [of a z] by (cases z rule: kind_of.cases) (auto simp: kind_of_head_def is_ascii_digit_def)
    show "x = y \<and> s = t" if "x \<in> set xs" "y \<in> set ys" "write_plain a x @ s = write_plain a y @ t" "delim s" "delim t" for x y s t
      using JArr.IH [OF that(1) _ _ that(3-5)] JArr.prems(1,2) that(1,2) w by (simp add: list_all_iff)
  qed simp
  with w show ?case by simp
next
  case (JObj fs)
  with same_kind [OF JObj.prems(3)] obtain gs where w: "w = JObj gs" by (cases w rule: kind_of.cases) simp_all
  let ?p = "\<lambda>(k, v). write_string a k @ '':'' @ write_plain a v"
  have "fs = gs \<and> s = t"
  proof (rule join_inj [where p = ?p and e = "CHR ''}''"])
    show "join '','' (map ?p fs) @ CHR ''}'' # s = join '','' (map ?p gs) @ CHR ''}'' # t"
      using JObj.prems(3) w by simp
    show "?p z \<noteq> [] \<and> hd (?p z) \<noteq> CHR ''}''" for z by (cases z) (simp add: write_string_def)
    show "f = g \<and> s = t" if fg: "f \<in> set fs" "g \<in> set gs" "?p f @ s = ?p g @ t" "delim s" "delim t" for f g s t
    proof -
      obtain k v k' v' where e: "f = (k, v)" "g = (k', v')" by (cases f; cases g)
      have ok: "valid_utf8 k" "valid_utf8 k'" "valid_json v" "valid_json v'"
        using JObj.prems(1,2) w fg(1,2) e by (auto simp: list_all_iff)
      have "k = k' \<and> '':'' @ write_plain a v @ s = '':'' @ write_plain a v' @ t"
        by (rule write_string_inj [OF ok(1,2)]) (use fg(3) e in simp)
      moreover then have "v = v' \<and> s = t" using JObj.IH [of f v v' s t] fg e ok by simp
      ultimately show ?thesis using e by simp
    qed
  qed simp
  with w show ?case by simp
qed

lemma dumps_inj:
  assumes "valid_json v" and "valid_json w" and "dumps v a = dumps w a"
  shows "normal_form v = normal_form w"
proof -
  have "write_plain a (normal_form v) @ [] = write_plain a (normal_form w) @ []"
    using assms(3) by (simp add: dumps_def write_value_normal)
  from plain_inj [OF normal_form_valid [OF assms(1)] normal_form_valid [OF assms(2)] this]
  show ?thesis by (simp add: delim_def)
qed

text \<open>
  C40 (equivalence). The canonical bytes stand for the document: in either escape mode, two documents serialise to
  the same bytes exactly when they are equal up to the order of their object fields. So comparing or hashing
  the bytes compares the contents, and re-ordering fields never changes a digest.
\<close>

theorem canonical_exact:
  assumes "valid_json v" and "valid_json w"
  shows "dumps v a = dumps w a \<longleftrightarrow> normal_form v = normal_form w"
  using dumps_inj [OF assms] by (auto simp: dumps_def write_value_normal)

theorem canonical_exact_witness:
  "dumps (JObj [(''b'', JNum 1), (''a'', JStr ''x'')]) True = dumps (JObj [(''a'', JStr ''x''), (''b'', JNum 1)]) True
   \<and> dumps (JObj [(''b'', JNum 1)]) True \<noteq> dumps (JObj [(''b'', JStr ''1'')]) True"
proof -
  have v: "valid_utf8 ''a''" "valid_utf8 ''b''" "valid_utf8 ''x''" "valid_utf8 ''1''"
    by (simp_all add: valid_utf8_ascii is_ascii_def)
  show ?thesis
    using canonical_exact [of "JObj [(''b'', JNum 1), (''a'', JStr ''x'')]" "JObj [(''a'', JStr ''x''), (''b'', JNum 1)]" True]
      canonical_exact [of "JObj [(''b'', JNum 1)]" "JObj [(''b'', JStr ''1'')]" True]
    by (simp add: v)
qed

end
