(* ===== verification/WorkerFinish.thy ===== *)
theory WorkerFinish
  imports ServiceRestart Canonical PoolEnrollment
begin

text \<open>
  The private completion of a worker attempt (\<^verbatim>\<open>crates/agent-run-store/src/worker_finish.rs\<close>, with the start of
  its health state from \<^verbatim>\<open>health.rs\<close>): the turn state of an attempt, the accepted finish intent, the
  observation of its receipt, and the wake-ups queued for native completions. The text of a stored finish is
  the canonical serialisation of the request; reading it back uses the JSON parser of the environment.
\<close>

section \<open>Model\<close>

subsection \<open>The finish document\<close>

fun finish_status_as_str :: "finish_status \<Rightarrow> string" where
  "finish_status_as_str Done = ''done''"
| "finish_status_as_str Blocked = ''blocked''"
| "finish_status_as_str FinishFailed = ''failed''"

definition finish_value :: "finish_request \<Rightarrow> json" where
  "finish_value r = JObj [(''summary'', JStr (fr_summary r)), (''status'', JStr (finish_status_as_str (fr_status r)))]"

definition finish_payload :: "finish_request \<Rightarrow> string" where
  "finish_payload r = dumps (finish_value r) True"

definition finish_status_of :: "string \<Rightarrow> finish_status option" where
  "finish_status_of s = find (\<lambda>st. finish_status_as_str st = s) [Done, Blocked, FinishFailed]"

text \<open>The derived decoder: no unknown fields, a text summary, and a status that defaults to done.\<close>

definition decode_finish :: "json \<Rightarrow> finish_request option" where
  "decode_finish v =
     (case v of
        JObj fs \<Rightarrow>
          if \<not> set (map fst fs) \<subseteq> {''summary'', ''status''} then None
          else (case (map_of fs ''summary'', map_of fs ''status'') of
             (Some (JStr s), None) \<Rightarrow> Some \<lparr> fr_summary = s, fr_status = Done \<rparr>
           | (Some (JStr s), Some (JStr t)) \<Rightarrow>
               map_option (\<lambda>st. \<lparr> fr_summary = s, fr_status = st \<rparr>) (finish_status_of t)
           | _ \<Rightarrow> None)
      | _ \<Rightarrow> None)"

definition read_finish :: "ext \<Rightarrow> string \<Rightarrow> finish_request res" where
  "read_finish x payload = ok_or (Json ''invalid finish document'') (Option.bind (x_json x payload) decode_finish)"

subsection \<open>Rows\<close>

definition lifecycle_of :: "db \<Rightarrow> string \<Rightarrow> lifecycle_row option" where
  "lifecycle_of db attempt = find (\<lambda>l. l_attempt l = attempt) (worker_lifecycle db)"

definition update_lifecycle :: "(lifecycle_row \<Rightarrow> bool) \<Rightarrow> (lifecycle_row \<Rightarrow> lifecycle_row) \<Rightarrow> db \<Rightarrow> db" where
  "update_lifecycle P f db = db\<lparr> worker_lifecycle := map (\<lambda>l. if P l then f l else l) (worker_lifecycle db) \<rparr>"

definition owned_attempts :: "db \<Rightarrow> string \<Rightarrow> attempt_row list" where
  "owned_attempts db run = filter (\<lambda>t. t_agent t = run \<and> t_ownership_active t \<and> t_finished_at t = None) (attempts db)"

definition of_owned :: "db \<Rightarrow> string \<Rightarrow> lifecycle_row \<Rightarrow> bool" where
  "of_owned db run l \<longleftrightarrow> l_attempt l \<in> t_id ` set (owned_attempts db run)"

text \<open>Idle time is counted when a row leaves the idle phase.\<close>

definition idle_until :: "rat \<Rightarrow> lifecycle_row \<Rightarrow> rat" where
  "idle_until tm l = l_idle_seconds l + (if l_phase l = ''idle'' then max 0 (tm - l_transition_at l) else 0)"

definition store_get :: "ext \<Rightarrow> db \<Rightarrow> string \<Rightarrow> agent_row res" where
  "store_get x db run = bindr (ok_or (NotFound run) (agent_by_id db run)) (read_record x)"

subsection \<open>Wake-ups\<close>

definition wake_attempt :: "db \<Rightarrow> string \<Rightarrow> string option" where
  "wake_attempt db run =
     map_option t_id (find (\<lambda>t.
       (\<exists>l \<in> set (worker_lifecycle db). l_attempt l = t_id t \<and> l_finish l = None)
       \<and> (\<exists>a \<in> set (agents db). a_id a = run \<and> a_status a = Running \<and> a_finished_at a = None)) (owned_attempts db run))"

definition wake_payload :: "string \<Rightarrow> json" where
  "wake_payload msg = JObj [(''text'', JStr msg), (''native_completion'', JBool True)]"

definition queue_wake :: "string \<Rightarrow> string \<Rightarrow> string \<Rightarrow> string \<Rightarrow> rat \<Rightarrow> db \<Rightarrow> db" where
  "queue_wake run attempt digest msg tm db =
     (let db1 = insert_command
          \<lparr> c_id = 0, c_agent = run, c_kind = ''steer'', c_payload = wake_payload msg, c_state = ''pending'',
            c_created_at = tm, c_result = None, c_claimed_at = None, c_completed_at = None \<rparr> db in
      db1\<lparr> wakes := wakes db1 @
        [\<lparr> w_attempt = attempt, w_receipt_sha256 = digest, w_command = command_seq db1, w_created_at = tm \<rparr>] \<rparr>)"

definition enqueue_native_wake :: "string \<Rightarrow> string \<Rightarrow> string \<Rightarrow> f64 \<Rightarrow> db \<Rightarrow> bool res \<times> db" where
  "enqueue_native_wake run digest msg at_time db =
     (case (valid_token digest \<and> msg \<noteq> [] \<and> length msg \<le> 8192, time_of at_time) of
        (True, Some tm) \<Rightarrow>
          (case wake_attempt db run of
             None \<Rightarrow> (Inr False, db)
           | Some attempt \<Rightarrow>
               commit db (Inr (True,
                 if list_ex (\<lambda>w. w_attempt w = attempt \<and> w_receipt_sha256 w = digest) (wakes db) then db
                 else queue_wake run attempt digest msg tm db)))
      | _ \<Rightarrow> (Inl (invalid ''invalid native wake''), db))"

subsection \<open>Accepting a finish\<close>

definition cancel_pending :: "db \<Rightarrow> string \<Rightarrow> bool" where
  "cancel_pending db run =
     list_ex (\<lambda>c. c_agent c = run \<and> c_kind c = ''cancel'' \<and> c_state c \<in> {''pending'', ''claimed''}) (commands db)"

definition finish_admissible :: "db \<Rightarrow> string \<Rightarrow> string \<Rightarrow> bool res" where
  "finish_admissible db run attempt =
     bindr (ok_or no_rows (find (\<lambda>(a, t). a_id a = run \<and> t_id t = attempt \<and> t_agent t = a_id a)
         (List.product (agents db) (attempts db)))) (\<lambda>(a, t).
       Inr (a_status a = Running \<and> a_finished_at a = None \<and> t_state t = ''running'' \<and> t_finished_at t = None
            \<and> \<not> cancel_pending db run))"

text \<open>A summary that starts with the restart marker is a technical finish and must be one that was asked for.\<close>

definition finish_of_restart :: "db \<Rightarrow> string \<Rightarrow> string \<Rightarrow> finish_request \<Rightarrow> nat option res" where
  "finish_of_restart db run attempt input =
     (if starts_with (fr_summary input) ''[agent-run-restart-finish:'' then
        bindr (ok_or (invalid ''restart finish was not requested for this worker'') (finish_restart db run attempt)) (\<lambda>i.
          if fr_status input \<noteq> Done
             \<or> (case strip_prefix (finish_marker i @ nl) (fr_summary input) of
                  None \<Rightarrow> True | Some rest \<Rightarrow> trim rest = [])
          then Inl (invalid ''invalid restart finish marker'') else Inr (Some i))
      else Inr None)"

definition close_lifecycle :: "string \<Rightarrow> string \<Rightarrow> string \<Rightarrow> rat \<Rightarrow> db \<Rightarrow> db" where
  "close_lifecycle attempt payload digest tm =
     update_lifecycle (\<lambda>l. l_attempt l = attempt \<and> l_finish l = None)
       (\<lambda>l. l\<lparr> l_idle_seconds := idle_until tm l, l_phase := ''closing'', l_transition_at := tm, l_finish := Some payload,
               l_finish_sha256 := Some digest, l_accepted_at := Some tm \<rparr>)"

definition finish_event :: "string \<Rightarrow> finish_request \<Rightarrow> nat option \<Rightarrow> json" where
  "finish_event digest input restart =
     JObj ([(''sha256'', JStr digest), (''bytes'', JNum (int (length (fr_summary input)))),
            (''status'', JStr (finish_status_as_str (fr_status input)))] @
       (case restart of None \<Rightarrow> []
        | Some i \<Rightarrow> [(''service_restart'', JBool True), (''service_restart_id'', JNum (int i))]))"

definition record_finish ::
    "string \<Rightarrow> string \<Rightarrow> finish_request \<Rightarrow> string \<Rightarrow> string \<Rightarrow> nat option \<Rightarrow> rat \<Rightarrow> db \<Rightarrow> db" where
  "record_finish run attempt input payload digest restart tm db =
     snd (insert_event
       \<lparr> v_seq = 0, v_agent = run, v_attempt = Some attempt, v_at = tm, v_kind = ''worker_finish_accepted_v1'',
         v_from = None, v_to = None, v_data = finish_event digest input restart \<rparr>
       (close_lifecycle attempt payload digest tm db))"

fun check_guard :: "finish_guard \<Rightarrow> unit res" where
  "check_guard GuardClean = Inr ()"
| "check_guard GuardSecret = Inl (invalid ''finish summary contains launch secret material; nothing was recorded'')"
| "check_guard GuardUnavailable =
     Inl (Unsupported ''finish launch-secret context is unavailable; retry the same finish shortly'')"

definition store_finish ::
    "ext \<Rightarrow> string \<Rightarrow> string \<Rightarrow> finish_request \<Rightarrow> nat option \<Rightarrow> finish_guard \<Rightarrow> rat \<Rightarrow> db \<Rightarrow> error + (finish_receipt \<times> db)" where
  "store_finish x run attempt input restart guard tm db =
     (let payload = finish_payload input; digest = x_sha256 x payload in
      case lifecycle_of db attempt of
        None \<Rightarrow> Inl (invalid ''explicit finish was not admitted'')
      | Some l \<Rightarrow>
          (case l_finish l of
             Some prior \<Rightarrow>
               if prior \<noteq> payload \<or> l_finish_sha256 l \<noteq> Some digest then Inl Conflict
               else Inr (\<lparr> fin_sha256 = digest, fin_duplicate = True \<rparr>, db)
           | None \<Rightarrow>
               bindr (check_guard guard) (\<lambda>_.
                 Inr (\<lparr> fin_sha256 = digest, fin_duplicate = False \<rparr>,
                      record_finish run attempt input payload digest restart tm db))))"

definition accept_tx ::
    "ext \<Rightarrow> string \<Rightarrow> string \<Rightarrow> string \<Rightarrow> finish_request \<Rightarrow> rat \<Rightarrow> finish_guard \<Rightarrow> db \<Rightarrow> error + (finish_receipt \<times> db)" where
  "accept_tx x run attempt token input tm guard db =
     bindr (authenticate_attempt x db run attempt token (Finite tm)) (\<lambda>auth.
     if auth = None then Inl (invalid ''invalid worker capability'')
     else
     bindr (finish_admissible db run attempt) (\<lambda>admissible.
     if \<not> admissible then Inl (invalid ''worker attempt is not running'')
     else
     bindr (ok_or no_rows (agent_by_id db run)) (\<lambda>a.
     if \<not> a_explicit_finish a then Inl (invalid ''explicit finish was not admitted'')
     else
     bindr (finish_of_restart db run attempt input) (\<lambda>restart.
     bindr (if restart = None then validate_schema (x_schema x) (x_json x) input (a_output_schema a) else Inr ()) (\<lambda>_.
       store_finish x run attempt input restart guard tm db)))))"

definition accept_worker_finish ::
    "ext \<Rightarrow> string \<Rightarrow> string \<Rightarrow> string \<Rightarrow> finish_request \<Rightarrow> f64 \<Rightarrow> finish_guard \<Rightarrow> db \<Rightarrow> finish_receipt res \<times> db" where
  "accept_worker_finish x run attempt token input at_time guard db =
     commit db (bindr (validate_finish input) (\<lambda>_.
       case (str_contains (fr_summary input) token, time_of at_time) of
         (False, Some tm) \<Rightarrow> accept_tx x run attempt token input tm guard db
       | _ \<Rightarrow> Inl (invalid ''invalid finish payload'')))"

subsection \<open>Turn state\<close>

text \<open>
  The health state an attempt starts with. Its check time is the time of the event and is not repeated in the
  document, whose numbers are integers.
\<close>

definition HEALTH_STATE :: string where
  "HEALTH_STATE = ''worker_ping_state_v1''"

fun ping_policy_as_str :: "ping_policy \<Rightarrow> string" where
  "ping_policy_as_str Off = ''off''"
| "ping_policy_as_str Observe = ''observe''"
| "ping_policy_as_str Recover = ''recover''"

definition health_snapshot :: "ext \<Rightarrow> db \<Rightarrow> string \<Rightarrow> string \<Rightarrow> json option res" where
  "health_snapshot x db run attempt =
     (let latest = map_option v_data (max_row v_seq
          (filter (\<lambda>v. v_agent v = run \<and> v_attempt v = Some attempt \<and> v_kind v = HEALTH_STATE) (events db))) in
      bindr (store_get x db run) (\<lambda>a.
        case latest of
          Some d \<Rightarrow>
            if jfield ''policy'' d \<noteq> JStr (ping_policy_as_str (a_idle_ping a))
            then Inl (Integrity ''health policy differs from frozen admission'') else Inr latest
        | None \<Rightarrow> Inr None))"

definition begin_worker_health :: "ext \<Rightarrow> string \<Rightarrow> string \<Rightarrow> rat \<Rightarrow> db \<Rightarrow> db res" where
  "begin_worker_health x run attempt tm db =
     bindr (store_get x db run) (\<lambda>a.
     if a_idle_ping a = Off then Inr db
     else bindr (health_snapshot x db run attempt) (\<lambda>known.
       if known \<noteq> None then Inr db
       else Inr (snd (insert_event
         \<lparr> v_seq = 0, v_agent = run, v_attempt = Some attempt, v_at = tm, v_kind = HEALTH_STATE, v_from = None,
           v_to = None, v_data = JObj [(''policy'', JStr (ping_policy_as_str (a_idle_ping a))), (''progress'', JNum 0),
             (''control'', JNull), (''model'', JNull), (''reason'', JNull), (''activity'', JNull)] \<rparr> db))))"

definition begin_lifecycle_tx :: "ext \<Rightarrow> string \<Rightarrow> string \<Rightarrow> rat \<Rightarrow> db \<Rightarrow> error + (unit \<times> db)" where
  "begin_lifecycle_tx x run attempt tm db =
     (if \<not> list_ex (\<lambda>t. t_id t = attempt \<and> t_agent t = run \<and> t_ownership_active t) (attempts db)
         \<or> lifecycle_of db attempt \<noteq> None
      then Inr ((), db)
      else if capability_of db attempt = None then Inl constraint_failed
      else bindr (begin_worker_health x run attempt tm
          (db\<lparr> worker_lifecycle := worker_lifecycle db @
             [\<lparr> l_attempt = attempt, l_phase = ''running'', l_turn_count = 1, l_transition_at = tm, l_idle_seconds = 0,
                l_finish = None, l_finish_sha256 = None, l_accepted_at = None, l_receipt_observed = False \<rparr>] \<rparr>))
        (\<lambda>db'. Inr ((), db')))"

definition begin_worker_lifecycle :: "ext \<Rightarrow> string \<Rightarrow> string \<Rightarrow> rat \<Rightarrow> db \<Rightarrow> unit res \<times> db" where
  "begin_worker_lifecycle x run attempt tm db =
     commit db (bindr (store_get x db run) (\<lambda>a.
       if \<not> a_explicit_finish a then Inr ((), db) else begin_lifecycle_tx x run attempt tm db))"

definition turn_row :: "string \<Rightarrow> rat \<Rightarrow> lifecycle_row \<Rightarrow> lifecycle_row" where
  "turn_row phase tm l =
     l\<lparr> l_idle_seconds := idle_until tm l, l_phase := phase, l_transition_at := tm,
        l_turn_count := l_turn_count l + (if phase = ''idle'' then 0 else 1) \<rparr>"

definition turns :: "db \<Rightarrow> string \<Rightarrow> string \<Rightarrow> lifecycle_row \<Rightarrow> bool" where
  "turns db run phase l \<longleftrightarrow> l_phase l \<noteq> phase \<and> l_finish l = None \<and> of_owned db run l"

definition turn_event :: "string \<Rightarrow> string \<Rightarrow> rat \<Rightarrow> lifecycle_row \<Rightarrow> db \<Rightarrow> db" where
  "turn_event run phase tm l db =
     snd (insert_event
       \<lparr> v_seq = 0, v_agent = run, v_attempt = Some (l_attempt l), v_at = tm, v_kind = ''worker_turn_phase_v1'',
         v_from = None, v_to = None, v_data = JObj [(''phase'', JStr phase)] \<rparr> db)"

definition worker_turn :: "string \<Rightarrow> bool \<Rightarrow> f64 \<Rightarrow> db \<Rightarrow> bool res \<times> db" where
  "worker_turn run idle at_time db =
     (let phase = (if idle then ''idle'' else ''running'') in
      case time_of at_time of
        None \<Rightarrow> (Inl (invalid ''invalid turn observation''), db)
      | Some tm \<Rightarrow>
          commit db (Inr (
            if \<not> list_ex (turns db run phase) (worker_lifecycle db) then (False, db)
            else let db1 = update_lifecycle (turns db run phase) (turn_row phase tm) db in
              (True, fold (turn_event run phase tm) (filter (of_owned db run) (worker_lifecycle db1)) db1))))"

subsection \<open>Reading the intent\<close>

definition observe_worker_finish_receipt :: "string \<Rightarrow> db \<Rightarrow> unit res \<times> db" where
  "observe_worker_finish_receipt run db =
     (Inr (), update_lifecycle (\<lambda>l. l_finish l \<noteq> None \<and> of_owned db run l) (\<lambda>l. l\<lparr> l_receipt_observed := True \<rparr>) db)"

definition worker_finish_intent :: "ext \<Rightarrow> db \<Rightarrow> string \<Rightarrow> bool \<Rightarrow> finish_request option res" where
  "worker_finish_intent x db run require_receipt =
     (case find (\<lambda>l. of_owned db run l \<and> l_finish l \<noteq> None \<and> (require_receipt \<longrightarrow> l_receipt_observed l)) (worker_lifecycle db) of
        None \<Rightarrow> Inr None
      | Some l \<Rightarrow>
          bindr (ok_or bad_column (l_finish l)) (\<lambda>payload.
          bindr (ok_or bad_column (l_finish_sha256 l)) (\<lambda>digest.
          if x_sha256 x payload \<noteq> digest then Inl (Integrity ''finish payload digest mismatch'')
          else bindr (read_finish x payload) (\<lambda>input.
            bindr (validate_finish input) (\<lambda>_. Inr (Some input))))))"

record lifecycle_view =
  lv_phase :: string
  lv_turn_count :: nat
  lv_transition_at :: rat
  lv_finish_sha256 :: "string option"
  lv_idle_seconds :: rat

definition worker_lifecycle_view_at :: "db \<Rightarrow> string \<Rightarrow> f64 \<Rightarrow> lifecycle_view option res" where
  "worker_lifecycle_view_at db run observed_at =
     (case time_of observed_at of
        None \<Rightarrow> Inl (invalid ''invalid lifecycle observation'')
      | Some tm \<Rightarrow>
          Inr (map_option (\<lambda>(l, t, a).
              \<lparr> lv_phase = l_phase l, lv_turn_count = l_turn_count l, lv_transition_at = l_transition_at l,
                lv_finish_sha256 = l_finish_sha256 l,
                lv_idle_seconds = idle_until (case a_finished_at a of Some f \<Rightarrow> f | None \<Rightarrow> tm) l \<rparr>)
            (max_row (\<lambda>(l, t, a). t_number t)
              (filter (\<lambda>(l, t, a). t_id t = l_attempt l \<and> a_id a = t_agent t \<and> t_agent t = run)
                (List.product (worker_lifecycle db) (List.product (attempts db) (agents db)))))))"

definition worker_lifecycle_view :: "ext \<Rightarrow> db \<Rightarrow> string \<Rightarrow> lifecycle_view option res" where
  "worker_lifecycle_view x db run = worker_lifecycle_view_at db run (Finite (x_now x))"

end
