(* ===== verification/ProcessOwnership.thy ===== *)
theory ProcessOwnership
  imports WorkerFinish
begin

text \<open>
  The recorded processes of harness attempts and managed services
  (\<^verbatim>\<open>crates/agent-run-store/src/process_ownership.rs\<close>, with the identities and their restoration from
  \<^verbatim>\<open>crates/agent-run-platform/src/process.rs\<close>): which process generations an owner has been seen with, and
  their replacement by one bounded summary when an execution is over. The lemmas show that a process
  generation never moves to another owner, that a root never changes, and that what is recorded can always
  be restored.
\<close>

section \<open>Model\<close>

subsection \<open>Captured processes\<close>

record ownership_snapshot =
  os_leader :: process_identity
  os_members :: "process_identity list"
  os_descendants_observed :: bool

record owned_process =
  op_pid :: int
  op_leader :: process_identity
  op_known :: "process_identity list"
  op_descendants_observed :: bool

definition identity_key :: "process_identity \<Rightarrow> int \<times> string" where
  "identity_key m = (i_pid m, i_token m)"

definition valid_program :: "string \<Rightarrow> bool" where
  "valid_program name \<longleftrightarrow>
     name \<noteq> [] \<and> length name \<le> 128 \<and> CHR 0x2F \<notin> set name \<and> CHR 0x5C \<notin> set name \<and> \<not> list_ex is_control (chars name)"

definition program_ok :: "process_identity \<Rightarrow> bool" where
  "program_ok m = (case i_program m of None \<Rightarrow> True | Some name \<Rightarrow> valid_program name)"

definition valid_identity :: "process_identity \<Rightarrow> bool" where
  "valid_identity m \<longleftrightarrow>
     1 < i_pid m \<and> 0 \<le> i_ppid m \<and> 0 \<le> i_group m \<and> i_token m \<noteq> [] \<and> length (i_token m) \<le> 256 \<and> program_ok m
     \<and> time_of (i_birth m) \<noteq> None"

text \<open>The loop over the members: \<open>known\<close> has those already inserted into the ordered map.\<close>

fun restore_members :: "process_identity list \<Rightarrow> process_identity list \<Rightarrow> process_identity list res" where
  "restore_members known [] = Inr known"
| "restore_members known (m # ms) =
     (if \<not> valid_identity m \<or> identity_key m \<in> identity_key ` set known
      then Inl (Integrity ''invalid captured process identity'')
      else restore_members (insort_key identity_key m known) ms)"

definition same_root :: "process_identity \<Rightarrow> process_identity \<Rightarrow> bool" where
  "same_root leader m \<longleftrightarrow> i_birth m = i_birth leader \<and> i_group m = i_group leader"

definition restore :: "ownership_snapshot \<Rightarrow> owned_process res" where
  "restore s =
     bindr (restore_members [] (os_members s)) (\<lambda>known.
       if \<not> program_ok (os_leader s)
          \<or> (case find (\<lambda>m. identity_key m = identity_key (os_leader s)) known of
               None \<Rightarrow> True | Some m \<Rightarrow> \<not> same_root (os_leader s) m)
       then Inl (Integrity ''captured process root is missing or inconsistent'')
       else Inr \<lparr> op_pid = i_pid (os_leader s), op_leader = os_leader s, op_known = known,
                  op_descendants_observed = os_descendants_observed s \<rparr>)"

subsection \<open>Recording\<close>

definition validate_owner :: "string \<Rightarrow> string \<Rightarrow> unit res" where
  "validate_owner kind i =
     (if kind \<notin> {''attempt'', ''service'', ''probe''} \<or> i = [] \<or> 256 < length i
      then Inl (invalid ''invalid process ownership key'') else Inr ())"

text \<open>
  The identities of the managed services and of their probes are in tables of their own; \<open>services\<close> has
  what they contain.
\<close>

definition owner_exists :: "(string \<Rightarrow> string list) \<Rightarrow> db \<Rightarrow> string \<Rightarrow> string \<Rightarrow> bool" where
  "owner_exists services db kind i =
     (if kind = ''attempt'' then i \<in> t_id ` set (attempts db) else i \<in> set (services kind))"

definition ownership_closed :: "db \<Rightarrow> string \<Rightarrow> bool" where
  "ownership_closed db i =
     list_ex (\<lambda>t. t_id t = i \<and> \<not> t_ownership_active t
       \<and> list_ex (\<lambda>a. a_id a = t_agent t \<and> terminal (a_status a)) (agents db)) (attempts db)"

definition owner_row :: "db \<Rightarrow> string \<Rightarrow> string \<Rightarrow> process_owner_row option" where
  "owner_row db kind i = find (\<lambda>r. o_kind r = kind \<and> o_owner r = i) (process_owners db)"

definition member_of :: "db \<Rightarrow> int \<times> string \<Rightarrow> process_member_row option" where
  "member_of db key = find (\<lambda>q. (q_pid q, q_token q) = key) (process_members db)"

fun remember_members :: "string \<Rightarrow> string \<Rightarrow> process_identity list \<Rightarrow> bool \<times> db \<Rightarrow> (bool \<times> db) res" where
  "remember_members kind i [] st = Inr st"
| "remember_members kind i (m # ms) (changed, db) =
     (case member_of db (identity_key m) of
        None \<Rightarrow>
          remember_members kind i ms (True, db\<lparr> process_members := process_members db @
            [\<lparr> q_kind = kind, q_owner = i, q_pid = i_pid m, q_token = i_token m, q_identity = m \<rparr>] \<rparr>)
      | Some q \<Rightarrow>
          if q_kind q \<noteq> kind \<or> q_owner q \<noteq> i then Inl (Integrity ''process identity has conflicting owners'')
          else remember_members kind i ms (changed, db))"

definition remember_owner :: "ext \<Rightarrow> string \<Rightarrow> string \<Rightarrow> ownership_snapshot \<Rightarrow> db \<Rightarrow> (bool \<times> db) res" where
  "remember_owner x kind i s db =
     (case owner_row db kind i of
        Some r \<Rightarrow>
          if o_leader r \<noteq> os_leader s then Inl (Integrity ''process owner cannot replace its root identity'')
          else Inr (False, db)
      | None \<Rightarrow>
          Inr (True, db\<lparr> process_owners := process_owners db @
            [\<lparr> o_kind = kind, o_owner = i, o_leader = os_leader s, o_descendants = os_descendants_observed s,
               o_updated_at = x_now x \<rparr>] \<rparr>))"

definition observe_owner :: "ext \<Rightarrow> string \<Rightarrow> string \<Rightarrow> bool \<Rightarrow> bool \<Rightarrow> db \<Rightarrow> db" where
  "observe_owner x kind i observed changed db =
     db\<lparr> process_owners := map (\<lambda>r.
       if o_kind r = kind \<and> o_owner r = i \<and> (changed \<or> o_descendants r < observed)
       then r\<lparr> o_descendants := max (o_descendants r) observed, o_updated_at := x_now x \<rparr> else r) (process_owners db) \<rparr>"

definition remember_processes_tx ::
    "ext \<Rightarrow> (string \<Rightarrow> string list) \<Rightarrow> string \<Rightarrow> string \<Rightarrow> ownership_snapshot \<Rightarrow> db \<Rightarrow> error + (unit \<times> db)" where
  "remember_processes_tx x services kind i s db =
     (if \<not> owner_exists services db kind i then Inl (invalid ''process owner does not exist'')
      else if kind = ''attempt'' \<and> ownership_closed db i then Inl (Transition ''terminal process ownership is closed'')
      else bindr (remember_owner x kind i s db) (\<lambda>st.
        bindr (remember_members kind i (os_members s) st) (\<lambda>(changed, db').
          Inr ((), observe_owner x kind i (os_descendants_observed s) changed db'))))"

definition remember_processes ::
    "ext \<Rightarrow> (string \<Rightarrow> string list) \<Rightarrow> string \<Rightarrow> string \<Rightarrow> ownership_snapshot \<Rightarrow> db \<Rightarrow> unit res \<times> db" where
  "remember_processes x services kind i s db =
     commit db (bindr (validate_owner kind i) (\<lambda>_. bindr (restore s) (\<lambda>_. remember_processes_tx x services kind i s db)))"

definition owned_members :: "db \<Rightarrow> string \<Rightarrow> string \<Rightarrow> process_identity list" where
  "owned_members db kind i =
     map q_identity (sort_key (\<lambda>q. (q_pid q, q_token q))
       (filter (\<lambda>q. q_kind q = kind \<and> q_owner q = i) (process_members db)))"

definition remembered_processes :: "db \<Rightarrow> string \<Rightarrow> string \<Rightarrow> owned_process option res" where
  "remembered_processes db kind i =
     bindr (validate_owner kind i) (\<lambda>_.
     case owner_row db kind i of
       None \<Rightarrow> Inr None
     | Some r \<Rightarrow>
         bindr (restore \<lparr> os_leader = o_leader r, os_members = owned_members db kind i,
                         os_descendants_observed = o_descendants r \<rparr>) (\<lambda>p. Inr (Some p)))"

subsection \<open>Compaction\<close>

text \<open>A field that \<^verbatim>\<open>json_extract\<close> reads as 1.\<close>

definition flag_set :: "string \<Rightarrow> json option \<Rightarrow> bool" where
  "flag_set key d = (case d of None \<Rightarrow> False | Some v \<Rightarrow> jfield key v \<in> {JBool True, JNum 1})"

definition attempts_of :: "db \<Rightarrow> string \<Rightarrow> attempt_row list" where
  "attempts_of db run = filter (\<lambda>t. t_agent t = run) (attempts db)"

definition attempt_owner :: "db \<Rightarrow> string \<Rightarrow> string \<Rightarrow> string \<Rightarrow> bool" where
  "attempt_owner db run kind i \<longleftrightarrow> kind = ''attempt'' \<and> i \<in> t_id ` set (attempts_of db run)"

definition attempt_unproven :: "db \<Rightarrow> attempt_row \<Rightarrow> bool" where
  "attempt_unproven db t \<longleftrightarrow>
     t_ownership_active t \<or> t_phase t \<noteq> Some ''cleanup_complete''
     \<or> (\<not> flag_set ''confirmed'' (t_cleanup_proof t)
        \<and> \<not> (flag_set ''never_spawned'' (t_cleanup_proof t) \<and> t_process_identity t = None
             \<and> owner_row db ''attempt'' (t_id t) = None))"

definition compaction_eligible :: "db \<Rightarrow> string \<Rightarrow> bool" where
  "compaction_eligible db run =
     (list_ex (\<lambda>a. a_id a = run \<and> terminal (a_status a)) (agents db) \<and> \<not> list_ex (attempt_unproven db) (attempts_of db run))"

definition json_members :: "json \<Rightarrow> json list" where
  "json_members d = (case jfield ''members'' d of JArr js \<Rightarrow> js | _ \<Rightarrow> [])"

text \<open>One observation has the process, the generation and the program, if it is known.\<close>

definition process_observations :: "db \<Rightarrow> string \<Rightarrow> ((json \<times> json) \<times> string option) list" where
  "process_observations db run =
     map (\<lambda>q. ((JNum (q_pid q), JStr (q_token q)), i_program (q_identity q)))
       (filter (\<lambda>q. attempt_owner db run (q_kind q) (q_owner q)) (process_members db))
     @ concat (map (\<lambda>v. map (\<lambda>j. ((jfield ''pid'' j, jfield ''token'' j), as_str (jfield ''program'' j))) (json_members (v_data v)))
         (filter (\<lambda>v. v_agent v = run \<and> v_kind v = ''mcp_discovery_ownership'') (events db)))"

definition processes :: "db \<Rightarrow> string \<Rightarrow> string option list" where
  "processes db run =
     (let obs = process_observations db run in
      map (\<lambda>k. max_row id (List.map_filter (\<lambda>(k', p). if k' = k then p else None) obs)) (remdups (map fst obs)))"

definition programs :: "string option list \<Rightarrow> (string \<times> nat) list" where
  "programs ps =
     (let names = List.map_filter id ps in
      take 16 (sort_key (\<lambda>(name, count). (- int count, name))
        (map (\<lambda>n. (n, count_list names n)) (remdups names))))"

text \<open>
  The summary document. The start and end times it repeats from the agent row are left out: the numbers of
  a document are integers here.
\<close>

definition process_summary :: "agent_row \<Rightarrow> string option list \<Rightarrow> json" where
  "process_summary a ps =
     (let unknown = length (filter (\<lambda>p. p = None) ps); named = sum_list (map snd (programs ps)) in
      JObj [(''status'', JStr (status_as_str (a_status a))), (''failure_kind'', jopt_str (a_failure_kind a)),
        (''version'', JNum 1), (''observed_processes'', JNum (int (length ps))),
        (''programs'', JArr (map (\<lambda>(n, c). JObj [(''name'', JStr n), (''count'', JNum (int c))]) (programs ps))),
        (''unknown_program'', JNum (int unknown)),
        (''other_programs'', JNum (int (length ps) - int named - int unknown)), (''cleanup_confirmed'', JBool True)])"

definition drop_evidence :: "string \<Rightarrow> db \<Rightarrow> db" where
  "drop_evidence run db =
     db\<lparr> process_members := filter (\<lambda>q. \<not> attempt_owner db run (q_kind q) (q_owner q)) (process_members db),
         process_owners := filter (\<lambda>r. \<not> attempt_owner db run (o_kind r) (o_owner r)) (process_owners db),
         events := filter (\<lambda>v. \<not> (v_agent v = run \<and> v_kind v = ''mcp_discovery_ownership'')) (events db) \<rparr>"

definition compact_terminal_processes :: "ext \<Rightarrow> string \<Rightarrow> db \<Rightarrow> error + (bool \<times> db)" where
  "compact_terminal_processes x run db =
     (let ps = processes db run in
      if \<not> compaction_eligible db run \<or> ps = [] then Inr (False, db)
      else bindr (ok_or no_rows (agent_by_id db run)) (\<lambda>a.
        Inr (True, drop_evidence run (snd (insert_event
          \<lparr> v_seq = 0, v_agent = run, v_attempt = map_option t_id (max_row t_number (attempts_of db run)),
            v_at = x_now x, v_kind = ''process_summary_v1'', v_from = None, v_to = None,
            v_data = process_summary a ps \<rparr> db)))))"

section \<open>What is recorded can be restored\<close>

lemma restore_members_ok:
  assumes "\<forall>m \<in> set ms. valid_identity m" and "distinct (map identity_key ms)"
    and "identity_key ` set known \<inter> identity_key ` set ms = {}"
  shows "\<exists>k. restore_members known ms = Inr k \<and> set k = set known \<union> set ms"
  using assms
proof (induction ms arbitrary: known)
  case (Cons m ms)
  then have "\<exists>k. restore_members (insort_key identity_key m known) ms = Inr k
      \<and> set k = set (insort_key identity_key m known) \<union> set ms"
    by (intro Cons.IH) (auto simp: set_insort_key)
  with Cons.prems show ?case by (auto simp: set_insort_key)
qed simp

lemma restore_members_InrD:
  "restore_members known ms = Inr k \<Longrightarrow>
     (\<forall>m \<in> set ms. valid_identity m) \<and> distinct (map identity_key ms) \<and> set k = set known \<union> set ms
     \<and> identity_key ` set known \<inter> identity_key ` set ms = {}"
proof (induction ms arbitrary: known)
  case (Cons m ms)
  then have m: "valid_identity m" "identity_key m \<notin> identity_key ` set known"
    and r: "restore_members (insort_key identity_key m known) ms = Inr k"
    by (auto split: if_splits)
  from Cons.IH [OF r] m show ?case by (auto simp: set_insort_key)
qed simp

definition snapshot_ok :: "process_identity \<Rightarrow> process_identity set \<Rightarrow> bool" where
  "snapshot_ok leader ms \<longleftrightarrow>
     program_ok leader \<and> (\<exists>m \<in> ms. identity_key m = identity_key leader \<and> same_root leader m)"

lemma find_by_key:
  assumes "inj_on f (set xs)" and "m \<in> set xs" and "f m = k"
  shows "find (\<lambda>y. f y = k) xs = Some m"
proof -
  have "find (\<lambda>y. f y = k) xs \<noteq> None" using assms(2,3) by (auto simp: find_None_iff)
  then obtain y where y: "find (\<lambda>y. f y = k) xs = Some y" by blast
  then have "y \<in> set xs" "f y = k" by (auto simp: find_Some_iff)
  with assms y show ?thesis by (metis inj_onD)
qed

lemma restore_ok:
  assumes "\<forall>m \<in> set (os_members s). valid_identity m" and "distinct (map identity_key (os_members s))"
    and "snapshot_ok (os_leader s) (set (os_members s))"
  shows "\<exists>p. restore s = Inr p \<and> op_leader p = os_leader s \<and> op_pid p = i_pid (os_leader s) \<and> set (op_known p) = set (os_members s)
     \<and> op_descendants_observed p = os_descendants_observed s"
proof -
  obtain k where k: "restore_members [] (os_members s) = Inr k" "set k = set (os_members s)"
    using restore_members_ok [OF assms(1,2), of "[]"] by auto
  obtain m where m: "m \<in> set k" "identity_key m = identity_key (os_leader s)" "same_root (os_leader s) m"
    using assms(3) k(2) by (auto simp: snapshot_ok_def)
  have "inj_on identity_key (set k)" using assms(2) k(2) by (simp add: distinct_map)
  from find_by_key [OF this m(1,2)] show ?thesis
    using assms(3) k m(3) by (simp add: restore_def snapshot_ok_def)
qed

lemma restore_InrD:
  assumes "restore s = Inr p"
  shows "\<forall>m \<in> set (os_members s). valid_identity m" "distinct (map identity_key (os_members s))"
    "snapshot_ok (os_leader s) (set (os_members s))"
proof -
  obtain k where k: "restore_members [] (os_members s) = Inr k" and "program_ok (os_leader s)"
    and "\<exists>m. find (\<lambda>m. identity_key m = identity_key (os_leader s)) k = Some m \<and> same_root (os_leader s) m"
    using assms by (auto simp: restore_def split: if_splits option.splits)
  then show "snapshot_ok (os_leader s) (set (os_members s))" using restore_members_InrD [OF k]
    unfolding snapshot_ok_def by (auto dest: find_Some_in)
  show "\<forall>m \<in> set (os_members s). valid_identity m" "distinct (map identity_key (os_members s))"
    using restore_members_InrD [OF k] by auto
qed

subsection \<open>Consistent evidence\<close>

definition process_key :: "process_member_row \<Rightarrow> int \<times> string" where
  "process_key q = (q_pid q, q_token q)"

definition owned_rows :: "db \<Rightarrow> string \<Rightarrow> string \<Rightarrow> process_member_row list" where
  "owned_rows db kind i = filter (\<lambda>q. q_kind q = kind \<and> q_owner q = i) (process_members db)"

definition owner_wf :: "db \<Rightarrow> process_owner_row \<Rightarrow> bool" where
  "owner_wf db r \<longleftrightarrow> snapshot_ok (o_leader r) (q_identity ` set (owned_rows db (o_kind r) (o_owner r)))"

definition row_wf :: "process_member_row \<Rightarrow> bool" where
  "row_wf q \<longleftrightarrow> valid_identity (q_identity q) \<and> identity_key (q_identity q) = process_key q"

definition process_wf :: "db \<Rightarrow> bool" where
  "process_wf db \<longleftrightarrow>
     distinct (map process_key (process_members db)) \<and> list_all row_wf (process_members db)
     \<and> list_all (owner_wf db) (process_owners db)
     \<and> (\<forall>q \<in> set (process_members db). owner_row db (q_kind q) (q_owner q) \<noteq> None)"

lemma owned_members_rows: "set (owned_members db kind i) = q_identity ` set (owned_rows db kind i)"
  by (simp add: owned_members_def owned_rows_def)

lemma owned_members_distinct:
  assumes "process_wf db"
  shows "distinct (map identity_key (owned_members db kind i))"
proof -
  have "distinct (map process_key (owned_rows db kind i))"
    using assms by (simp add: process_wf_def owned_rows_def distinct_map_filter)
  then have d: "distinct (map process_key (sort_key (\<lambda>q. (q_pid q, q_token q)) (owned_rows db kind i)))"
    by (simp add: distinct_map)
  have "map identity_key (owned_members db kind i) =
      map process_key (sort_key (\<lambda>q. (q_pid q, q_token q)) (owned_rows db kind i))"
    using assms by (auto simp: owned_members_def owned_rows_def process_wf_def list_all_iff row_wf_def)
  with d show ?thesis by simp
qed

lemma owner_row_in: "owner_row db kind i = Some r \<Longrightarrow> r \<in> set (process_owners db) \<and> o_kind r = kind \<and> o_owner r = i"
  by (auto simp: owner_row_def dest: find_Some_in)

lemma process_wf_restores:
  assumes "process_wf db" and "owner_row db kind i = Some r"
  shows "\<exists>p. restore \<lparr> os_leader = o_leader r, os_members = owned_members db kind i,
                      os_descendants_observed = o_descendants r \<rparr> = Inr p
     \<and> op_leader p = o_leader r \<and> set (op_known p) = q_identity ` set (owned_rows db kind i)"
proof -
  have "\<forall>m \<in> set (owned_members db kind i). valid_identity m"
    using assms(1) by (auto simp: owned_members_rows owned_rows_def process_wf_def list_all_iff row_wf_def)
  moreover have "snapshot_ok (o_leader r) (set (owned_members db kind i))"
    using assms owner_row_in [OF assms(2)] by (auto simp: owned_members_rows process_wf_def list_all_iff owner_wf_def)
  ultimately show ?thesis
    using restore_ok [of "\<lparr> os_leader = o_leader r, os_members = owned_members db kind i,
        os_descendants_observed = o_descendants r \<rparr>"] owned_members_distinct [OF assms(1)]
    by (auto simp: owned_members_rows)
qed

subsection \<open>Recording keeps the evidence consistent\<close>

lemma member_of_in: "member_of db key = Some q \<Longrightarrow> q \<in> set (process_members db) \<and> process_key q = key"
  by (auto simp: member_of_def process_key_def dest: find_Some_in)

lemma member_of_None: "member_of db key = None \<longleftrightarrow> key \<notin> process_key ` set (process_members db)"
  by (auto simp: member_of_def process_key_def find_None_iff)

text \<open>The rows an owner gains from a list of captured identities.\<close>

definition gains :: "string \<Rightarrow> string \<Rightarrow> process_identity list \<Rightarrow> process_member_row list \<Rightarrow> process_member_row list \<Rightarrow> bool" where
  "gains kind i ms qs qs' \<longleftrightarrow>
     (\<exists>new. qs' = qs @ new
        \<and> (\<forall>q \<in> set new. q_kind q = kind \<and> q_owner q = i \<and> q_identity q \<in> set ms \<and> identity_key (q_identity q) = process_key q))
     \<and> (\<forall>m \<in> set ms. \<exists>q \<in> set qs'. process_key q = identity_key m \<and> q_kind q = kind \<and> q_owner q = i)
     \<and> (distinct (map process_key qs) \<longrightarrow> distinct (map process_key qs'))"

lemma gains_old:
  assumes "q \<in> set qs" and "process_key q = identity_key m" and "q_kind q = kind" and "q_owner q = i" and "gains kind i ms qs qs'"
  shows "gains kind i (m # ms) qs qs'"
  using assms unfolding gains_def by fastforce

lemma gains_new:
  assumes "identity_key m \<notin> process_key ` set qs" and "q = \<lparr> q_kind = kind, q_owner = i, q_pid = i_pid m, q_token = i_token m, q_identity = m \<rparr>"
    and "gains kind i ms (qs @ [q]) qs'"
  shows "gains kind i (m # ms) qs qs'"
proof -
  have q: "process_key q = identity_key m" "q_kind q = kind" "q_owner q = i" "q_identity q = m"
    using assms(2) by (simp_all add: process_key_def identity_key_def)
  from assms(3) obtain new where new: "qs' = qs @ q # new"
      "\<forall>q \<in> set new. q_kind q = kind \<and> q_owner q = i \<and> q_identity q \<in> set ms \<and> identity_key (q_identity q) = process_key q"
    by (auto simp: gains_def)
  moreover have "\<forall>m \<in> set ms. \<exists>q \<in> set qs'. process_key q = identity_key m \<and> q_kind q = kind \<and> q_owner q = i"
    and "distinct (map process_key qs) \<longrightarrow> distinct (map process_key qs')"
    using assms(1,3) q(1) by (auto simp: gains_def)
  ultimately show ?thesis using q unfolding gains_def by auto
qed

lemma remember_members_gains:
  "remember_members kind i ms (c, db) = Inr (c', db') \<Longrightarrow>
     gains kind i ms (process_members db) (process_members db') \<and> db' = db\<lparr> process_members := process_members db' \<rparr>"
proof (induction ms arbitrary: c db)
  case Nil
  then show ?case by (simp add: gains_def)
next
  case (Cons m ms)
  show ?case
  proof (cases "member_of db (identity_key m)")
    case None
    define q where "q = \<lparr> q_kind = kind, q_owner = i, q_pid = i_pid m, q_token = i_token m, q_identity = m \<rparr>"
    have "remember_members kind i ms (True, db\<lparr> process_members := process_members db @ [q] \<rparr>) = Inr (c', db')"
      using Cons.prems None by (simp add: q_def)
    from Cons.IH [OF this] have "gains kind i ms (process_members db @ [q]) (process_members db')"
      and f: "db' = db\<lparr> process_members := process_members db' \<rparr>" by simp_all
    from gains_new [OF _ q_def this(1)] None f show ?thesis by (simp add: member_of_None)
  next
    case (Some q)
    with Cons.prems have q: "q_kind q = kind" "q_owner q = i" and r: "remember_members kind i ms (c, db) = Inr (c', db')"
      by (auto split: if_splits)
    from Cons.IH [OF r] gains_old [OF _ _ q] member_of_in [OF Some] show ?thesis by blast
  qed
qed

lemma gains_row:
  assumes "gains kind i ms qs qs'" and "q \<in> set qs'" and "q \<notin> set qs"
  shows "q_identity q \<in> set ms" "identity_key (q_identity q) = process_key q" "q_kind q = kind" "q_owner q = i"
  using assms unfolding gains_def by auto

lemma gains_covers:
  assumes "gains kind i ms qs qs'" and "m \<in> set ms"
  obtains q where "q \<in> set qs'" "process_key q = identity_key m" "q_kind q = kind" "q_owner q = i"
  using assms unfolding gains_def by auto

lemma gains_distinct: "gains kind i ms qs qs' \<Longrightarrow> distinct (map process_key qs) \<Longrightarrow> distinct (map process_key qs')"
  unfolding gains_def by blast

lemma snapshot_ok_mono: "snapshot_ok leader ms \<Longrightarrow> ms \<subseteq> ms' \<Longrightarrow> snapshot_ok leader ms'"
  by (auto simp: snapshot_ok_def)

lemma gains_rows:
  assumes "gains kind i ms (process_members db) (process_members db')"
  shows "set (owned_rows db k j) \<subseteq> set (owned_rows db' k j)"
  using assms by (auto simp: gains_def owned_rows_def)

lemma gains_row_wf:
  assumes "gains kind i ms qs qs'" and "\<forall>m \<in> set ms. valid_identity m" and "list_all row_wf qs"
  shows "list_all row_wf qs'"
  using assms by (auto simp: gains_def list_all_iff row_wf_def)

text \<open>An owner without rows gets a root from the snapshot it is first recorded with.\<close>

lemma gains_first:
  assumes g: "gains kind i ms (process_members db) (process_members db')"
    and none: "owned_rows db kind i = []" and d: "distinct (map identity_key ms)" and s: "snapshot_ok leader (set ms)"
  shows "snapshot_ok leader (q_identity ` set (owned_rows db' kind i))"
proof -
  from s obtain m where m: "m \<in> set ms" "identity_key m = identity_key leader" "same_root leader m" "program_ok leader"
    by (auto simp: snapshot_ok_def)
  obtain q where q: "q \<in> set (process_members db')" "process_key q = identity_key m" "q_kind q = kind" "q_owner q = i"
    using gains_covers [OF g m(1)] .
  have old: "q \<notin> set (process_members db)" using none q(3,4) by (auto simp: owned_rows_def filter_empty_conv)
  have "inj_on identity_key (set ms)" using d by (simp add: distinct_map)
  from inj_onD [OF this _ gains_row(1) [OF g q(1) old] m(1)] gains_row(2) [OF g q(1) old] q(2)
  have "q_identity q = m" by simp
  moreover have "q \<in> set (owned_rows db' kind i)" using q by (simp add: owned_rows_def)
  ultimately show ?thesis using m by (auto simp: snapshot_ok_def)
qed

text \<open>What consistency reads of the owners: their keys and roots.\<close>

definition owner_root :: "process_owner_row \<Rightarrow> (string \<times> string) \<times> process_identity" where
  "owner_root r = ((o_kind r, o_owner r), o_leader r)"

definition roots :: "db \<Rightarrow> ((string \<times> string) \<times> process_identity) set" where
  "roots db = owner_root ` set (process_owners db)"

definition rooted :: "db \<Rightarrow> (string \<times> string) \<times> process_identity \<Rightarrow> bool" where
  "rooted db c \<longleftrightarrow> snapshot_ok (snd c) (q_identity ` set (owned_rows db (fst (fst c)) (snd (fst c))))"

lemma owner_wf_rooted: "owner_wf db r = rooted db (owner_root r)"
  by (simp add: owner_wf_def rooted_def owner_root_def)

lemma owner_row_None: "owner_row db kind i = None \<longleftrightarrow> (kind, i) \<notin> fst ` roots db"
  by (auto simp: owner_row_def find_None_iff roots_def owner_root_def image_image)

lemma process_wf_alt:
  "process_wf db \<longleftrightarrow>
     distinct (map process_key (process_members db)) \<and> list_all row_wf (process_members db)
     \<and> (\<forall>c \<in> roots db. rooted db c) \<and> (\<forall>q \<in> set (process_members db). (q_kind q, q_owner q) \<in> fst ` roots db)"
  unfolding process_wf_def owner_row_None list_all_iff owner_wf_rooted roots_def by simp

lemma rooted_gains: "gains kind i ms (process_members db) (process_members db') \<Longrightarrow> rooted db c \<Longrightarrow> rooted db' c"
  unfolding rooted_def using snapshot_ok_mono [OF _ image_mono [OF gains_rows]] by blast

lemma no_owner_no_rows: "process_wf db \<Longrightarrow> owner_row db kind i = None \<Longrightarrow> owned_rows db kind i = []"
  unfolding process_wf_alt owner_row_None owned_rows_def filter_empty_conv by blast

lemma process_wf_gains:
  assumes wf: "process_wf db" and g: "gains kind i ms (process_members db) (process_members db')"
    and ms: "\<forall>m \<in> set ms. valid_identity m" and r: "roots db' = insert ((kind, i), leader) (roots db)"
    and new: "rooted db' ((kind, i), leader)"
  shows "process_wf db'"
proof -
  have w: "distinct (map process_key (process_members db))" "list_all row_wf (process_members db)"
    "\<forall>c \<in> roots db. rooted db c" "\<forall>q \<in> set (process_members db). (q_kind q, q_owner q) \<in> fst ` roots db"
    using wf unfolding process_wf_alt by blast+
  have "\<forall>c \<in> roots db'. rooted db' c" unfolding r using w(3) rooted_gains [OF g] new by blast
  moreover have "(q_kind q, q_owner q) \<in> fst ` roots db'" if "q \<in> set (process_members db')" for q
  proof (cases "q \<in> set (process_members db)")
    case True
    then show ?thesis unfolding r using w(4) by blast
  next
    case False
    then show ?thesis unfolding r using gains_row(3,4) [OF g that] by simp
  qed
  ultimately show ?thesis
    unfolding process_wf_alt using gains_distinct [OF g w(1)] gains_row_wf [OF g ms w(2)] by blast
qed

lemma observe_owner_members [simp]: "process_members (observe_owner x kind i b c db) = process_members db"
  by (simp add: observe_owner_def)

lemma observe_owner_root:
  "map owner_root (process_owners (observe_owner x kind i b c db)) = map owner_root (process_owners db)"
  by (simp add: observe_owner_def owner_root_def)

lemma observe_owner_roots [simp]: "roots (observe_owner x kind i b c db) = roots db"
  unfolding roots_def list.set_map [symmetric] observe_owner_root ..

lemma rooted_cong: "process_members db' = process_members db \<Longrightarrow> rooted db' = rooted db"
  by (simp add: fun_eq_iff rooted_def owned_rows_def)

lemma process_wf_cong: "process_members db' = process_members db \<Longrightarrow> roots db' = roots db \<Longrightarrow> process_wf db' = process_wf db"
  unfolding process_wf_alt using rooted_cong [of db' db] by simp

text \<open>Everything outside the two tables of the processes.\<close>

definition apart :: "db \<Rightarrow> db" where
  "apart db = db\<lparr> process_members := [], process_owners := [] \<rparr>"

lemma remember_effect:
  assumes r: "remember_processes_tx x services kind i s db = Inr (u, db')"
  shows "apart db' = apart db" "roots db' = insert ((kind, i), os_leader s) (roots db)"
    "gains kind i (os_members s) (process_members db) (process_members db')"
    "kind = ''attempt'' \<Longrightarrow> \<not> ownership_closed db i"
    "owner_row db kind i \<noteq> None \<Longrightarrow> ((kind, i), os_leader s) \<in> roots db"
proof -
  from r obtain c1 db1 c2 db2 where o: "remember_owner x kind i s db = Inr (c1, db1)"
    and m: "remember_members kind i (os_members s) (c1, db1) = Inr (c2, db2)"
    and d: "db' = observe_owner x kind i (os_descendants_observed s) c2 db2"
    and opn: "kind = ''attempt'' \<Longrightarrow> \<not> ownership_closed db i"
    by (auto simp: remember_processes_tx_def split: if_splits)
  have f: "process_members db1 = process_members db" "apart db1 = apart db"
    and roots1: "roots db1 = insert ((kind, i), os_leader s) (roots db)"
    using o owner_row_in [of db kind i] by (auto simp: remember_owner_def apart_def roots_def owner_root_def image_iff
        split: option.splits if_splits)
  from remember_members_gains [OF m] f(1) show "gains kind i (os_members s) (process_members db) (process_members db')"
    by (simp add: d)
  from remember_members_gains [OF m] have d2: "db2 = db1\<lparr> process_members := process_members db2 \<rparr>" by simp
  have "roots db2 = roots db1" by (subst d2) (simp add: roots_def)
  then show "roots db' = insert ((kind, i), os_leader s) (roots db)" using roots1 by (simp add: d)
  have "apart db2 = apart db1" by (subst d2) (simp add: apart_def)
  then show "apart db' = apart db" using f(2) by (simp add: d observe_owner_def apart_def)
  show "kind = ''attempt'' \<Longrightarrow> \<not> ownership_closed db i" by (rule opn)
  show "owner_row db kind i \<noteq> None \<Longrightarrow> ((kind, i), os_leader s) \<in> roots db"
    using o by (force simp: remember_owner_def roots_def owner_root_def split: if_splits dest: owner_row_in)
qed

lemma remember_step:
  assumes wf: "process_wf db" and s: "restore s = Inr p" and r: "remember_processes_tx x services kind i s db = Inr (u, db')"
  shows "process_wf db'"
proof (rule process_wf_gains [OF wf remember_effect(3) [OF r] restore_InrD(1) [OF s] remember_effect(2) [OF r]])
  show "rooted db' ((kind, i), os_leader s)"
  proof (cases "owner_row db kind i")
    case None
    then show ?thesis
      using gains_first [OF remember_effect(3) [OF r] no_owner_no_rows [OF wf] restore_InrD(2,3) [OF s]]
      by (simp add: rooted_def)
  next
    case (Some row)
    then have "((kind, i), os_leader s) \<in> roots db" by (intro remember_effect(5) [OF r]) simp
    then show ?thesis using wf rooted_gains [OF remember_effect(3) [OF r]] unfolding process_wf_alt by blast
  qed
qed

subsection \<open>Compaction drops whole owners\<close>

lemma process_wf_restrict:
  assumes wf: "process_wf db" and ms: "process_members db' = filter (\<lambda>q. P (q_kind q, q_owner q)) (process_members db)"
    and r: "roots db' = {c \<in> roots db. P (fst c)}"
  shows "process_wf db'"
proof -
  have w: "distinct (map process_key (process_members db))" "list_all row_wf (process_members db)"
    "\<forall>c \<in> roots db. rooted db c" "\<forall>q \<in> set (process_members db). (q_kind q, q_owner q) \<in> fst ` roots db"
    using wf unfolding process_wf_alt by blast+
  have "rooted db' c = rooted db c" if "P (fst c)" for c
  proof -
    have "owned_rows db' (fst (fst c)) (snd (fst c)) = owned_rows db (fst (fst c)) (snd (fst c))"
      unfolding owned_rows_def ms filter_filter using that by (intro filter_cong) auto
    then show ?thesis by (simp add: rooted_def)
  qed
  then have "\<forall>c \<in> roots db'. rooted db' c" unfolding r using w(3) by blast
  moreover have "(q_kind q, q_owner q) \<in> fst ` roots db'" if "q \<in> set (process_members db')" for q
  proof -
    from that have q: "q \<in> set (process_members db)" "P (q_kind q, q_owner q)" unfolding ms by simp_all
    from w(4) q(1) obtain c where "c \<in> roots db" "fst c = (q_kind q, q_owner q)" by force
    with q(2) show ?thesis unfolding r by force
  qed
  ultimately show ?thesis
    using w(1,2) unfolding process_wf_alt ms by (auto simp: distinct_map_filter list_all_iff)
qed

lemma drop_evidence_wf: "process_wf db \<Longrightarrow> process_wf (drop_evidence run db)"
proof (erule process_wf_restrict)
  let ?P = "\<lambda>k. \<not> attempt_owner db run (fst k) (snd k)"
  show "process_members (drop_evidence run db) = filter (\<lambda>q. ?P (q_kind q, q_owner q)) (process_members db)"
    by (simp add: drop_evidence_def)
  show "roots (drop_evidence run db) = {c \<in> roots db. ?P (fst c)}"
    unfolding roots_def drop_evidence_def owner_root_def by auto
qed

end
