(* ===== verification/Terminal.thy ===== *)
theory Terminal
  imports ProcessOwnership
begin

text \<open>
  The commit of one terminal result (\<^verbatim>\<open>crates/agent-run-store/src/terminal.rs\<close>, with the never-spawned
  predicate of \<^verbatim>\<open>provider_admission.rs\<close> and the resume admission of \<^verbatim>\<open>lineage.rs\<close>): the state of the agent
  and its attempts, the status events, the answer, a pending cancellation, the notice to the orchestrator
  and the release of ownership are one transaction. An answer proof has been verified against the file
  system before the commit and is an argument here.
\<close>

section \<open>Model\<close>

record answer_proof =
  pr_path :: string
  pr_bytes :: nat
  pr_sha256 :: string

subsection \<open>What an explicit result must show\<close>

definition finish_shown :: "ext \<Rightarrow> db \<Rightarrow> string \<Rightarrow> (finish_request \<times> bool) option res" where
  "finish_shown x db run =
     optr (\<lambda>l. bindr (ok_or bad_column (l_finish l)) (\<lambda>payload.
         bindr (read_finish x payload) (\<lambda>intent. Inr (intent, l_receipt_observed l))))
       (find (\<lambda>l. of_owned db run l \<and> l_finish l \<noteq> None) (worker_lifecycle db))"

definition check_answer :: "ext \<Rightarrow> (finish_request \<times> bool) option \<Rightarrow> answer_proof \<Rightarrow> unit res" where
  "check_answer x seen pr =
     bindr (ok_or (invalid ''explicit answer requires a finish intent'') seen) (\<lambda>(intent, observed).
       if \<not> observed then Inl (invalid ''explicit answer requires an observed private finish receipt'')
       else if pr_sha256 pr \<noteq> x_sha256 x (fr_summary intent) \<or> pr_bytes pr \<noteq> length (fr_summary intent)
       then Inl (invalid ''answer does not match immutable finish summary'')
       else Inr ())"

definition check_explicit :: "ext \<Rightarrow> db \<Rightarrow> agent_row \<Rightarrow> outcome \<Rightarrow> answer_proof option \<Rightarrow> unit res" where
  "check_explicit x db row out pr =
     (if \<not> a_explicit_finish row then Inr ()
      else bindr (finish_shown x db (a_id row)) (\<lambda>seen.
        if oc_status out = Succeeded \<and> \<not> (case seen of None \<Rightarrow> False | Some (intent, observed) \<Rightarrow> observed \<and> fr_status intent = Done)
        then Inl (invalid ''explicit success requires an observed private done finish receipt'')
        else case pr of None \<Rightarrow> Inr () | Some pr \<Rightarrow> check_answer x seen pr))"

subsection \<open>Ownership\<close>

definition never_spawned :: "db \<Rightarrow> attempt_row \<Rightarrow> bool" where
  "never_spawned db t \<longleftrightarrow>
     t_ownership_active t \<and> t_phase t = Some ''prepared'' \<and> t_process_identity t = None \<and> t_process_birth t = None
     \<and> t_cleanup_proof t = None
     \<and> length (filter (\<lambda>u. t_agent u = t_agent t \<and> t_ownership_active u) (attempts db)) = 1
     \<and> owner_row db ''attempt'' (t_id t) = None
     \<and> \<not> list_ex (\<lambda>q. q_kind q = ''attempt'' \<and> q_owner q = t_id t) (process_members db)"

definition update_attempts :: "(attempt_row \<Rightarrow> bool) \<Rightarrow> (attempt_row \<Rightarrow> attempt_row) \<Rightarrow> db \<Rightarrow> db" where
  "update_attempts P f db = db\<lparr> attempts := map (\<lambda>t. if P t then f t else t) (attempts db) \<rparr>"

definition prove_never_spawned :: "string \<Rightarrow> db \<Rightarrow> db" where
  "prove_never_spawned run db =
     update_attempts (\<lambda>t. t_id t \<in> t_id ` set (filter (\<lambda>u. t_agent u = run \<and> never_spawned db u) (attempts db)))
       (\<lambda>t. t\<lparr> t_cleanup_proof := Some (JObj [(''never_spawned'', JBool True)]), t_phase := Some ''cleanup_complete'' \<rparr>) db"

definition provider_attempt :: "agent_row \<Rightarrow> outcome \<Rightarrow> db \<Rightarrow> error + (string option \<times> db)" where
  "provider_attempt row out db =
     (if \<not> a_provider_identity row then Inr (None, db)
      else let db1 = (if oc_status out \<noteq> Succeeded then prove_never_spawned (a_id row) db else db) in
        bindr (ok_or no_rows (find (\<lambda>t. t_agent t = a_id row \<and> t_ownership_active t) (attempts db1))) (\<lambda>t.
          if t_cleanup_proof t = None then Inl (invalid ''provider attempt cannot release without cleanup proof'')
          else Inr (Some (t_id t), db1)))"

definition close_attempts :: "string \<Rightarrow> string option \<Rightarrow> status \<Rightarrow> rat \<Rightarrow> db \<Rightarrow> db" where
  "close_attempts run attempt to tm =
     update_attempts (\<lambda>t. t_agent t = run \<and> (case attempt of None \<Rightarrow> True | Some i \<Rightarrow> t_id t = i \<and> t_ownership_active t))
       (\<lambda>t. t\<lparr> t_state := status_as_str to, t_finished_at := Some tm \<rparr>)"

definition release_attempts :: "string \<Rightarrow> string option \<Rightarrow> db \<Rightarrow> db" where
  "release_attempts run attempt =
     update_attempts (\<lambda>t. t_agent t = run \<and>
         (case attempt of
            Some i \<Rightarrow> t_id t = i
          | None \<Rightarrow> t_ownership_active t \<and> t_phase t = Some ''cleanup_complete'' \<and> flag_set ''confirmed'' (t_cleanup_proof t)))
       (\<lambda>t. t\<lparr> t_ownership_active := False \<rparr>)"

subsection \<open>The result\<close>

definition pending_cancel :: "db \<Rightarrow> agent_row \<Rightarrow> outcome \<Rightarrow> nat option" where
  "pending_cancel db row out =
     (if oc_status out = Succeeded \<or> a_explicit_finish row then
        map_option c_id (max_row (\<lambda>c. - int (c_id c))
          (filter (\<lambda>c. c_agent c = a_id row \<and> c_kind c = ''cancel'' \<and> c_state c = ''pending'') (commands db)))
      else None)"

definition requested_status :: "agent_row \<Rightarrow> outcome \<Rightarrow> nat option \<Rightarrow> status" where
  "requested_status row out cancel = (if a_status row = Running \<and> cancel \<noteq> None then Cancelled else oc_status out)"

text \<open>The state the last status event starts from, and the one it goes to.\<close>

definition terminal_from :: "agent_row \<Rightarrow> status \<Rightarrow> status" where
  "terminal_from row requested =
     (if a_status row = Running \<and> requested = Cancelled then Cancelling else a_status row)"

definition terminal_to :: "agent_row \<Rightarrow> status \<Rightarrow> status" where
  "terminal_to row requested =
     (if terminal_from row requested = Cancelling \<and> requested \<noteq> Cancelled then Lost else requested)"

definition announce_cancelling :: "ext \<Rightarrow> agent_row \<Rightarrow> status \<Rightarrow> db \<Rightarrow> db" where
  "announce_cancelling x row requested db =
     (if a_status row = Running \<and> requested = Cancelled
      then snd (tx_event x db (a_id row) ''status'' (Some Running) (Some Cancelling) (JObj [])) else db)"

definition restart_finish_event :: "db \<Rightarrow> string \<Rightarrow> nat \<Rightarrow> bool" where
  "restart_finish_event db run restart =
     list_ex (\<lambda>v. v_agent v = run \<and> v_kind v = ''worker_finish_accepted_v1''
       \<and> jfield ''service_restart_id'' (v_data v) = JNum (int restart)) (events db)"

definition technical_restart :: "db \<Rightarrow> string \<Rightarrow> bool" where
  "technical_restart db run =
     list_ex (\<lambda>(a, r). r_id r = ra_restart a \<and> ra_agent a = run \<and> r_phase r = ''preparing'' \<and> r_finished_at r = None
         \<and> ra_resume_status a \<noteq> ''cancelled''
         \<and> (restart_finish_event db run (r_id r) \<or> (ra_force_requested a \<noteq> None \<and> \<not> finish_accepted db run)))
       (List.product (restart_agents db) (restarts db))"

definition finish_member :: "string \<Rightarrow> db \<Rightarrow> db" where
  "finish_member run db =
     update_members (\<lambda>a. ra_agent a = run \<and> ra_resume_status a = ''pending''
         \<and> list_ex (\<lambda>r. r_id r = ra_restart a \<and> r_phase r = ''preparing'' \<and> r_finished_at r = None) (restarts db))
       (\<lambda>a. a\<lparr> ra_resume_status := ''finished'' \<rparr>) db"

definition close_agent :: "status \<Rightarrow> rat \<Rightarrow> outcome \<Rightarrow> answer_proof option \<Rightarrow> agent_row \<Rightarrow> agent_row" where
  "close_agent to tm out pr a =
     a\<lparr> a_status := to, a_finished_at := Some tm, a_exit_code := oc_exit_code out, a_failure_kind := oc_failure_kind out,
        a_failure_text := oc_failure_text out,
        a_runtime_session := (case oc_runtime_session_id out of None \<Rightarrow> a_runtime_session a | s \<Rightarrow> s),
        a_answer := map_option (\<lambda>p. (pr_path p, pr_bytes p, pr_sha256 p)) pr \<rparr>"

definition complete_cancel :: "nat option \<Rightarrow> rat \<Rightarrow> db \<Rightarrow> db" where
  "complete_cancel cancel tm db =
     db\<lparr> commands := map (\<lambda>c. if Some (c_id c) = cancel \<and> c_state c = ''pending'' then
         c\<lparr> c_state := ''completed'', c_claimed_at := Some tm, c_completed_at := Some tm,
            c_result := Some (JObj [(''accepted'', JBool True), (''reason'', JStr ''terminal_cancel'')]) \<rparr> else c) (commands db) \<rparr>"

definition usage_event :: "ext \<Rightarrow> string \<Rightarrow> json option \<Rightarrow> db \<Rightarrow> db" where
  "usage_event x run usage db =
     (case usage of
        None \<Rightarrow> db
      | Some u \<Rightarrow>
          snd (tx_event x db run
            (if as_str (jfield ''_source'' u) = Some ''token_usage_updated'' then ''thread/tokenUsage/updated'' else ''runtime_result'')
            None None u))"

definition announce_terminal ::
    "ext \<Rightarrow> agent_row \<Rightarrow> status \<Rightarrow> status \<Rightarrow> outcome \<Rightarrow> bool \<Rightarrow> rat \<Rightarrow> db \<Rightarrow> db" where
  "announce_terminal x row from to out technical tm db =
     (let (event, db1) = tx_event x db (a_id row) ''status'' (Some from) (Some to)
            (JObj ([(''failure_kind'', jopt_str (oc_failure_kind out))] @
               (if technical then [(''service_restart'', JBool True)] else []))) in
      if technical then db1 else snd (insert_terminal_notice x db1 (a_id row) (a_session row) event tm))"

text \<open>The writes of the commit, in their order, once every check has passed.\<close>

definition write_terminal ::
    "ext \<Rightarrow> agent_row \<Rightarrow> outcome \<Rightarrow> answer_proof option \<Rightarrow> json option \<Rightarrow> string option \<Rightarrow> nat option \<Rightarrow> db \<Rightarrow> db" where
  "write_terminal x row out pr usage attempt cancel db =
     (let run = a_id row; tm = x_now x; requested = requested_status row out cancel;
          from = terminal_from row requested; to = terminal_to row requested;
          technical = technical_restart db run;
          db1 = (if technical then db else finish_member run db);
          db2 = db1\<lparr> agents := map (\<lambda>a. if a_id a = run
                       then close_agent to tm out (if technical then None else pr) a else a) (agents db1) \<rparr>;
          db3 = close_attempts run attempt to tm (complete_cancel cancel tm db2);
          db4 = announce_terminal x row from to out technical tm db3 in
      release_attempts run attempt (usage_event x run usage db4))"

definition terminal_tx ::
    "ext \<Rightarrow> agent_row \<Rightarrow> outcome \<Rightarrow> answer_proof option \<Rightarrow> json option \<Rightarrow> db \<Rightarrow> error + (rat option \<times> db)" where
  "terminal_tx x row out pr usage db =
     bindr (check_explicit x db row out pr) (\<lambda>_.
     bindr (provider_attempt row out db) (\<lambda>(attempt, db1).
     let cancel = pending_cancel db1 row out; requested = requested_status row out cancel in
     bindr (transition (terminal_from row requested) (terminal_to row requested)) (\<lambda>_.
     bindr (compact_terminal_processes x (a_id row)
         (write_terminal x row out pr usage attempt cancel (announce_cancelling x row requested db1))) (\<lambda>(_, db').
       Inr (Some (x_now x), db')))))"

definition commit_terminal ::
    "ext \<Rightarrow> string \<Rightarrow> outcome \<Rightarrow> answer_proof option \<Rightarrow> json option \<Rightarrow> db \<Rightarrow> rat option res \<times> db" where
  "commit_terminal x run out pr usage db =
     (if \<not> terminal (oc_status out) then (Inl (invalid ''outcome must be terminal''), db)
      else if oc_status out = Succeeded \<and> pr = None then (Inl (invalid ''success requires a sealed answer proof''), db)
      else commit db (bindr (ok_or no_rows (agent_by_id db run)) (\<lambda>a.
        bindr (read_record x a) (\<lambda>row.
          if terminal (a_status row) then Inr (None, db) else terminal_tx x row out pr usage db))))"

subsection \<open>Resuming\<close>

record resume_lineage =
  rl_root :: string
  rl_sequence :: nat
  rl_runtime_session :: string

definition group_is_gone :: "ext \<Rightarrow> int \<Rightarrow> bool" where
  "group_is_gone x pgid \<longleftrightarrow> 1 < pgid \<and> x_group_gone x pgid"

definition quiescent :: "ext \<Rightarrow> agent_row \<Rightarrow> bool" where
  "quiescent x a = (case a_process_group a of Some pgid \<Rightarrow> group_is_gone x pgid | None \<Rightarrow> a_supervisor_pid a = None)"

definition resume_parent :: "ext \<Rightarrow> db \<Rightarrow> string \<Rightarrow> resume_lineage res" where
  "resume_parent x db i =
     bindr (ok_or no_rows (agent_by_id db i)) (\<lambda>a.
     bindr (read_record x a) (\<lambda>parent.
     if \<not> terminal (a_status parent) then
       Inl (invalid (''agent '' @ i @ '' is not resumable in status '' @ status_as_str (a_status parent)))
     else if \<not> quiescent x parent then
       Inl (invalid (''agent '' @ i @ '' finished but its runtime process is still alive or unprovable; refusing to attach to a session it may own''))
     else case (case a_runtime_session parent of None \<Rightarrow> a_resume_session parent | s \<Rightarrow> s) of
       None \<Rightarrow> Inl (invalid (''agent '' @ i @ '' recorded no runtime session to resume''))
     | Some session \<Rightarrow>
         if trim session = [] then Inl (invalid (''agent '' @ i @ '' recorded no runtime session to resume''))
         else if 4294967295 \<le> a_sequence parent then Inl (invalid ''lineage sequence overflow'')
         else Inr \<lparr> rl_root = a_root parent, rl_sequence = a_sequence parent + 1, rl_runtime_session = session \<rparr>))"

end
