(* ===== verification/WorkerRuns.thy ===== *)
theory WorkerRuns
  imports Terminal StoreRuns
begin

text \<open>
  The operations on an execution that has started, from its first turn to its end, as steps on one database,
  and what every interleaving of them keeps: an accepted finish, a result, a queued wake-up and a released
  attempt are never taken back, and the recorded processes stay consistent.
\<close>

section \<open>Steps\<close>

datatype worker_op =
    OpBegin string string rat
  | OpTurn string bool f64
  | OpFinish string string string finish_request f64 finish_guard
  | OpReceipt string
  | OpWake string string string f64
  | OpRemember "string \<Rightarrow> string list" string string ownership_snapshot
  | OpTerminal string outcome "answer_proof option" "json option"

fun worker_exec :: "ext \<times> worker_op \<Rightarrow> db \<Rightarrow> db" where
  "worker_exec (x, OpBegin run attempt tm) db = snd (begin_worker_lifecycle x run attempt tm db)"
| "worker_exec (x, OpTurn run idle tm) db = snd (worker_turn run idle tm db)"
| "worker_exec (x, OpFinish run attempt token input tm guard) db =
     snd (accept_worker_finish x run attempt token input tm guard db)"
| "worker_exec (x, OpReceipt run) db = snd (observe_worker_finish_receipt run db)"
| "worker_exec (x, OpWake run digest msg tm) db = snd (enqueue_native_wake run digest msg tm db)"
| "worker_exec (x, OpRemember services kind i s) db = snd (remember_processes x services kind i s db)"
| "worker_exec (x, OpTerminal run out pr usage) db = snd (commit_terminal x run out pr usage db)"

section \<open>What is kept\<close>

text \<open>A later version of a lifecycle row: counters grow, and an accepted finish stays as it is.\<close>

definition later :: "lifecycle_row \<Rightarrow> lifecycle_row \<Rightarrow> bool" where
  "later l l' \<longleftrightarrow>
     l_attempt l' = l_attempt l \<and> l_turn_count l \<le> l_turn_count l' \<and> l_idle_seconds l \<le> l_idle_seconds l'
     \<and> (l_receipt_observed l \<longrightarrow> l_receipt_observed l')
     \<and> (l_finish l \<noteq> None \<longrightarrow> l_finish l' = l_finish l \<and> l_finish_sha256 l' = l_finish_sha256 l
          \<and> l_accepted_at l' = l_accepted_at l \<and> l_phase l' = l_phase l)"

definition rows_later :: "lifecycle_row list \<Rightarrow> lifecycle_row list \<Rightarrow> bool" where
  "rows_later ls ls' \<longleftrightarrow> (\<exists>f new. ls' = map f ls @ new \<and> (\<forall>l. later l (f l)))"

definition released_only :: "attempt_row list \<Rightarrow> attempt_row list \<Rightarrow> bool" where
  "released_only ts ts' \<longleftrightarrow>
     (\<exists>f. ts' = map f ts \<and> (\<forall>t. t_id (f t) = t_id t \<and> t_agent (f t) = t_agent t
        \<and> (t_ownership_active (f t) \<longrightarrow> t_ownership_active t)))"

definition results_kept :: "db \<Rightarrow> db \<Rightarrow> bool" where
  "results_kept db db' \<longleftrightarrow>
     (\<forall>i a. agent_by_id db i = Some a \<and> terminal (a_status a) \<longrightarrow> agent_by_id db' i = Some a)"

definition worker_kept :: "db \<Rightarrow> db \<Rightarrow> bool" where
  "worker_kept db db' \<longleftrightarrow>
     rows_later (worker_lifecycle db) (worker_lifecycle db') \<and> released_only (attempts db) (attempts db')
     \<and> results_kept db db' \<and> prefix (wakes db) (wakes db')"

definition wake_key :: "wake_row \<Rightarrow> string \<times> string" where
  "wake_key w = (w_attempt w, w_receipt_sha256 w)"

definition worker_wf :: "db \<Rightarrow> bool" where
  "worker_wf db \<longleftrightarrow>
     process_wf db \<and> distinct (map l_attempt (worker_lifecycle db)) \<and> distinct (map wake_key (wakes db))"

lemma later_refl: "later l l"
  by (simp add: later_def)

lemma later_trans: "later a b \<Longrightarrow> later b c \<Longrightarrow> later a c"
  by (auto simp: later_def)

lemma rows_later_refl: "rows_later ls ls"
  unfolding rows_later_def by (intro exI [of _ "\<lambda>l. l"] exI [of _ "[]"]) (simp add: later_refl)

lemma rows_later_trans:
  assumes "rows_later ls ls'" and "rows_later ls' ls''"
  shows "rows_later ls ls''"
proof -
  obtain f new g more where e: "ls' = map f ls @ new" "ls'' = map g ls' @ more" and l: "\<forall>l. later l (f l)" "\<forall>l. later l (g l)"
    using assms unfolding rows_later_def by blast
  have "ls'' = map (\<lambda>l. g (f l)) ls @ (map g new @ more)" using e by simp
  moreover have "later l (g (f l))" for l by (rule later_trans [OF spec [OF l(1)] spec [OF l(2)]])
  ultimately show ?thesis unfolding rows_later_def by blast
qed

lemma released_only_refl: "released_only ts ts"
  unfolding released_only_def by (intro exI [of _ "\<lambda>t. t"]) simp

lemma released_only_trans:
  assumes "released_only ts ts'" and "released_only ts' ts''"
  shows "released_only ts ts''"
proof -
  obtain f g where "ts' = map f ts" "ts'' = map g ts'"
    and fg: "\<forall>t. t_id (f t) = t_id t \<and> t_agent (f t) = t_agent t \<and> (t_ownership_active (f t) \<longrightarrow> t_ownership_active t)"
      "\<forall>t. t_id (g t) = t_id t \<and> t_agent (g t) = t_agent t \<and> (t_ownership_active (g t) \<longrightarrow> t_ownership_active t)"
    using assms unfolding released_only_def by blast
  then have "ts'' = map (\<lambda>t. g (f t)) ts" by simp
  with fg show ?thesis unfolding released_only_def by metis
qed

lemma worker_kept_refl: "worker_kept db db"
  by (simp add: worker_kept_def rows_later_refl released_only_refl results_kept_def)

lemma worker_kept_trans:
  assumes "worker_kept a b" and "worker_kept b c"
  shows "worker_kept a c"
proof -
  have "results_kept a c" using assms unfolding worker_kept_def results_kept_def by blast
  then show ?thesis
    using assms rows_later_trans released_only_trans prefix_order.trans unfolding worker_kept_def by blast
qed

text \<open>The tables these facts read.\<close>

definition core :: "db \<Rightarrow> lifecycle_row list \<times> attempt_row list \<times> agent_row list \<times> wake_row list
    \<times> process_member_row list \<times> process_owner_row list" where
  "core db = (worker_lifecycle db, attempts db, agents db, wakes db, process_members db, process_owners db)"

definition kept_step :: "db \<Rightarrow> db \<Rightarrow> bool" where
  "kept_step db db' \<longleftrightarrow> (worker_wf db \<longrightarrow> worker_wf db') \<and> worker_kept db db'"

lemma kept_step_refl: "kept_step db db"
  by (simp add: kept_step_def worker_kept_refl)

lemma kept_step_trans: "kept_step a b \<Longrightarrow> kept_step b c \<Longrightarrow> kept_step a c"
  using worker_kept_trans unfolding kept_step_def by blast

lemma kept_step_core: "core db' = core db'' \<Longrightarrow> kept_step db db'' \<Longrightarrow> kept_step db db'"
  unfolding core_def kept_step_def worker_kept_def worker_wf_def results_kept_def agent_by_id_def
    process_wf_alt rooted_def owned_rows_def roots_def by simp

lemma kept_step_same: "core db' = core db \<Longrightarrow> kept_step db db'"
  using kept_step_core [OF _ kept_step_refl] .

lemma core_insert_event [simp]: "core (snd (insert_event v db)) = core db"
  by (simp add: core_def insert_event_def Let_def)

lemma core_tx_event [simp]: "core (snd (tx_event x db agent kind from to d)) = core db"
  by (simp add: tx_event_def)

text \<open>Changes of the lifecycle rows alone.\<close>

lemma kept_step_rows:
  assumes "core db' = core (db\<lparr> worker_lifecycle := ls \<rparr>)" and "rows_later (worker_lifecycle db) ls"
    and "distinct (map l_attempt (worker_lifecycle db)) \<Longrightarrow> distinct (map l_attempt ls)"
  shows "kept_step db db'"
  using assms(2,3)
  by (intro kept_step_core [OF assms(1)])
    (simp add: kept_step_def worker_kept_def worker_wf_def results_kept_def agent_by_id_def released_only_refl
      process_wf_alt rooted_def owned_rows_def roots_def)

lemma kept_step_update:
  assumes "core db' = core (update_lifecycle P f db)" and "\<And>l. P l \<Longrightarrow> later l (f l)"
  shows "kept_step db db'"
proof (rule kept_step_rows)
  let ?f = "\<lambda>l. if P l then f l else l"
  have f: "later l (?f l)" for l using assms(2) later_refl by simp
  show "core db' = core (db\<lparr> worker_lifecycle := map ?f (worker_lifecycle db) \<rparr>)"
    using assms(1) by (simp add: update_lifecycle_def)
  show "rows_later (worker_lifecycle db) (map ?f (worker_lifecycle db))"
    unfolding rows_later_def using f by (intro exI [of _ ?f] exI [of _ "[]"]) simp
  have "map l_attempt (map ?f (worker_lifecycle db)) = map l_attempt (worker_lifecycle db)"
    using f by (simp add: later_def)
  then show "distinct (map l_attempt (worker_lifecycle db)) \<Longrightarrow> distinct (map l_attempt (map ?f (worker_lifecycle db)))"
    by (simp only:)
qed

section \<open>Turns, finish, receipt and wake-ups\<close>

lemma idle_until_mono: "l_idle_seconds l \<le> idle_until tm l"
  by (simp add: idle_until_def)

lemma accept_cases:
  assumes "accept_worker_finish x run attempt token input at_time guard db = (r, db')"
  obtains (refused) e where "r = Inl e" "db' = db"
  | (replayed) l where "r = Inr \<lparr> fin_sha256 = x_sha256 x (finish_payload input), fin_duplicate = True \<rparr>" "db' = db"
      "lifecycle_of db attempt = Some l" "l_finish l = Some (finish_payload input)"
      "l_finish_sha256 l = Some (x_sha256 x (finish_payload input))"
  | (accepted) l restart tm where "r = Inr \<lparr> fin_sha256 = x_sha256 x (finish_payload input), fin_duplicate = False \<rparr>"
      "db' = record_finish run attempt input (finish_payload input) (x_sha256 x (finish_payload input)) restart tm db"
      "lifecycle_of db attempt = Some l" "l_finish l = None" "guard = GuardClean"
      "finish_admissible db run attempt = Inr True"
proof (cases r)
  case (Inl e)
  with assms have "db' = db" by (auto simp: accept_worker_finish_def commit_def split: sum.splits prod.splits)
  with Inl refused show ?thesis by blast
next
  case (Inr rec)
  from assms Inr obtain tm where "accept_tx x run attempt token input tm guard db = Inr (rec, db')"
    by (auto simp: accept_worker_finish_def commit_def split: sum.splits prod.splits option.splits bool.splits)
  then obtain restart where adm: "finish_admissible db run attempt = Inr True"
    and s: "store_finish x run attempt input restart guard tm db = Inr (rec, db')"
    by (auto simp: accept_tx_def split: if_splits)
  obtain l where l: "lifecycle_of db attempt = Some l"
    using s by (auto simp: store_finish_def Let_def split: option.splits)
  show ?thesis
  proof (cases "l_finish l")
    case None
    with s l have "check_guard guard = Inr ()" by (auto simp: store_finish_def Let_def)
    then have "guard = GuardClean" by (cases guard) auto
    with s l None adm accepted Inr show ?thesis by (auto simp: store_finish_def Let_def)
  next
    case (Some p)
    with s l replayed Inr show ?thesis by (auto simp: store_finish_def Let_def split: if_splits)
  qed
qed

lemma record_finish_core:
  "core (record_finish run attempt input payload digest restart tm db) = core (close_lifecycle attempt payload digest tm db)"
  by (simp add: record_finish_def)

lemma accept_kept: "kept_step db (snd (accept_worker_finish x run attempt token input at_time guard db))"
proof (cases "accept_worker_finish x run attempt token input at_time guard db")
  case (Pair r db')
  then show ?thesis
  proof (cases rule: accept_cases)
    case (accepted l restart tm)
    have "kept_step db db'"
      by (rule kept_step_update, unfold accepted(2) record_finish_core close_lifecycle_def, rule refl)
        (simp add: later_def idle_until_mono)
    with Pair show ?thesis by simp
  qed (simp_all add: Pair kept_step_refl)
qed

lemma receipt_kept: "kept_step db (snd (observe_worker_finish_receipt run db))"
  unfolding observe_worker_finish_receipt_def snd_conv
  by (rule kept_step_update, rule refl) (simp add: later_def)

lemma turn_events_core: "core (fold (turn_event run phase tm) ls db) = core db"
  by (induction ls arbitrary: db) (simp_all add: turn_event_def)

lemma turn_kept: "kept_step db (snd (worker_turn run idle at_time db))"
proof (cases "time_of at_time")
  case (Some tm)
  define phase where "phase = (if idle then ''idle'' else ''running'')"
  have "later l (turn_row phase tm l)" if "turns db run phase l" for l
    using that by (simp add: later_def turn_row_def turns_def idle_until_mono)
  then have "kept_step db (fold (turn_event run phase tm) ls (update_lifecycle (turns db run phase) (turn_row phase tm) db))" for ls
    by (rule kept_step_update [OF turn_events_core])
  then show ?thesis
    using Some by (simp add: worker_turn_def Let_def phase_def [symmetric] kept_step_refl)
qed (simp add: worker_turn_def Let_def kept_step_refl)

lemma health_core: "begin_worker_health x run attempt tm db = Inr db' \<Longrightarrow> core db' = core db"
  by (auto simp: begin_worker_health_def split: if_splits)

lemma begin_lifecycle_kept: "kept_step db (snd (begin_worker_lifecycle x run attempt tm db))"
proof (cases "begin_worker_lifecycle x run attempt tm db")
  case (Pair r db')
  show ?thesis
  proof (cases "db' = db")
    case False
    define l where "l = \<lparr> l_attempt = attempt, l_phase = ''running'', l_turn_count = 1, l_transition_at = tm, l_idle_seconds = 0,
      l_finish = None, l_finish_sha256 = None, l_accepted_at = None, l_receipt_observed = False \<rparr>"
    have l: "lifecycle_of db attempt = None" "l_attempt l = attempt"
      and h: "begin_worker_health x run attempt tm (db\<lparr> worker_lifecycle := worker_lifecycle db @ [l] \<rparr>) = Inr db'"
      using False Pair unfolding l_def
      by (auto simp: begin_worker_lifecycle_def begin_lifecycle_tx_def commit_def split: sum.splits prod.splits if_splits)
    have "rows_later (worker_lifecycle db) (worker_lifecycle db @ [l])"
      unfolding rows_later_def by (intro exI [of _ "\<lambda>l. l"] exI [of _ "[l]"]) (simp add: later_refl)
    moreover have "attempt \<notin> l_attempt ` set (worker_lifecycle db)"
      using l(1) by (auto simp: lifecycle_of_def find_None_iff)
    ultimately have "kept_step db db'" using l(2) by (intro kept_step_rows [OF health_core [OF h]]) auto
    with Pair show ?thesis by simp
  qed (simp add: Pair kept_step_refl)
qed

lemma wake_kept: "kept_step db (snd (enqueue_native_wake run digest msg at_time db))"
proof (cases "snd (enqueue_native_wake run digest msg at_time db) = db")
  case False
  then obtain attempt tm where w: "snd (enqueue_native_wake run digest msg at_time db) = queue_wake run attempt digest msg tm db"
    and n: "\<not> list_ex (\<lambda>w. w_attempt w = attempt \<and> w_receipt_sha256 w = digest) (wakes db)"
    by (auto simp: enqueue_native_wake_def split: option.splits bool.splits if_splits)
  define row where "row = \<lparr> w_attempt = attempt, w_receipt_sha256 = digest, w_command = Suc (command_seq db), w_created_at = tm \<rparr>"
  have c: "core (queue_wake run attempt digest msg tm db) = core (db\<lparr> wakes := wakes db @ [row] \<rparr>)"
    by (simp add: core_def queue_wake_def insert_command_def Let_def row_def)
  have "wake_key row \<notin> wake_key ` set (wakes db)" using n by (auto simp: wake_key_def row_def list_ex_iff)
  then have "kept_step db (db\<lparr> wakes := wakes db @ [row] \<rparr>)"
    by (simp add: kept_step_def worker_kept_def worker_wf_def results_kept_def agent_by_id_def released_only_refl
        rows_later_refl process_wf_alt rooted_def owned_rows_def roots_def)
  from kept_step_core [OF c this] show ?thesis by (simp only: w)
qed (simp add: kept_step_refl)

section \<open>Processes and results\<close>

lemma apart_same:
  assumes "apart db' = apart db"
  shows "worker_lifecycle db' = worker_lifecycle db" "attempts db' = attempts db" "agents db' = agents db" "wakes db' = wakes db"
  using arg_cong [OF assms, of worker_lifecycle] arg_cong [OF assms, of attempts] arg_cong [OF assms, of agents]
    arg_cong [OF assms, of wakes]
  by (simp_all add: apart_def)

lemma remember_processes_kept: "kept_step db (snd (remember_processes x services kind i s db))"
proof (cases "remember_processes x services kind i s db")
  case (Pair r db')
  show ?thesis
  proof (cases "db' = db")
    case False
    with Pair obtain p u where p: "restore s = Inr p" and t: "remember_processes_tx x services kind i s db = Inr (u, db')"
      by (auto simp: remember_processes_def commit_def split: sum.splits prod.splits)
    have wf: "process_wf db \<Longrightarrow> process_wf db'" using remember_step [OF _ p t] .
    note f = apart_same [OF remember_effect(1) [OF t]]
    show ?thesis
      using wf by (simp add: Pair kept_step_def worker_wf_def worker_kept_def results_kept_def agent_by_id_def f
          rows_later_refl released_only_refl)
  qed (simp add: Pair kept_step_refl)
qed

lemma kept_step_attempts:
  assumes "\<And>t. P t \<Longrightarrow> t_id (f t) = t_id t \<and> t_agent (f t) = t_agent t \<and> (t_ownership_active (f t) \<longrightarrow> t_ownership_active t)"
  shows "kept_step db (update_attempts P f db)"
proof -
  have "released_only (attempts db) (attempts (update_attempts P f db))"
    unfolding released_only_def by (intro exI [of _ "\<lambda>t. if P t then f t else t"]) (simp add: assms update_attempts_def)
  then show ?thesis
    by (simp add: kept_step_def worker_wf_def worker_kept_def results_kept_def agent_by_id_def rows_later_refl
        update_attempts_def process_wf_alt rooted_def owned_rows_def roots_def)
qed

lemma agent_by_id_map:
  assumes "\<And>a. a_id (f a) = a_id a"
  shows "agent_by_id (db\<lparr> agents := map (\<lambda>a. if a_id a = run then f a else a) (agents db) \<rparr>) i =
    map_option (\<lambda>a. if a_id a = run then f a else a) (agent_by_id db i)"
  unfolding agent_by_id_def using assms by (simp add: find_map_same)

lemma agent_by_id_id: "agent_by_id db i = Some a \<Longrightarrow> a_id a = i"
  by (auto simp: agent_by_id_def dest: find_Some_in)

lemma kept_step_agents:
  assumes a: "agent_by_id db run = Some a" "\<not> terminal (a_status a)" and f: "\<And>a. a_id (f a) = a_id a"
  shows "kept_step db (db\<lparr> agents := map (\<lambda>a. if a_id a = run then f a else a) (agents db) \<rparr>)" (is "kept_step db ?db'")
proof -
  have "agent_by_id ?db' i = Some b" if b: "agent_by_id db i = Some b" "terminal (a_status b)" for i b
  proof -
    have "a_id b \<noteq> run" using a b agent_by_id_id [OF b(1)] by auto
    then show ?thesis using b(1) by (simp add: agent_by_id_map [of f, OF f])
  qed
  then have "results_kept db ?db'" unfolding results_kept_def by blast
  then show ?thesis
    by (simp add: kept_step_def worker_wf_def worker_kept_def rows_later_refl released_only_refl
        process_wf_alt rooted_def owned_rows_def roots_def)
qed

lemma terminal_cores [simp]:
  "core (usage_event x run usage db) = core db" "core (complete_cancel cancel tm db) = core db"
  "core (finish_member run db) = core db" "core (announce_cancelling x row requested db) = core db"
  by (simp_all add: usage_event_def announce_cancelling_def split: option.split)
    (simp_all add: core_def complete_cancel_def finish_member_def update_members_def)

lemma notice_core: "core (snd (insert_terminal_notice x db agent session event tm)) = core db"
  by (simp add: insert_terminal_notice_def insert_delivery_def core_def Let_def split: option.split)

lemma announce_core [simp]: "core (announce_terminal x row from to out technical tm db) = core db"
  by (simp add: announce_terminal_def case_prod_unfold Let_def notice_core)

lemma close_attempts_kept: "kept_step db (close_attempts run attempt to tm db)"
  unfolding close_attempts_def by (rule kept_step_attempts) simp

lemma release_kept: "kept_step db (release_attempts run attempt db)"
  unfolding release_attempts_def by (rule kept_step_attempts) simp

lemma never_spawned_kept: "kept_step db (prove_never_spawned run db)"
  unfolding prove_never_spawned_def by (rule kept_step_attempts) simp

lemma write_terminal_kept:
  assumes "agent_by_id db (a_id row) = Some a" and "\<not> terminal (a_status a)"
  shows "kept_step db (write_terminal x row out pr usage attempt cancel db)"
proof -
  define db1 where "db1 = (if technical_restart db (a_id row) then db else finish_member (a_id row) db)"
  have c1: "core db1 = core db" by (simp add: db1_def)
  then have "agent_by_id db1 (a_id row) = Some a" using assms(1) by (simp add: core_def agent_by_id_def)
  note agents = kept_step_agents [OF this assms(2)]
  show ?thesis
    unfolding write_terminal_def Let_def db1_def [symmetric]
    by (intro kept_step_trans [OF _ release_kept] kept_step_trans [OF _ kept_step_same [OF terminal_cores(1)]]
        kept_step_trans [OF _ kept_step_same [OF announce_core]] kept_step_trans [OF _ close_attempts_kept]
        kept_step_trans [OF _ kept_step_same [OF terminal_cores(2)]] kept_step_trans [OF kept_step_same [OF c1] agents])
      (simp add: close_agent_def)
qed

lemma compact_kept:
  assumes "compact_terminal_processes x run db = Inr (b, db')"
  shows "kept_step db db'"
proof (cases "db' = db")
  case False
  then obtain v where d: "db' = drop_evidence run (snd (insert_event v db))"
    using assms by (auto simp: compact_terminal_processes_def Let_def split: if_splits)
  have "kept_step db1 (drop_evidence run db1)" for db1
    using drop_evidence_wf [of db1 run]
    by (simp add: kept_step_def worker_wf_def worker_kept_def results_kept_def agent_by_id_def rows_later_refl
        released_only_refl) (simp add: drop_evidence_def rows_later_refl released_only_refl)
  then show ?thesis unfolding d by (rule kept_step_trans [OF kept_step_same [OF core_insert_event]])
qed (simp add: kept_step_refl)

text \<open>A commit either changes nothing and has no time, or runs the whole transaction.\<close>

lemma read_record_row: "read_record x a = Inr row \<Longrightarrow> \<exists>r. row = a\<lparr> a_root := r \<rparr>"
  by (auto simp: read_record_def split: if_splits)

lemma commit_terminal_cases:
  assumes "commit_terminal x run out pr usage db = (r, db')"
  obtains (refused) e where "r = Inl e" "db' = db"
  | (ended) a where "r = Inr None" "db' = db" "agent_by_id db run = Some a" "terminal (a_status a)"
  | (committed) a rt where "r = Inr (Some (x_now x))" "agent_by_id db run = Some a" "\<not> terminal (a_status a)"
      "terminal (oc_status out)" "oc_status out = Succeeded \<Longrightarrow> pr \<noteq> None"
      "terminal_tx x (a\<lparr> a_root := rt \<rparr>) out pr usage db = Inr (Some (x_now x), db')"
proof (cases r)
  case (Inl e)
  with assms have "db' = db" by (auto simp: commit_terminal_def commit_def split: sum.splits prod.splits if_splits)
  with Inl refused show ?thesis by blast
next
  case (Inr t)
  with assms obtain a row where a: "agent_by_id db run = Some a" "read_record x a = Inr row"
    and o: "terminal (oc_status out)" "oc_status out = Succeeded \<Longrightarrow> pr \<noteq> None"
    and c: "(if terminal (a_status row) then Inr (None, db) else terminal_tx x row out pr usage db) = Inr (t, db')"
    by (auto simp: commit_terminal_def commit_def split: sum.splits prod.splits if_splits)
  obtain rt where row: "row = a\<lparr> a_root := rt \<rparr>" using read_record_row [OF a(2)] by blast
  show ?thesis
  proof (cases "terminal (a_status a)")
    case True
    with c have "t = None" "db' = db" by (simp_all add: row)
    with Inr True a ended show ?thesis by blast
  next
    case False
    with c have tx: "terminal_tx x (a\<lparr> a_root := rt \<rparr>) out pr usage db = Inr (t, db')" by (simp add: row)
    then have "t = Some (x_now x)" by (auto simp: terminal_tx_def Let_def)
    with tx Inr False a o committed show ?thesis by blast
  qed
qed

lemma terminal_tx_cases:
  assumes "terminal_tx x row out pr usage db = Inr (t, db')"
  obtains attempt db1 cancel requested b where "check_explicit x db row out pr = Inr ()"
    "provider_attempt row out db = Inr (attempt, db1)" "cancel = pending_cancel db1 row out"
    "requested = requested_status row out cancel"
    "transition_ok (terminal_from row requested) (terminal_to row requested)"
    "compact_terminal_processes x (a_id row)
       (write_terminal x row out pr usage attempt cancel (announce_cancelling x row requested db1)) = Inr (b, db')"
  using assms by (auto simp: terminal_tx_def transition_def Let_def split: if_splits prod.splits)

text \<open>Taking the attempt of a provider changes no agent, and no table but the attempts.\<close>

lemma provider_attempt_step:
  assumes "provider_attempt row out db = Inr (attempt, db1)"
  shows "kept_step db db1" "agents db1 = agents db" "commands db1 = commands db" "worker_lifecycle db1 = worker_lifecycle db"
    "events db1 = events db"
proof -
  have "db1 = db \<or> db1 = prove_never_spawned (a_id row) db"
    using assms by (auto simp: provider_attempt_def Let_def split: if_splits)
  then show "kept_step db db1" "agents db1 = agents db" "commands db1 = commands db"
    "worker_lifecycle db1 = worker_lifecycle db" "events db1 = events db"
    using never_spawned_kept kept_step_refl by (auto simp: prove_never_spawned_def update_attempts_def)
qed

lemma terminal_tx_kept:
  assumes t: "terminal_tx x row out pr usage db = Inr (t, db')"
    and a: "agent_by_id db (a_id row) = Some a" "\<not> terminal (a_status a)"
  shows "kept_step db db'"
  using t
proof (cases rule: terminal_tx_cases)
  case (1 attempt db1 cancel requested b)
  define db2 where "db2 = announce_cancelling x row requested db1"
  have "core db2 = core db1" by (simp add: db2_def)
  then have "agents db2 = agents db" using provider_attempt_step(2) [OF 1(2)] by (simp add: core_def)
  then have "agent_by_id db2 (a_id row) = Some a" using a(1) by (simp add: agent_by_id_def)
  from write_terminal_kept [OF this a(2)] have "kept_step db2 (write_terminal x row out pr usage attempt cancel db2)" .
  from kept_step_trans [OF this compact_kept [OF 1(6) [folded db2_def]]] have "kept_step db2 db'" .
  from kept_step_trans [OF kept_step_same [OF \<open>core db2 = core db1\<close>] this] have "kept_step db1 db'" .
  with provider_attempt_step(1) [OF 1(2)] kept_step_trans show ?thesis by blast
qed

lemma terminal_kept: "kept_step db (snd (commit_terminal x run out pr usage db))"
proof (cases "commit_terminal x run out pr usage db")
  case (Pair r db')
  then show ?thesis
  proof (cases rule: commit_terminal_cases)
    case (committed a rt)
    have "a_id (a\<lparr> a_root := rt \<rparr>) = run" using agent_by_id_id [OF committed(2)] by simp
    with committed(2) have "agent_by_id db (a_id (a\<lparr> a_root := rt \<rparr>)) = Some a" by simp
    from terminal_tx_kept [OF committed(6) this committed(3)] Pair show ?thesis by simp
  qed (simp_all add: Pair kept_step_refl)
qed

section \<open>Runs\<close>

lemma worker_step: "kept_step db (worker_exec op db)"
  using begin_lifecycle_kept turn_kept accept_kept receipt_kept wake_kept remember_processes_kept terminal_kept
  by (cases "(op, db)" rule: worker_exec.cases) simp_all

interpretation workers: kept_by_steps worker_exec worker_wf worker_kept
proof unfold_locales
  show "worker_kept s s" for s by (rule worker_kept_refl)
  show "worker_kept s t \<Longrightarrow> worker_kept t u \<Longrightarrow> worker_kept s u" for s t u by (rule worker_kept_trans)
  show "worker_wf s \<Longrightarrow> worker_wf (worker_exec a s) \<and> worker_kept s (worker_exec a s)" for s a
    using worker_step [of s a] by (simp add: kept_step_def)
qed

end
