(* ===== verification/WorkerFacts.thy ===== *)
theory WorkerFacts
  imports WorkerRuns Sample
begin

text \<open>
  Properties of an execution that has started: one finish per attempt, one wake-up per receipt, a success
  that is proven, a cancellation that comes before it, and recorded processes that can always be restored.
\<close>

section \<open>After any operations\<close>

interpretation runs: kept_by_steps worker_exec "\<lambda>_. True" worker_kept
proof unfold_locales
  show "worker_kept s s" for s by (rule worker_kept_refl)
  show "worker_kept s t \<Longrightarrow> worker_kept t u \<Longrightarrow> worker_kept s u" for s t u by (rule worker_kept_trans)
  show "True \<and> worker_kept s (worker_exec a s)" for s a using worker_step [of s a] by (simp add: kept_step_def)
qed

lemma find_rows_later:
  assumes "\<forall>l. later l (f l)" and "find (\<lambda>l. l_attempt l = attempt) ls = Some l"
  shows "find (\<lambda>l. l_attempt l = attempt) (map f ls @ new) = Some (f l)"
proof -
  have "l_attempt (f l) = l_attempt l" for l using assms(1) by (simp add: later_def)
  then show ?thesis using assms(2) by (simp add: find_append find_map_same)
qed

lemma lifecycle_later:
  assumes "worker_kept db db'" and "lifecycle_of db attempt = Some l"
  obtains l' where "lifecycle_of db' attempt = Some l'" "later l l'"
proof -
  obtain f new where "worker_lifecycle db' = map f (worker_lifecycle db) @ new" "\<forall>l. later l (f l)"
    using assms(1) unfolding worker_kept_def rows_later_def by blast
  with find_rows_later [of f] assms(2) that show ?thesis unfolding lifecycle_of_def by fastforce
qed

section \<open>One finish\<close>

lemma finish_payload_inj:
  assumes "valid_utf8 (fr_summary a)" and "valid_utf8 (fr_summary b)" and "finish_payload a = finish_payload b"
  shows "a = b"
proof -
  have v: "valid_json (finish_value r)" if "valid_utf8 (fr_summary r)" for r
    using that by (cases "fr_status r") (simp_all add: finish_value_def valid_utf8_ascii is_ascii_def)
  have "normal_form (finish_value a) = normal_form (finish_value b)"
    by (rule dumps_inj [OF v [OF assms(1)] v [OF assms(2)] assms(3) [unfolded finish_payload_def]])
  then have "fr_summary a = fr_summary b" "finish_status_as_str (fr_status a) = finish_status_as_str (fr_status b)"
    by (simp_all add: finish_value_def)
  then show ?thesis by (cases "fr_status a"; cases "fr_status b") simp_all
qed

lemma accepted_stored:
  assumes "accept_worker_finish x run attempt token input tm guard db = (Inr rec, db1)"
  obtains l where "lifecycle_of db1 attempt = Some l" "l_finish l = Some (finish_payload input)"
    "l_finish_sha256 l = Some (fin_sha256 rec)"
  using assms
proof (cases rule: accept_cases)
  case (replayed l)
  with that show ?thesis by simp
next
  case (accepted l restart tm')
  have "worker_lifecycle db1 = worker_lifecycle (close_lifecycle attempt (finish_payload input) (fin_sha256 rec) tm' db)"
    using accepted(1,2) record_finish_core by (simp add: core_def)
  then have "lifecycle_of db1 attempt = Some (if l_attempt l = attempt \<and> l_finish l = None then
      l\<lparr> l_idle_seconds := idle_until tm' l, l_phase := ''closing'', l_transition_at := tm', l_finish := Some (finish_payload input),
         l_finish_sha256 := Some (fin_sha256 rec), l_accepted_at := Some tm' \<rparr> else l)"
    using accepted(3) by (simp add: lifecycle_of_def close_lifecycle_def update_lifecycle_def find_map_same)
  moreover have "l_attempt l = attempt" using accepted(3) by (auto simp: lifecycle_of_def dest: find_Some_in)
  ultimately show ?thesis using accepted(4) that by simp
qed simp

text \<open>
  C6 (safety). An attempt has one finish. After a finish was accepted and any further operations ran, the only
  call for this attempt that can succeed repeats the same finish: it returns the same digest, marked as a
  duplicate, and changes nothing. Every other summary or status is refused, whoever calls.
\<close>

theorem finish_once:
  assumes "accept_worker_finish x run attempt token input tm guard db = (Inr rec, db1)"
    and "db2 = fold worker_exec ops db1"
    and "accept_worker_finish x' run' attempt token' input' tm' guard' db2 = (Inr rec', db3)"
    and "valid_utf8 (fr_summary input)" and "valid_utf8 (fr_summary input')"
  shows "input' = input \<and> rec' = \<lparr> fin_sha256 = fin_sha256 rec, fin_duplicate = True \<rparr> \<and> db3 = db2"
proof -
  obtain l where l: "lifecycle_of db1 attempt = Some l" "l_finish l = Some (finish_payload input)"
    "l_finish_sha256 l = Some (fin_sha256 rec)" using accepted_stored [OF assms(1)] .
  have "worker_kept db1 db2" using runs.run_keeps [of db1 ops] assms(2) by simp
  from lifecycle_later [OF this l(1)] obtain l' where l': "lifecycle_of db2 attempt = Some l'" "later l l'" .
  then have f: "l_finish l' = Some (finish_payload input)" "l_finish_sha256 l' = Some (fin_sha256 rec)"
    using l(2,3) by (simp_all add: later_def)
  from assms(3) show ?thesis
  proof (cases rule: accept_cases)
    case (replayed k)
    then have "finish_payload input' = finish_payload input" "rec' = \<lparr> fin_sha256 = fin_sha256 rec, fin_duplicate = True \<rparr>"
      using l'(1) f by simp_all
    with finish_payload_inj [OF assms(5,4)] replayed(2) show ?thesis by blast
  next
    case (accepted k restart tm'')
    then show ?thesis using l'(1) f by simp
  qed simp
qed

section \<open>What a commit writes\<close>

text \<open>The status changes an execution has recorded, and whether they lead from one state to another.\<close>

definition trail :: "db \<Rightarrow> string \<Rightarrow> (status option \<times> status option) list" where
  "trail db run = map (\<lambda>v. (v_from v, v_to v)) (filter (\<lambda>v. v_agent v = run \<and> v_kind v = ''status'') (events db))"

fun path_ok :: "status \<Rightarrow> (status option \<times> status option) list \<Rightarrow> status \<Rightarrow> bool" where
  "path_ok s [] e = (s = e)"
| "path_ok s ((from, to) # ps) e =
     (from = Some s \<and> (case to of None \<Rightarrow> False | Some u \<Rightarrow> transition_ok s u \<and> path_ok u ps e))"

lemma trail_insert: "trail (snd (insert_event v db)) run =
    trail db run @ (if v_agent v = run \<and> v_kind v = ''status'' then [(v_from v, v_to v)] else [])"
  by (simp add: trail_def insert_event_def Let_def)

lemma trail_tx_event: "trail (snd (tx_event x db agent kind from to d)) run =
    trail db run @ (if agent = run \<and> kind = ''status'' then [(from, to)] else [])"
  by (simp add: tx_event_def trail_insert)

lemma trail_events: "events db' = events db \<Longrightarrow> trail db' run = trail db run"
  by (simp add: trail_def)

lemma trail_attempts [simp]:
  "trail (release_attempts i attempt db) run = trail db run" "trail (close_attempts i attempt to tm db) run = trail db run"
  "trail (complete_cancel cancel tm db) run = trail db run" "trail (finish_member i db) run = trail db run"
  "trail (db\<lparr> agents := as \<rparr>) run = trail db run"
  by (simp_all add: trail_def release_attempts_def close_attempts_def update_attempts_def complete_cancel_def finish_member_def
      update_members_def)

lemma trail_usage [simp]: "trail (usage_event x i usage db) run = trail db run"
  by (simp add: usage_event_def trail_tx_event split: option.split)

lemma trail_notice: "trail (snd (insert_terminal_notice x db agent session event tm)) run = trail db run"
  by (rule trail_events) (simp add: insert_terminal_notice_def insert_delivery_def Let_def split: option.split)

lemma trail_announce [simp]:
  "trail (announce_terminal x row from to out technical tm db) (a_id row) = trail db (a_id row) @ [(Some from, Some to)]"
  by (simp add: announce_terminal_def case_prod_unfold Let_def trail_notice trail_tx_event)

lemma trail_drop: "trail (drop_evidence i db) run = trail db run"
proof -
  have "filter (\<lambda>v. v_agent v = run \<and> v_kind v = ''status'') (events (drop_evidence i db)) =
      filter (\<lambda>v. v_agent v = run \<and> v_kind v = ''status'') (events db)"
    unfolding drop_evidence_def by simp (rule filter_cong, auto)
  then show ?thesis by (simp only: trail_def)
qed

lemma trail_compact:
  assumes "compact_terminal_processes x i db = Inr (b, db')"
  shows "trail db' run = trail db run"
proof (cases "db' = db")
  case False
  with assms obtain v where "db' = drop_evidence i (snd (insert_event v db))" "v_kind v = ''process_summary_v1''"
    unfolding compact_terminal_processes_def Let_def by (auto split: if_splits)
  then show ?thesis by (simp add: trail_drop trail_insert)
qed simp

lemma trail_write:
  "trail (write_terminal x row out pr usage attempt cancel db) (a_id row) =
     trail db (a_id row) @ [(Some (terminal_from row (requested_status row out cancel)),
       Some (terminal_to row (requested_status row out cancel)))]"
  by (simp add: write_terminal_def Let_def)

lemma trail_cancelling:
  "trail (announce_cancelling x row requested db) (a_id row) =
     trail db (a_id row) @ (if a_status row = Running \<and> requested = Cancelled then [(Some Running, Some Cancelling)] else [])"
  by (simp add: announce_cancelling_def trail_tx_event)

lemma agents_compact: "compact_terminal_processes x i db = Inr (b, db') \<Longrightarrow> agents db' = agents db \<and> commands db' = commands db"
  by (auto simp: compact_terminal_processes_def drop_evidence_def insert_event_def Let_def split: if_splits)

lemma write_commands:
  "commands (write_terminal x row out pr usage attempt cancel db) = commands (complete_cancel cancel (x_now x) db)"
proof -
  have n: "commands (snd (insert_terminal_notice x db agent session event tm)) = commands db" for db agent session event tm
    by (simp add: insert_terminal_notice_def insert_delivery_def Let_def split: option.split)
  have "commands (announce_terminal x row s u out technical tm db) = commands db" for s u technical tm db
    by (simp add: announce_terminal_def case_prod_unfold Let_def n tx_event_def insert_event_def)
  moreover have "commands (usage_event x i usage db) = commands db" for i db
    by (simp add: usage_event_def tx_event_def insert_event_def Let_def split: option.split)
  ultimately show ?thesis
    by (simp add: write_terminal_def release_attempts_def close_attempts_def update_attempts_def Let_def)
      (simp add: complete_cancel_def finish_member_def update_members_def)
qed

lemma core_agents: "core db' = core db \<Longrightarrow> agents db' = agents db"
  by (simp add: core_def)

lemma agents_attempts [simp]:
  "agents (release_attempts i attempt db) = agents db" "agents (close_attempts i attempt to tm db) = agents db"
  by (simp_all add: release_attempts_def close_attempts_def update_attempts_def)

lemmas agents_cores [simp] =
  terminal_cores [THEN core_agents] announce_core [THEN core_agents]

definition answer_of :: "db \<Rightarrow> agent_row \<Rightarrow> answer_proof option \<Rightarrow> answer_proof option" where
  "answer_of db row pr = (if technical_restart db (a_id row) then None else pr)"

lemma agents_write:
  "agents (write_terminal x row out pr usage attempt cancel db) =
     map (\<lambda>a. if a_id a = a_id row then
       close_agent (terminal_to row (requested_status row out cancel)) (x_now x) out (answer_of db row pr) a else a) (agents db)"
  by (simp add: write_terminal_def answer_of_def Let_def)

lemma terminal_from_root: "terminal_from (a\<lparr> a_root := rt \<rparr>) s = terminal_from a s"
  by (simp add: terminal_from_def)

lemma root_irrelevant:
  "pending_cancel db (a\<lparr> a_root := rt \<rparr>) out = pending_cancel db a out"
  "requested_status (a\<lparr> a_root := rt \<rparr>) out c = requested_status a out c"
  "terminal_from (a\<lparr> a_root := rt \<rparr>) s = terminal_from a s" "terminal_to (a\<lparr> a_root := rt \<rparr>) s = terminal_to a s"
  "answer_of db (a\<lparr> a_root := rt \<rparr>) pr = answer_of db a pr" "a_status (a\<lparr> a_root := rt \<rparr>) = a_status a"
  by (simp_all add: pending_cancel_def requested_status_def terminal_from_root terminal_to_def answer_of_def)

lemma cancelling_commands: "commands (announce_cancelling x row requested db) = commands db"
  by (simp add: announce_cancelling_def tx_event_def insert_event_def Let_def)

lemma tx_effect:
  assumes p: "provider_attempt row out db = Inr (attempt, db1)"
    and c: "compact_terminal_processes x (a_id row)
       (write_terminal x row out pr usage attempt cancel (announce_cancelling x row requested db1)) = Inr (b, db')"
    and r: "requested = requested_status row out cancel"
  shows "agents db' = map (\<lambda>a. if a_id a = a_id row then close_agent (terminal_to row requested) (x_now x) out
       (answer_of (announce_cancelling x row requested db1) row pr) a else a) (agents db)"
    "trail db' (a_id row) = trail db (a_id row)
       @ (if a_status row = Running \<and> requested = Cancelled then [(Some Running, Some Cancelling)] else [])
       @ [(Some (terminal_from row requested), Some (terminal_to row requested))]"
    "commands db' = commands (complete_cancel cancel (x_now x) db)"
proof -
  note s = provider_attempt_step [OF p]
  show "agents db' = map (\<lambda>a. if a_id a = a_id row then close_agent (terminal_to row requested) (x_now x) out
       (answer_of (announce_cancelling x row requested db1) row pr) a else a) (agents db)"
    unfolding conjunct1 [OF agents_compact [OF c]] agents_write r by (simp add: s(2))
  show "trail db' (a_id row) = trail db (a_id row)
       @ (if a_status row = Running \<and> requested = Cancelled then [(Some Running, Some Cancelling)] else [])
       @ [(Some (terminal_from row requested), Some (terminal_to row requested))]"
    unfolding trail_compact [OF c] trail_write trail_cancelling trail_events [OF s(5)] r by simp
  show "commands db' = commands (complete_cancel cancel (x_now x) db)"
    unfolding conjunct2 [OF agents_compact [OF c]] write_commands
    by (simp add: complete_cancel_def cancelling_commands s(3))
qed

text \<open>The whole effect of a commit on the agent, its status events and a pending cancellation.\<close>

lemma commit_effect:
  assumes "commit_terminal x run out pr usage db = (Inr (Some t), db')"
  obtains a db1 attempt cancel requested rt where "t = x_now x" "agent_by_id db run = Some a" "\<not> terminal (a_status a)"
    "terminal (oc_status out)" "oc_status out = Succeeded \<Longrightarrow> pr \<noteq> None"
    "check_explicit x db (a\<lparr> a_root := rt \<rparr>) out pr = Inr ()" "provider_attempt (a\<lparr> a_root := rt \<rparr>) out db = Inr (attempt, db1)"
    "cancel = pending_cancel db1 a out" "requested = requested_status a out cancel"
    "transition_ok (terminal_from a requested) (terminal_to a requested)"
    "agent_by_id db' run = Some (close_agent (terminal_to a requested) (x_now x) out
       (answer_of (announce_cancelling x (a\<lparr> a_root := rt \<rparr>) requested db1) a pr) a)"
    "trail db' run = trail db run @ (if a_status a = Running \<and> requested = Cancelled then [(Some Running, Some Cancelling)] else [])
       @ [(Some (terminal_from a requested), Some (terminal_to a requested))]"
    "commands db' = commands (complete_cancel cancel (x_now x) db)"
  using assms
proof (cases rule: commit_terminal_cases)
  case (committed a rt)
  let ?row = "a\<lparr> a_root := rt \<rparr>"
  have i: "a_id ?row = run" using agent_by_id_id [OF committed(2)] by simp
  from committed(6) show ?thesis
  proof (cases rule: terminal_tx_cases)
    case (1 attempt db1 cancel requested b)
    note e = tx_effect [OF 1(2,6,4)]
    have "agent_by_id db' (a_id ?row) = map_option (\<lambda>b. if a_id b = a_id ?row then close_agent (terminal_to a requested) (x_now x) out
        (answer_of (announce_cancelling x ?row requested db1) a pr) b else b) (agent_by_id db (a_id ?row))"
      unfolding agent_by_id_def e(1) root_irrelevant by (rule find_map_same) (simp add: close_agent_def)
    then have "agent_by_id db' run = Some (close_agent (terminal_to a requested) (x_now x) out
        (answer_of (announce_cancelling x ?row requested db1) a pr) a)"
      using committed(2) i by simp
    moreover have "trail db' run = trail db run @ (if a_status a = Running \<and> requested = Cancelled then [(Some Running, Some Cancelling)] else [])
       @ [(Some (terminal_from a requested), Some (terminal_to a requested))]"
      using e(2) unfolding i root_irrelevant by simp
    moreover have "cancel = pending_cancel db1 a out" "requested = requested_status a out cancel"
      "transition_ok (terminal_from a requested) (terminal_to a requested)"
      using 1(3-5) unfolding root_irrelevant by blast+
    moreover have "t = x_now x" using committed(1) by simp
    ultimately show ?thesis using that [OF _ committed(2-5) 1(1,2)] e(3) by blast
  qed
qed simp_all

section \<open>Results\<close>

lemma terminal_to_terminal: "terminal (oc_status out) \<Longrightarrow> terminal (terminal_to a (requested_status a out c))"
  by (simp add: terminal_to_def requested_status_def)

lemma commit_path:
  assumes "commit_terminal x run out pr usage db = (Inr (Some t), db1)"
  shows "\<exists>a a' steps. agent_by_id db run = Some a \<and> agent_by_id db1 run = Some a' \<and> terminal (a_status a')
     \<and> a_finished_at a' = Some t \<and> trail db1 run = trail db run @ steps \<and> path_ok (a_status a) steps (a_status a')"
  using assms
proof (cases rule: commit_effect)
  case (1 a d attempt cancel requested rt)
  define a' where "a' = close_agent (terminal_to a requested) (x_now x) out
    (answer_of (announce_cancelling x (a\<lparr> a_root := rt \<rparr>) requested d) a pr) a"
  have a': "agent_by_id db1 run = Some a'" "a_status a' = terminal_to a requested" "a_finished_at a' = Some t"
    using 1(1,11) by (simp_all add: a'_def close_agent_def)
  have ends: "terminal (a_status a')" using terminal_to_terminal [OF 1(4)] 1(9) a'(2) by simp
  have path: "path_ok (a_status a) ((if a_status a = Running \<and> requested = Cancelled then [(Some Running, Some Cancelling)] else [])
      @ [(Some (terminal_from a requested), Some (terminal_to a requested))]) (a_status a')"
    using 1(10) a'(2) by (cases "a_status a = Running \<and> requested = Cancelled") (auto simp: terminal_from_def)
  with 1(2,12) a' ends show ?thesis by blast
qed

text \<open>
  C9 (safety). A cancellation comes before success. If a running execution has a pending cancel when its result is
  committed, and the result is a success or the worker finishes explicitly, the execution is cancelled by way of
  the cancelling state, and the oldest pending cancel is answered.
\<close>

theorem cancel_wins:
  assumes "commit_terminal x run out pr usage db = (Inr (Some t), db')"
    and "agent_by_id db run = Some a" and "a_status a = Running" and "oc_status out = Succeeded \<or> a_explicit_finish a"
    and "c \<in> set (commands db)" and "c_agent c = run" and "c_kind c = ''cancel''" and "c_state c = ''pending''"
  shows "(\<exists>a'. agent_by_id db' run = Some a' \<and> a_status a' = Cancelled)
     \<and> trail db' run = trail db run @ [(Some Running, Some Cancelling), (Some Cancelling, Some Cancelled)]
     \<and> (\<exists>c' \<in> set (commands db'). c_agent c' = run \<and> c_kind c' = ''cancel'' \<and> c_state c' = ''completed'' \<and> c_id c' \<le> c_id c
          \<and> c_result c' = Some (JObj [(''accepted'', JBool True), (''reason'', JStr ''terminal_cancel'')]))"
  using assms(1)
proof (cases rule: commit_effect)
  case (1 b d attempt cancel requested rt)
  have b: "b = a" and i: "a_id a = run" using 1(2) assms(2) agent_by_id_id by auto
  have cmds: "commands d = commands db" by (rule provider_attempt_step(3) [OF 1(7)])
  define cs where "cs = filter (\<lambda>c. c_agent c = run \<and> c_kind c = ''cancel'' \<and> c_state c = ''pending'') (commands db)"
  have "c \<in> set cs" using assms(5-8) by (simp add: cs_def)
  then obtain k where k: "max_row (\<lambda>c. - int (c_id c)) cs = Some k"
    by (cases "max_row (\<lambda>c. - int (c_id c)) cs") auto
  have in_k: "k \<in> set (commands db)" "c_agent k = run" "c_kind k = ''cancel''" "c_state k = ''pending''"
    using max_row_in [OF k] by (simp_all add: cs_def)
  have le: "c_id k \<le> c_id c" using max_row_ge [OF k \<open>c \<in> set cs\<close>] by simp
  have cancel: "cancel = Some (c_id k)" using 1(8) assms(4) k by (auto simp: pending_cancel_def b i cmds cs_def)
  have req: "requested = Cancelled" using 1(9) cancel assms(3) by (simp add: requested_status_def b)
  have to: "terminal_from a requested = Cancelling" "terminal_to a requested = Cancelled"
    using req assms(3) by (simp_all add: terminal_from_def terminal_to_def)
  have "\<exists>a'. agent_by_id db' run = Some a' \<and> a_status a' = Cancelled"
    using 1(11) to(2) by (simp add: b close_agent_def)
  moreover have "trail db' run = trail db run @ [(Some Running, Some Cancelling), (Some Cancelling, Some Cancelled)]"
    using 1(12) to req assms(3) by (simp add: b)
  moreover define k' where "k' = k\<lparr> c_state := ''completed'', c_claimed_at := Some (x_now x), c_completed_at := Some (x_now x),
      c_result := Some (JObj [(''accepted'', JBool True), (''reason'', JStr ''terminal_cancel'')]) \<rparr>"
  moreover have "k' \<in> set (commands db')"
    unfolding 1(13) complete_cancel_def cancel k'_def using in_k by (auto intro!: image_eqI [of _ _ k])
  moreover have "c_agent k' = run \<and> c_kind k' = ''cancel'' \<and> c_state k' = ''completed'' \<and> c_id k' \<le> c_id c
      \<and> c_result k' = Some (JObj [(''accepted'', JBool True), (''reason'', JStr ''terminal_cancel'')])"
    using in_k le by (simp add: k'_def)
  ultimately show ?thesis by blast
qed

lemma check_explicit_success:
  assumes "check_explicit x db row out (Some p) = Inr ()" and "a_explicit_finish row" and "oc_status out = Succeeded"
  shows "\<exists>l \<in> set (worker_lifecycle db). \<exists>payload input. of_owned db (a_id row) l \<and> l_receipt_observed l
     \<and> l_finish l = Some payload \<and> read_finish x payload = Inr input \<and> fr_status input = Done
     \<and> pr_sha256 p = x_sha256 x (fr_summary input) \<and> pr_bytes p = length (fr_summary input)"
proof -
  from assms obtain input where s: "finish_shown x db (a_id row) = Inr (Some (input, True))" "fr_status input = Done"
    and p: "pr_sha256 p = x_sha256 x (fr_summary input)" "pr_bytes p = length (fr_summary input)"
    by (auto simp: check_explicit_def check_answer_def split: if_splits option.splits)
  from s(1) obtain l where l: "find (\<lambda>l. of_owned db (a_id row) l \<and> l_finish l \<noteq> None) (worker_lifecycle db) = Some l"
    "bindr (ok_or bad_column (l_finish l)) (\<lambda>payload. bindr (read_finish x payload) (\<lambda>intent. Inr (intent, l_receipt_observed l))) = Inr (input, True)"
    unfolding finish_shown_def
    by (cases "find (\<lambda>l. of_owned db (a_id row) l \<and> l_finish l \<noteq> None) (worker_lifecycle db)") auto
  then show ?thesis using s(2) p find_Some_in [OF l(1)] by auto
qed

lemma no_pending:
  assumes "pending_cancel db a out = None" and "oc_status out = Succeeded \<or> a_explicit_finish a" and "c \<in> set (commands db)"
  shows "\<not> (c_agent c = a_id a \<and> c_kind c = ''cancel'' \<and> c_state c = ''pending'')"
  using assms by (auto simp: pending_cancel_def filter_empty_conv)

text \<open>
  C7 (safety). A success is proven. If an execution with explicit completion becomes succeeded, it was running with
  no pending cancel, and its owned attempt holds an accepted finish with status done whose receipt was
  observed. The published answer has the digest and the length of exactly that summary, or there is none
  because a service restart ended the execution.
\<close>

theorem success_proven:
  assumes "commit_terminal x run out pr usage db = (Inr (Some t), db')"
    and "agent_by_id db run = Some a" and "a_explicit_finish a"
    and "agent_by_id db' run = Some a'" and "a_status a' = Succeeded"
  shows "a_status a = Running
     \<and> (\<forall>c \<in> set (commands db). \<not> (c_agent c = run \<and> c_kind c = ''cancel'' \<and> c_state c = ''pending''))
     \<and> (\<exists>l \<in> set (worker_lifecycle db). \<exists>payload input. of_owned db run l \<and> l_receipt_observed l
          \<and> l_finish l = Some payload \<and> read_finish x payload = Inr input \<and> fr_status input = Done
          \<and> (if technical_restart db run then a_answer a' = None
             else \<exists>path. a_answer a' = Some (path, length (fr_summary input), x_sha256 x (fr_summary input))))"
  using assms(1)
proof (cases rule: commit_effect)
  case (1 b d attempt cancel requested rt)
  have b: "b = a" and i: "a_id a = run" using 1(2) assms(2) agent_by_id_id by auto
  have to: "terminal_to a requested = Succeeded" using 1(11) assms(4,5) by (simp add: b close_agent_def)
  then have req: "requested = Succeeded" by (auto simp: terminal_to_def split: if_splits)
  then have from_a: "terminal_from a requested = a_status a" by (simp add: terminal_from_def)
  have running: "a_status a = Running" using 1(10) to from_a by (cases "a_status a") (simp_all add: b)
  have none: "cancel = None" and out: "oc_status out = Succeeded"
    using 1(9) req running by (auto simp: b requested_status_def split: if_splits)
  have same: "announce_cancelling x (a\<lparr> a_root := rt \<rparr>) requested db = db" by (simp add: announce_cancelling_def req)
  have d: "d = db" using 1(7) out by (auto simp: provider_attempt_def Let_def split: if_splits)
  obtain p where p: "pr = Some p" using 1(5) out by blast
  have "\<exists>l \<in> set (worker_lifecycle db). \<exists>payload input. of_owned db run l \<and> l_receipt_observed l
     \<and> l_finish l = Some payload \<and> read_finish x payload = Inr input \<and> fr_status input = Done
     \<and> pr_sha256 p = x_sha256 x (fr_summary input) \<and> pr_bytes p = length (fr_summary input)"
    using check_explicit_success [OF 1(6) [unfolded p]] assms(3) out i by (simp add: b)
  moreover have "a_answer a' = map_option (\<lambda>p. (pr_path p, pr_bytes p, pr_sha256 p)) (if technical_restart db run then None else Some p)"
    using 1(11) assms(4) i by (simp add: same d b p close_agent_def answer_of_def)
  moreover have "\<forall>c \<in> set (commands db). \<not> (c_agent c = run \<and> c_kind c = ''cancel'' \<and> c_state c = ''pending'')"
    using no_pending [of db a out] none 1(8) out i by (simp add: b d)
  ultimately show ?thesis using running by auto
qed

section \<open>Wake-ups and processes\<close>

lemma length_filter_key: "distinct (map f xs) \<Longrightarrow> k \<in> f ` set xs \<Longrightarrow> length (filter (\<lambda>x. f x = k) xs) = 1"
  by (induction xs) (auto simp: filter_empty_conv image_iff)

lemma closed_not_woken:
  assumes "distinct (map l_attempt (worker_lifecycle db))" and "lifecycle_of db attempt = Some l" and "l_finish l \<noteq> None"
  shows "wake_attempt db run \<noteq> Some attempt"
proof
  assume "wake_attempt db run = Some attempt"
  then obtain k where k: "k \<in> set (worker_lifecycle db)" "l_attempt k = attempt" "l_finish k = None"
    unfolding wake_attempt_def by (auto dest: find_Some_in)
  have "l \<in> set (worker_lifecycle db)" "l_attempt l = attempt" using assms(2) by (auto simp: lifecycle_of_def dest: find_Some_in)
  with k assms(1) have "k = l" by (auto simp: distinct_map dest: inj_onD)
  with k(3) assms(3) show False by simp
qed

text \<open>
  C11 (invariant). A native completion wakes its worker once. After a receipt was queued for an attempt and any
  further operations ran, the receipt has exactly one wake-up; queuing it again while the attempt can still
  be woken changes nothing; and an attempt whose finish was accepted is never woken again.
\<close>

theorem wake_once:
  assumes "worker_wf db" and "enqueue_native_wake run digest msg tm db = (Inr True, db1)" and "wake_attempt db run = Some attempt"
    and "db2 = fold worker_exec ops db1"
  shows "length (filter (\<lambda>w. wake_key w = (attempt, digest)) (wakes db2)) = 1
     \<and> (wake_attempt db2 run = Some attempt \<longrightarrow> snd (enqueue_native_wake run digest msg' tm' db2) = db2)
     \<and> (\<forall>l. lifecycle_of db2 attempt = Some l \<and> l_finish l \<noteq> None \<longrightarrow> wake_attempt db2 run \<noteq> Some attempt)"
proof -
  have "kept_step db db1" using wake_kept [of db run digest msg tm] assms(2) by simp
  then have "worker_wf db1" using assms(1) by (simp add: kept_step_def)
  from workers.run_keeps [OF this] have wf: "worker_wf db2" and kept: "worker_kept db1 db2" by (simp_all add: assms(4))
  have "(attempt, digest) \<in> wake_key ` set (wakes db1)"
    using assms(2,3) by (auto simp: enqueue_native_wake_def queue_wake_def wake_key_def Let_def list_ex_iff image_iff
        split: option.splits bool.splits if_splits)
  with kept have mem: "(attempt, digest) \<in> wake_key ` set (wakes db2)"
    unfolding worker_kept_def using set_mono_prefix by blast
  moreover have "distinct (map wake_key (wakes db2))" "distinct (map l_attempt (worker_lifecycle db2))"
    using wf by (simp_all add: worker_wf_def)
  moreover have "snd (enqueue_native_wake run digest msg' tm' db2) = db2" if "wake_attempt db2 run = Some attempt"
    using mem that by (auto simp: enqueue_native_wake_def wake_key_def list_ex_iff split: option.split bool.split)
  ultimately show ?thesis
    using length_filter_key [of wake_key "wakes db2" "(attempt, digest)"] closed_not_woken [of db2 attempt] by blast
qed

lemma owners_apart:
  assumes "process_wf db" and "(kind', i') \<noteq> (kind, i)"
  shows "identity_key ` q_identity ` set (owned_rows db kind i) \<inter> identity_key ` q_identity ` set (owned_rows db kind' i') = {}"
proof -
  have inj: "inj_on process_key (set (process_members db))" using assms(1) by (simp add: process_wf_def distinct_map)
  have "identity_key (q_identity q) = process_key q" if "q \<in> set (process_members db)" for q
    using assms(1) that by (simp add: process_wf_def list_all_iff row_wf_def)
  then show ?thesis using assms(2) inj_onD [OF inj] by (fastforce simp: owned_rows_def)
qed

text \<open>
  C10 (invariant). What is recorded about processes can always be restored. After any operations, every owner with
  recorded evidence restores to its recorded root and its recorded identities, an owner without evidence to
  nothing, and no two owners share a process generation.
\<close>

theorem evidence_restores:
  assumes "worker_wf db" and "db' = fold worker_exec ops db" and "validate_owner kind i = Inr ()"
  shows "case owner_row db' kind i of
      None \<Rightarrow> remembered_processes db' kind i = Inr None
    | Some r \<Rightarrow> \<exists>p. remembered_processes db' kind i = Inr (Some p) \<and> op_leader p = o_leader r
        \<and> set (op_known p) = q_identity ` set (owned_rows db' kind i)
        \<and> (\<forall>kind' i'. (kind', i') \<noteq> (kind, i) \<longrightarrow>
            identity_key ` set (op_known p) \<inter> identity_key ` q_identity ` set (owned_rows db' kind' i') = {})"
proof -
  have wf: "process_wf db'" using workers.run_keeps [OF assms(1), of ops] by (simp add: assms(2) worker_wf_def)
  show ?thesis
  proof (cases "owner_row db' kind i")
    case (Some r)
    from process_wf_restores [OF wf Some] obtain p where p: "restore \<lparr> os_leader = o_leader r, os_members = owned_members db' kind i,
        os_descendants_observed = o_descendants r \<rparr> = Inr p" "op_leader p = o_leader r"
      "set (op_known p) = q_identity ` set (owned_rows db' kind i)" by blast
    then have "remembered_processes db' kind i = Inr (Some p)" by (simp add: remembered_processes_def assms(3) Some)
    moreover have "identity_key ` set (op_known p) \<inter> identity_key ` q_identity ` set (owned_rows db' kind' i') = {}"
      if "(kind', i') \<noteq> (kind, i)" for kind' i'
      unfolding p(3) by (rule owners_apart [OF wf that])
    ultimately show ?thesis unfolding Some using p(2,3) by auto
  qed (simp add: remembered_processes_def assms(3))
qed

section \<open>Witnesses\<close>

definition work_attempt :: string where
  "work_attempt = ''t'' @ ag_a"

definition work_row :: "finish_request option \<Rightarrow> lifecycle_row" where
  "work_row input = \<lparr> l_attempt = work_attempt, l_phase = (if input = None then ''running'' else ''closing''), l_turn_count = 1,
     l_transition_at = 0, l_idle_seconds = 0, l_finish = map_option finish_payload input,
     l_finish_sha256 = map_option finish_payload input, l_accepted_at = map_option (\<lambda>_. 1) input, l_receipt_observed = (input \<noteq> None) \<rparr>"

definition work_finish :: finish_request where
  "work_finish = \<lparr> fr_summary = ''ok'', fr_status = Done \<rparr>"

definition work_db :: "finish_request option \<Rightarrow> command_row list \<Rightarrow> db" where
  "work_db input cs = sample_db\<lparr> agents := [sample_agent ag_a\<lparr> a_explicit_finish := True \<rparr>, sample_agent ag_b],
     worker_lifecycle := [work_row input], commands := cs \<rparr>"

lemma work_utf8: "valid_utf8 (fr_summary work_finish)"
  by (simp add: work_finish_def valid_utf8_ascii is_ascii_def)

lemma work_lookup:
  "agent_by_id (work_db input cs) ag_a = Some (sample_agent ag_a\<lparr> a_explicit_finish := True \<rparr>)"
  "lifecycle_of (work_db input cs) work_attempt = Some (work_row input)" "commands (work_db input cs) = cs"
  "attempts (work_db input cs) = attempts sample_db" "worker_lifecycle (work_db input cs) = [work_row input]"
  by (simp_all add: work_db_def agent_by_id_def lifecycle_of_def work_row_def)

lemma work_wf: "worker_wf (work_db input cs)"
  by (simp add: worker_wf_def process_wf_def work_db_def sample_db_def)

text \<open>One call on a database that differs from the sample in the lifecycle rows and events only.\<close>

lemma work_auth:
  assumes "attempts db = attempts sample_db" and "capabilities db = capabilities sample_db" and "agents db = agents (work_db None [])"
  shows "\<exists>au. authenticate_attempt sample_ext db ag_a work_attempt sample_token (Finite 5) = Inr (Some au)"
  using assms
  by (simp add: authenticate_attempt_def time_of_def work_db_def sample_db_def capability_of_def sample_capability_def
      resolve_root_def agent_by_id_def ok_or_def work_attempt_def) (simp add: sample_ext_def)

lemma work_accept:
  assumes "attempts db = attempts sample_db" and "capabilities db = capabilities sample_db"
    and "agents db = agents (work_db None [])" and "commands db = []"
  shows "accept_worker_finish sample_ext ag_a work_attempt sample_token work_finish (Finite 5) GuardClean db =
    commit db (store_finish sample_ext ag_a work_attempt work_finish None GuardClean 5 db)"
proof -
  have v: "validate_finish work_finish = Inr ()"
    by (simp add: validate_finish_def bounded_text_def work_finish_def text_eval)
  have "finish_admissible db ag_a work_attempt = Inr True"
    using assms by (simp add: finish_admissible_def cancel_pending_def work_db_def sample_db_def sample_attempt_def work_attempt_def)
  moreover have "agent_by_id db ag_a = Some (sample_agent ag_a\<lparr> a_explicit_finish := True \<rparr>)"
    using assms(3) by (simp add: agent_by_id_def work_db_def)
  moreover have "finish_of_restart db ag_a work_attempt work_finish = Inr None"
    by (simp add: finish_of_restart_def work_finish_def starts_with_def)
  moreover have "validate_schema (x_schema sample_ext) (x_json sample_ext) work_finish
      (a_output_schema (sample_agent ag_a\<lparr> a_explicit_finish := True \<rparr>)) = Inr ()"
    by (simp add: validate_schema_def v sample_agent_def)
  moreover have "\<not> str_contains (fr_summary work_finish) sample_token"
    using sublist_length_le [of sample_token "fr_summary work_finish"]
    by (auto simp: str_contains_sublist work_finish_def sample_token_def)
  ultimately show ?thesis
    using work_auth [OF assms(1-3)] v by (auto simp: accept_worker_finish_def accept_tx_def time_of_def)
qed

theorem finish_once_witness:
  "\<exists>db1. accept_worker_finish sample_ext ag_a work_attempt sample_token work_finish (Finite 5) GuardClean (work_db None []) =
      (Inr \<lparr> fin_sha256 = finish_payload work_finish, fin_duplicate = False \<rparr>, db1)
    \<and> accept_worker_finish sample_ext ag_a work_attempt sample_token work_finish (Finite 5) GuardClean db1 =
      (Inr \<lparr> fin_sha256 = finish_payload work_finish, fin_duplicate = True \<rparr>, db1)"
proof -
  let ?call = "accept_worker_finish sample_ext ag_a work_attempt sample_token work_finish (Finite 5) GuardClean"
  let ?p = "finish_payload work_finish"
  define db1 where "db1 = record_finish ag_a work_attempt work_finish ?p ?p None 5 (work_db None [])"
  have sha: "x_sha256 sample_ext = (\<lambda>s. s)" by (simp add: sample_ext_def)
  have 1: "?call (work_db None []) = (Inr \<lparr> fin_sha256 = ?p, fin_duplicate = False \<rparr>, db1)"
    unfolding db1_def by (subst work_accept) (simp_all add: work_lookup, simp_all add: work_db_def store_finish_def sha Let_def
        work_row_def lifecycle_of_def)
  have l: "lifecycle_of db1 work_attempt = Some ((work_row None)\<lparr> l_idle_seconds := 0, l_phase := ''closing'', l_transition_at := 5,
      l_finish := Some ?p, l_finish_sha256 := Some ?p, l_accepted_at := Some 5 \<rparr>)"
    by (simp add: db1_def record_finish_def insert_event_def close_lifecycle_def update_lifecycle_def lifecycle_of_def Let_def
        work_db_def work_row_def idle_until_def)
  have "?call db1 = commit db1 (store_finish sample_ext ag_a work_attempt work_finish None GuardClean 5 db1)"
    by (rule work_accept) (simp_all add: db1_def record_finish_def insert_event_def close_lifecycle_def update_lifecycle_def Let_def
        work_db_def)
  then obtain rec db3 where 2: "?call db1 = (Inr rec, db3)" by (simp add: store_finish_def l sha Let_def)
  from finish_once [OF 1 _ 2 work_utf8 work_utf8, of "[]"] 1 2 show ?thesis by auto
qed

section \<open>Commits that succeed\<close>

lemma compact_returns: "agent_by_id db run \<noteq> None \<Longrightarrow> \<exists>b db'. compact_terminal_processes x run db = Inr (b, db')"
  by (auto simp: compact_terminal_processes_def Let_def ok_or_def)

lemma commit_returns:
  assumes "agent_by_id db run = Some a" and "read_record x a = Inr a" and "\<not> terminal (a_status a)" and "terminal (oc_status out)"
    and "oc_status out = Succeeded \<Longrightarrow> pr \<noteq> None" and "check_explicit x db a out pr = Inr ()"
    and "\<not> a_provider_identity a" and "requested = requested_status a out (pending_cancel db a out)"
    and "transition_ok (terminal_from a requested) (terminal_to a requested)"
  shows "\<exists>db' a'. commit_terminal x run out pr usage db = (Inr (Some (x_now x)), db')
     \<and> agent_by_id db' run = Some a' \<and> a_status a' = terminal_to a requested"
proof -
  define db2 where "db2 = write_terminal x a out pr usage None (pending_cancel db a out) (announce_cancelling x a requested db)"
  have i: "a_id a = run" using agent_by_id_id [OF assms(1)] .
  have ag: "agent_by_id db2 run = Some (close_agent (terminal_to a requested) (x_now x) out (answer_of (announce_cancelling x a requested db) a pr) a)"
    unfolding agent_by_id_def db2_def agents_write assms(8) [symmetric]
    using assms(1) i by (simp add: agent_by_id_def find_map_same close_agent_def)
  then obtain b db' where c: "compact_terminal_processes x run db2 = Inr (b, db')" using compact_returns [of db2 run x] by auto
  have "commit_terminal x run out pr usage db = (Inr (Some (x_now x)), db')"
    using assms c by (simp add: commit_terminal_def terminal_tx_def provider_attempt_def transition_def Let_def i db2_def)
  moreover have "agent_by_id db' run = agent_by_id db2 run" using agents_compact [OF c] by (simp add: agent_by_id_def)
  ultimately show ?thesis using ag by (auto simp: close_agent_def)
qed

definition work_cancel :: command_row where
  "work_cancel = \<lparr> c_id = 1, c_agent = ag_a, c_kind = ''cancel'', c_payload = JObj [], c_state = ''pending'', c_created_at = 0,
     c_result = None, c_claimed_at = None, c_completed_at = None \<rparr>"

definition work_proof :: answer_proof where
  "work_proof = \<lparr> pr_path = ''answer.md'', pr_bytes = 2, pr_sha256 = ''ok'' \<rparr>"

text \<open>An environment whose parser reads the stored finish.\<close>

definition work_ext :: ext where
  "work_ext = sample_ext\<lparr> x_json := (\<lambda>_. Some (finish_value work_finish)) \<rparr>"

abbreviation work_agent :: agent_row where
  "work_agent \<equiv> sample_agent ag_a\<lparr> a_explicit_finish := True \<rparr>"

lemma work_agent_facts:
  "read_record sample_ext work_agent = Inr work_agent" "read_record work_ext work_agent = Inr work_agent"
  "a_status work_agent = Running" "\<not> a_provider_identity work_agent" "a_explicit_finish work_agent" "a_id work_agent = ag_a"
proof -
  have p: "parse_agent work_ext ag_a = parse_agent sample_ext ag_a" by (simp add: parse_agent_def work_ext_def)
  show "read_record sample_ext work_agent = Inr work_agent" "read_record work_ext work_agent = Inr work_agent"
    by (simp_all add: read_record_def column_id_def p)
qed (simp_all add: sample_agent_def)

lemma work_pending: "pending_cancel (work_db input [work_cancel]) work_agent out =
    (if oc_status out = Succeeded \<or> a_explicit_finish work_agent then Some 1 else None)"
  by (simp add: pending_cancel_def work_lookup work_cancel_def)

lemma work_failed:
  "check_explicit sample_ext (work_db None cs) work_agent (outcome_failure ''e'') None = Inr ()"
  by (simp add: check_explicit_def finish_shown_def work_lookup work_row_def outcome_failure_def)

theorem cancel_wins_witness:
  "\<exists>db1 a'. commit_terminal sample_ext ag_a (outcome_failure ''e'') None None (work_db None [work_cancel]) = (Inr (Some 100), db1)
    \<and> agent_by_id db1 ag_a = Some a' \<and> a_status a' = Cancelled"
proof -
  have "\<exists>db' a'. commit_terminal sample_ext ag_a (outcome_failure ''e'') None None (work_db None [work_cancel]) =
      (Inr (Some (x_now sample_ext)), db') \<and> agent_by_id db' ag_a = Some a' \<and> a_status a' = terminal_to work_agent Cancelled"
    by (rule commit_returns [OF work_lookup(1) work_agent_facts(1) _ _ _ work_failed work_agent_facts(4)])
      (simp_all add: work_pending outcome_failure_def requested_status_def terminal_from_def terminal_to_def)
  then obtain db1 where c: "commit_terminal sample_ext ag_a (outcome_failure ''e'') None None (work_db None [work_cancel]) = (Inr (Some 100), db1)"
    by (auto simp: sample_ext_def)
  from cancel_wins [OF c work_lookup(1), of work_cancel] have "\<exists>a'. agent_by_id db1 ag_a = Some a' \<and> a_status a' = Cancelled"
    by (simp add: work_lookup work_cancel_def)
  with c show ?thesis by blast
qed

lemma work_shown: "finish_shown work_ext (work_db (Some work_finish) []) ag_a = Inr (Some (work_finish, True))"
proof -
  have "read_finish work_ext p = Inr work_finish" for p
    by (simp add: read_finish_def work_ext_def decode_finish_def finish_value_def finish_status_of_def work_finish_def)
  moreover have "of_owned (work_db (Some work_finish) []) ag_a (work_row (Some work_finish))"
    by (simp add: of_owned_def owned_attempts_def work_lookup work_row_def work_attempt_def sample_attempt_def sample_db_def)
  ultimately show ?thesis by (simp add: finish_shown_def work_lookup work_row_def)
qed

theorem success_proven_witness:
  "\<exists>db1 a'. commit_terminal work_ext ag_a (outcome_success None) (Some work_proof) None (work_db (Some work_finish) []) = (Inr (Some 100), db1)
    \<and> agent_by_id db1 ag_a = Some a' \<and> a_status a' = Succeeded \<and> (\<exists>path. a_answer a' = Some (path, 2, ''ok''))"
proof -
  let ?db = "work_db (Some work_finish) []"
  have sha: "x_sha256 work_ext = (\<lambda>s. s)" "x_now work_ext = 100" by (simp_all add: work_ext_def sample_ext_def)
  have n: "pending_cancel ?db work_agent (outcome_success None) = None" by (simp add: pending_cancel_def work_lookup)
  have e: "check_explicit work_ext ?db work_agent (outcome_success None) (Some work_proof) = Inr ()"
    using work_shown by (simp add: check_explicit_def check_answer_def outcome_success_def sha work_agent_facts(6))
      (simp add: work_finish_def work_proof_def)
  have "\<exists>db' a'. commit_terminal work_ext ag_a (outcome_success None) (Some work_proof) None ?db = (Inr (Some (x_now work_ext)), db')
     \<and> agent_by_id db' ag_a = Some a' \<and> a_status a' = terminal_to work_agent Succeeded"
    by (rule commit_returns [OF work_lookup(1) work_agent_facts(2) _ _ _ e work_agent_facts(4)])
      (simp_all add: n requested_status_def terminal_from_def terminal_to_def, simp_all add: outcome_success_def)
  then obtain db1 a' where c: "commit_terminal work_ext ag_a (outcome_success None) (Some work_proof) None ?db = (Inr (Some 100), db1)"
    "agent_by_id db1 ag_a = Some a'" "a_status a' = Succeeded"
    by (auto simp: sha terminal_to_def terminal_from_def)
  have t: "\<not> technical_restart ?db ag_a" by (simp add: technical_restart_def work_db_def sample_db_def)
  have r: "read_finish work_ext p = Inr input \<Longrightarrow> input = work_finish" for p input
    by (simp add: read_finish_def work_ext_def decode_finish_def finish_value_def finish_status_of_def work_finish_def)
  from success_proven [OF c(1) work_lookup(1) work_agent_facts(5) c(2,3)] t
  obtain path input p where "read_finish work_ext p = Inr input" "a_answer a' = Some (path, length (fr_summary input), fr_summary input)"
    by (auto simp: sha)
  with r [of p input] c show ?thesis by (auto simp: work_finish_def)
qed

theorem wake_once_witness:
  "\<exists>db1. enqueue_native_wake ag_a sample_token ''go'' (Finite 5) (work_db None []) = (Inr True, db1)
    \<and> length (filter (\<lambda>w. wake_key w = (work_attempt, sample_token)) (wakes db1)) = 1
    \<and> snd (enqueue_native_wake ag_a sample_token ''go'' (Finite 5) db1) = db1"
proof -
  let ?db = "work_db None []"
  have w: "wake_attempt ?db ag_a = Some work_attempt"
    by (simp add: wake_attempt_def owned_attempts_def work_db_def sample_db_def work_row_def work_attempt_def sample_attempt_def)
  define db1 where "db1 = queue_wake ag_a work_attempt sample_token ''go'' 5 ?db"
  have e: "enqueue_native_wake ag_a sample_token ''go'' (Finite 5) ?db = (Inr True, db1)"
    by (simp add: enqueue_native_wake_def w time_of_def db1_def) (simp add: work_db_def sample_db_def)
  have "wake_attempt db1 ag_a = wake_attempt ?db ag_a"
    by (simp add: db1_def wake_attempt_def owned_attempts_def queue_wake_def insert_command_def Let_def)
  with wake_once [OF work_wf e w, of db1 "[]" "''go''" "Finite 5"] w e show ?thesis by simp
qed

definition work_leader :: process_identity where
  "work_leader = \<lparr> i_pid = 5, i_ppid = 1, i_group = 5, i_birth = Finite 1, i_token = ''k'', i_zombie = False, i_program = None \<rparr>"

definition work_snapshot :: ownership_snapshot where
  "work_snapshot = \<lparr> os_leader = work_leader, os_members = [work_leader], os_descendants_observed = True \<rparr>"

theorem evidence_restores_witness:
  "\<exists>p. remembered_processes (worker_exec (sample_ext, OpRemember (\<lambda>_. []) ''attempt'' work_attempt work_snapshot) (work_db None []))
      ''attempt'' work_attempt = Inr (Some p) \<and> op_leader p = work_leader"
proof -
  let ?op = "(sample_ext, OpRemember (\<lambda>_. []) ''attempt'' work_attempt work_snapshot)"
  let ?db = "fold worker_exec [?op] (work_db None [])"
  have v: "validate_owner ''attempt'' work_attempt = Inr ()" by (simp add: validate_owner_def work_attempt_def ag_a_def)
  have s: "\<exists>p. restore work_snapshot = Inr p"
    by (simp add: restore_def work_snapshot_def work_leader_def valid_identity_def program_ok_def time_of_def same_root_def)
  obtain r where r: "owner_row ?db ''attempt'' work_attempt = Some r" "o_leader r = work_leader"
    using v s by (auto simp: remember_processes_def remember_processes_tx_def owner_exists_def ownership_closed_def work_lookup
        remember_owner_def owner_row_def member_of_def observe_owner_def work_db_def sample_db_def work_snapshot_def
        work_attempt_def sample_attempt_def)
  from evidence_restores [OF work_wf refl v, of "[?op]" None "[]"] r show ?thesis by auto
qed

end
