(* ===== verification/Histories.thy ===== *)
theory Histories
  imports PoolWrites WorkerFacts OutboxRuns RestartRuns
begin

text \<open>
  Histories of the store: the pool, report, worker and outbox operations together with the binding of one agent
  (\<^verbatim>\<open>Store::bind_orchestrator\<close>), the report of a native session (\<^verbatim>\<open>Store::runtime_session\<close>) and the release of
  expired pools (the pool part of \<^verbatim>\<open>prune_history_batch\<close> in \<^verbatim>\<open>retention.rs\<close>), in any order. A pool keeps its
  log and its completion until it is released, and a result is final.
\<close>

section \<open>Operations\<close>

subsection \<open>Binding one agent\<close>

definition completion_deliveries :: "db \<Rightarrow> string list" where
  "completion_deliveries db = List.map_filter p_completion_delivery (pools db)"

definition activate_waiting :: "string \<Rightarrow> string \<Rightarrow> rat \<Rightarrow> db \<Rightarrow> db" where
  "activate_waiting agent session tm db =
     update_delivery (\<lambda>d. d_agent d = Some agent \<and> d_state d = ''waiting_binding'' \<and> d_id d \<notin> set (completion_deliveries db))
       (\<lambda>d. d\<lparr> d_session := Some session, d_state := ''pending'', d_next_attempt_at := Some tm \<rparr>) db"

definition bind_orchestrator_tx :: "ext \<Rightarrow> string \<Rightarrow> orchestrator_ref \<Rightarrow> rat \<Rightarrow> db \<Rightarrow> error + (string \<times> db)" where
  "bind_orchestrator_tx x agent r tm db =
     bindr (store_get x db agent) (\<lambda>a.
       case a_session a of
         Some current \<Rightarrow>
           bindr (session_matches_reference db current r) (\<lambda>same.
           if \<not> same then Inl (invalid ''agent orchestration binding is immutable'')
           else
           bindr (touch_session_reference db current r tm) (\<lambda>db1.
           bindr (bind_captured_agent x agent current r db1) (\<lambda>db2.
             Inr (current, ensure_bound_terminal_notice x db2 agent current tm))))
       | None \<Rightarrow>
           bindr (session_for_reference x db r tm) (\<lambda>(session, db1).
           bindr (bind_captured_agent x agent session r (set_agent_session agent session db1)) (\<lambda>db2.
             Inr (session, ensure_bound_terminal_notice x (activate_waiting agent session tm db2) agent session tm))))"

definition bind_orchestrator :: "ext \<Rightarrow> string \<Rightarrow> orchestrator_ref \<Rightarrow> f64 \<Rightarrow> db \<Rightarrow> string res \<times> db" where
  "bind_orchestrator x agent r at_time db =
     commit db (bindr (validate_ref r) (\<lambda>_.
       case time_of at_time of
         None \<Rightarrow> Inl (invalid ''binding time must be finite and nonnegative'')
       | Some tm \<Rightarrow> bind_orchestrator_tx x agent r tm db))"

subsection \<open>Reporting a native session\<close>

text \<open>
  The attempt an event is filed under: the one the handle is pinned to, if it is the agent's, or else the
  owned one. The session facts of an attempt are a column outside the model.
\<close>

definition event_attempt :: "db \<Rightarrow> string option \<Rightarrow> string \<Rightarrow> string option" where
  "event_attempt db pinned agent =
     (case pinned of
        Some i \<Rightarrow> map_option t_id (find (\<lambda>t. t_id t = i \<and> t_agent t = agent) (attempts db))
      | None \<Rightarrow> owned_attempt db agent)"

definition runtime_session :: "ext \<Rightarrow> string option \<Rightarrow> string \<Rightarrow> string \<Rightarrow> db \<Rightarrow> unit res \<times> db" where
  "runtime_session x pinned agent session db =
     commit db (bindr (external_id ''runtime_session_id'' session) (\<lambda>_.
       let db1 = db\<lparr> agents := map (\<lambda>a. if a_id a = agent then a\<lparr> a_runtime_session := Some session \<rparr> else a) (agents db) \<rparr> in
       if agent_by_id db agent = None then Inl constraint_failed
       else Inr ((), snd (insert_event
         \<lparr> v_seq = 0, v_agent = agent, v_attempt = event_attempt db1 pinned agent, v_at = x_now x, v_kind = ''runtime_session'',
           v_from = None, v_to = None, v_data = JObj [(''id'', JStr session)] \<rparr> db1))))"

subsection \<open>Releasing pools\<close>

text \<open>
  The pools that retention found releasable lose their log, roster and rows as a unit; a completion notice that
  still waits for a binding expires.
\<close>

definition expire_completion :: "db \<Rightarrow> string list \<Rightarrow> db \<Rightarrow> db" where
  "expire_completion old ids =
     update_delivery (\<lambda>d. d_state d = ''waiting_binding''
         \<and> list_ex (\<lambda>p. p_id p \<in> set ids \<and> p_completion_delivery p = Some (d_id d)) (pools old))
       (\<lambda>d. d\<lparr> d_state := ''expired'', d_lease_owner := None, d_lease_until := None, d_next_attempt_at := None,
              d_last_error := Some ''pool_binding_expired'' \<rparr>)"

definition release_pools :: "string list \<Rightarrow> db \<Rightarrow> db" where
  "release_pools ids db =
     (let db1 = expire_completion db ids db;
          seats = map m_agent (filter (\<lambda>m. m_pool m \<in> set ids) (members db)) in
      db1\<lparr> enrollments := filter (\<lambda>j. j_agent j \<notin> set seats) (enrollments db1),
           entries := filter (\<lambda>e. e_pool e \<notin> set ids) (entries db1),
           members := filter (\<lambda>m. m_pool m \<notin> set ids) (members db1),
           pools := filter (\<lambda>p. p_id p \<notin> set ids) (pools db1) \<rparr>)"

section \<open>Histories\<close>

datatype history_op =
    HStore store_op
  | HWorker worker_op
  | HOutbox outbox_op
  | HBind string orchestrator_ref f64
  | HSession "string option" string string
  | HRelease "string list"

fun history_exec :: "ext \<times> history_op \<Rightarrow> db \<Rightarrow> db" where
  "history_exec (x, HStore a) db = exec (x, a) db"
| "history_exec (x, HWorker a) db = worker_exec (x, a) db"
| "history_exec (x, HOutbox a) db = outbox_exec (x, a) db"
| "history_exec (x, HBind agent r tm) db = snd (bind_orchestrator x agent r tm db)"
| "history_exec (x, HSession pinned agent session) db = snd (runtime_session x pinned agent session db)"
| "history_exec (x, HRelease ids) db = release_pools ids db"

text \<open>The pools a history releases.\<close>

fun releases :: "ext \<times> history_op \<Rightarrow> string set" where
  "releases (x, HRelease ids) = set ids"
| "releases _ = {}"

definition released_pools :: "(ext \<times> history_op) list \<Rightarrow> string set" where
  "released_pools steps = \<Union> (releases ` set steps)"

section \<open>Tables an operation leaves alone\<close>

definition log_tables :: "db \<Rightarrow> entry_row list \<times> nat \<times> enrollment_row list \<times> pool_row list" where
  "log_tables db = (entries db, entry_seq db, enrollments db, pools db)"

lemma log_tables_step: "log_tables db' = log_tables db \<Longrightarrow> store_step db db'"
  by (rule log_untouched) (simp_all add: log_tables_def pools_kept_same)

lemma event_tables [simp]: "log_tables (snd (insert_event v db)) = log_tables db"
  by (simp add: log_tables_def insert_event_def Let_def)

lemma tx_event_tables [simp]: "log_tables (snd (tx_event x db agent kind from to d)) = log_tables db"
  by (simp add: tx_event_def)

lemma notice_tables [simp]: "log_tables (snd (insert_terminal_notice x db agent session event tm)) = log_tables db"
  by (simp add: insert_terminal_notice_def insert_delivery_def log_tables_def Let_def split: option.split)

lemma lifecycle_tables [simp]: "log_tables (update_lifecycle P f db) = log_tables db"
  by (simp add: update_lifecycle_def log_tables_def)

lemma attempts_tables [simp]: "log_tables (update_attempts P f db) = log_tables db"
  by (simp add: update_attempts_def log_tables_def)

lemma turn_tables: "log_tables (fold (turn_event run phase tm) ls db) = log_tables db"
  by (induction ls arbitrary: db) (simp_all add: turn_event_def)

subsection \<open>Worker operations\<close>

lemma begin_tables: "log_tables (snd (begin_worker_lifecycle x run attempt tm db)) = log_tables db"
proof -
  have h: "begin_worker_health x run attempt tm d = Inr d' \<Longrightarrow> log_tables d' = log_tables d" for d d'
    by (auto simp: begin_worker_health_def split: if_splits)
  show ?thesis
    by (auto simp: begin_worker_lifecycle_def begin_lifecycle_tx_def commit_def log_tables_def [of "worker_lifecycle_update _ _"]
        log_tables_def [of db] dest!: h split: sum.splits prod.splits if_splits)
qed

lemma finish_tables: "log_tables (snd (accept_worker_finish x run attempt token input tm guard db)) = log_tables db"
proof (cases "accept_worker_finish x run attempt token input tm guard db")
  case (Pair r db')
  then have "log_tables db' = log_tables db"
    by (cases rule: accept_cases) (simp_all add: record_finish_def close_lifecycle_def)
  with Pair show ?thesis by simp
qed

lemma wake_tables: "log_tables (snd (enqueue_native_wake run digest msg tm db)) = log_tables db"
  by (simp add: enqueue_native_wake_def queue_wake_def insert_command_def log_tables_def Let_def
      split: option.split bool.split)

lemma remember_tables: "log_tables (snd (remember_processes x services kind i s db)) = log_tables db"
proof (cases "remember_processes x services kind i s db")
  case (Pair r db')
  show ?thesis
  proof (cases "db' = db")
    case False
    with Pair obtain u where "remember_processes_tx x services kind i s db = Inr (u, db')"
      by (auto simp: remember_processes_def commit_def split: sum.splits prod.splits)
    from remember_effect(1) [OF this] have "log_tables (apart db') = log_tables (apart db)" by simp
    then show ?thesis using Pair by (simp add: log_tables_def apart_def)
  qed (simp add: Pair)
qed

lemma write_terminal_tables [simp]: "log_tables (write_terminal x row out pr usage attempt cancel db) = log_tables db"
proof -
  have "log_tables (usage_event x run usage d) = log_tables d" for run d
    by (simp add: usage_event_def split: option.split)
  moreover have "log_tables (announce_terminal x row s t out technical tm d) = log_tables d" for s t technical tm d
    by (simp add: announce_terminal_def case_prod_unfold Let_def)
  moreover have "log_tables (complete_cancel cancel tm d) = log_tables d" "log_tables (finish_member i d) = log_tables d"
    "log_tables (d\<lparr> agents := as \<rparr>) = log_tables d" for i d tm as
    by (simp_all add: complete_cancel_def finish_member_def update_members_def log_tables_def)
  ultimately show ?thesis
    by (simp add: write_terminal_def release_attempts_def close_attempts_def Let_def)
qed

lemma compact_tables: "compact_terminal_processes x i db = Inr (b, db') \<Longrightarrow> log_tables db' = log_tables db"
  by (auto simp: compact_terminal_processes_def drop_evidence_def insert_event_def log_tables_def Let_def split: if_splits)

lemma terminal_tables: "log_tables (snd (commit_terminal x run out pr usage db)) = log_tables db"
proof (cases "commit_terminal x run out pr usage db")
  case (Pair r db')
  then show ?thesis
  proof (cases rule: commit_terminal_cases)
    case (committed a rt)
    from committed(6) have "log_tables db' = log_tables db"
    proof (cases rule: terminal_tx_cases)
      case (1 attempt db1 cancel requested b)
      have "log_tables db1 = log_tables db"
        using 1(2) by (auto simp: provider_attempt_def prove_never_spawned_def Let_def split: if_splits)
      then show ?thesis using compact_tables [OF 1(6)] by (simp add: announce_cancelling_def)
    qed
    with Pair show ?thesis by simp
  qed (simp_all add: Pair)
qed

lemma worker_tables: "log_tables (worker_exec (x, op) db) = log_tables db"
proof (cases op)
  case (OpTurn run idle tm)
  then show ?thesis by (simp add: worker_turn_def turn_tables Let_def split: option.split)
next
  case (OpReceipt run)
  then show ?thesis by (simp add: observe_worker_finish_receipt_def)
qed (simp_all add: begin_tables finish_tables wake_tables remember_tables terminal_tables)

subsection \<open>Outbox operations\<close>

definition shared :: "db \<Rightarrow> (entry_row list \<times> nat \<times> enrollment_row list \<times> pool_row list) \<times> agent_row list" where
  "shared db = (log_tables db, agents db)"

lemma update_shared [simp]:
  "shared (update_delivery P f db) = shared db" "shared (update_bridge Q g db) = shared db"
  "shared (hold_row i err amb db) = shared db" "shared (lease_row i owner n tm until db) = shared db"
  "shared (insert_bridge i db) = shared db" "shared (fence_unknown i db) = shared db"
  "shared (insert_evidence y db) = shared db"
  by (simp_all add: shared_def log_tables_def update_delivery_def update_bridge_def hold_row_def lease_row_def
      insert_bridge_def fence_unknown_def insert_evidence_def)

lemma claim_shared:
  assumes "claim_tx x op tm db = Inr (r, db')"
  shows "shared db' = shared db"
proof -
  have leased: "lease_found op tm d carrier s payload db1 = Inr (r, db') \<Longrightarrow> shared db' = shared db1" for d carrier s payload db1
    by (auto simp: lease_found_def Let_def split: if_splits)
  have "shared db' = shared db1" if "claim_found x op tm d db1 = Inr (r, db')" for d db1
    using claim_found_cases [OF that] leased by auto
  with assms show ?thesis by (fastforce simp: claim_tx_def Let_def split: option.splits)
qed

lemma complete_shared:
  assumes "complete_tx x c tm db = Inr (r, db')"
  shows "shared db' = shared db"
proof -
  have "record_evidence x c tm d = Inr d' \<Longrightarrow> shared d' = shared d" for d d'
    by (auto simp: record_evidence_def split: option.splits if_splits)
  moreover have "set_custody c d = Inr d' \<Longrightarrow> shared d' = shared d" for d d'
    by (auto simp: set_custody_def Let_def split: if_splits)
  ultimately show ?thesis using assms by (fastforce simp: complete_tx_def split: if_splits)
qed

lemma expire_shared: "shared (fold (\<lambda>i. update_delivery (P i) f) ids db) = shared db"
  by (induction ids arbitrary: db) simp_all

lemma commit_shared: "(\<And>r db'. body = Inr (r, db') \<Longrightarrow> shared db' = shared db) \<Longrightarrow> shared (snd (commit db body)) = shared db"
  by (auto simp: commit_def split: sum.split)

lemma outbox_shared: "shared (outbox_exec (x, op) db) = shared db"
proof (cases op)
  case (OutClaim c)
  then show ?thesis
    by (simp add: claim_delivery_lease_def commit_shared [OF claim_shared] split: f64.split)
next
  case (OutComplete c)
  then show ?thesis
    by (simp add: complete_delivery_attempt_def commit_shared [OF complete_shared] split: f64.split)
next
  case (OutPrepare p)
  have "prepare_tx p tm db = Inr (r, db') \<Longrightarrow> shared db' = shared db" for tm r db'
    by (auto simp: prepare_tx_def split: option.splits if_splits)
  then show ?thesis using OutPrepare by (simp add: prepare_bridge_delivery_def commit_shared split: f64.split)
next
  case (OutExpire tm limit)
  then show ?thesis by (simp add: expire_unbound_batch_def expire_shared Let_def split: f64.split)
qed (simp add: cancel_notice_def)

subsection \<open>Bindings\<close>

lemma session_shared: "session_for_reference x db r tm = Inr (sid, db') \<Longrightarrow> shared db' = shared db"
  using session_for_sessions by (fastforce simp: shared_def log_tables_def)

lemma touch_shared: "touch_session_reference db sid r tm = Inr db' \<Longrightarrow> shared db' = shared db"
  by (auto simp: touch_session_reference_def set_turn_def shared_def log_tables_def split: if_splits)

lemma enqueue_shared: "enqueue_notice x restart carrier session st msg db = Inr db' \<Longrightarrow> shared db' = shared db"
  by (auto simp: enqueue_notice_def insert_delivery_def Let_def dest!: session_shared split: if_splits)
    (simp_all add: shared_def log_tables_def)

lemma result_shared:
  assumes "queue_restart_result x restart carrier session db = Inr db'"
  shows "shared db' = shared db"
proof -
  obtain P msg where "enqueue_notice x restart carrier session ''after'' msg (reworded P msg db) = Inr db'"
    using queue_restart_result_reworded [of x restart carrier session db] assms by auto
  from enqueue_shared [OF this] show ?thesis by (simp add: reworded_def shared_def log_tables_def)
qed

lemma captured_shared: "bind_captured x agent sid carrier session row db = Inr db' \<Longrightarrow> shared db' = shared db"
proof -
  have u: "shared (upsert_recipient restart carrier session f (update_members P g db)) = shared db" for restart f P g
    by (simp add: upsert_recipient_def update_members_def shared_def log_tables_def Let_def)
  assume "bind_captured x agent sid carrier session row db = Inr db'"
  then show ?thesis
    by (auto simp: bind_captured_def u Let_def dest!: result_shared enqueue_shared split: prod.splits if_splits)
qed

lemma captured_rows_shared: "bind_captured_rows x agent sid carrier session rows db = Inr db' \<Longrightarrow> shared db' = shared db"
  by (induction rows arbitrary: db) (auto dest!: captured_shared)

lemma captured_agent_shared: "bind_captured_agent x agent sid r db = Inr db' \<Longrightarrow> shared db' = shared db"
  by (auto simp: bind_captured_agent_def dest: captured_rows_shared)

lemma ensure_shared [simp]: "shared (ensure_bound_terminal_notice x db agent session tm) = shared db"
  by (simp add: ensure_bound_terminal_notice_def shared_def insert_terminal_notice_frame split: option.split)

lemma bind_shared:
  assumes "bind_orchestrator_tx x agent r tm db = Inr (sid, db')"
  shows "shared db' = shared db \<or> shared db' = shared (set_agent_session agent sid db)"
proof -
  obtain a where g: "store_get x db agent = Inr a" using assms by (auto simp: bind_orchestrator_tx_def)
  show ?thesis
  proof (cases "a_session a")
    case None
    with assms g obtain db1 db2 where s: "session_for_reference x db r tm = Inr (sid, db1)"
      and c: "bind_captured_agent x agent sid r (set_agent_session agent sid db1) = Inr db2"
      and db': "db' = ensure_bound_terminal_notice x (activate_waiting agent sid tm db2) agent sid tm"
      by (auto simp: bind_orchestrator_tx_def)
    have "shared (set_agent_session agent sid db1) = shared (set_agent_session agent sid db)"
      using session_shared [OF s] by (simp add: shared_def set_agent_session_def log_tables_def)
    then show ?thesis using captured_agent_shared [OF c] by (simp add: db' activate_waiting_def)
  next
    case (Some current)
    with assms g show ?thesis
      by (auto simp: bind_orchestrator_tx_def dest!: touch_shared captured_agent_shared split: if_splits)
  qed
qed

section \<open>What a history keeps of a pool\<close>

definition log_history :: "db \<Rightarrow> db \<Rightarrow> bool" where
  "log_history db db' \<longleftrightarrow>
     (\<forall>pool p'. pool_by_id db' pool = Some p' \<longrightarrow>
        prefix (pool_entries db pool) (pool_entries db' pool)
        \<and> (\<exists>p. pool_by_id db pool = Some p
             \<and> (p_state p = CompletedPool \<longrightarrow> p_state p' = CompletedPool \<and> p_completed_at p' = p_completed_at p
                  \<and> p_completion_delivery p' = p_completion_delivery p \<and> pool_entries db' pool = pool_entries db pool)))"

lemma log_history_refl: "log_history db db"
  by (simp add: log_history_def)

lemma log_history_trans:
  assumes "log_history a b" and "log_history b c"
  shows "log_history a c"
  unfolding log_history_def
proof (intro allI impI)
  fix pool p''
  assume "pool_by_id c pool = Some p''"
  with assms(2) obtain p' where p': "pool_by_id b pool = Some p'" "prefix (pool_entries b pool) (pool_entries c pool)"
    "p_state p' = CompletedPool \<longrightarrow> p_state p'' = CompletedPool \<and> p_completed_at p'' = p_completed_at p'
       \<and> p_completion_delivery p'' = p_completion_delivery p' \<and> pool_entries c pool = pool_entries b pool"
    unfolding log_history_def by blast
  with assms(1) obtain p where p: "pool_by_id a pool = Some p" "prefix (pool_entries a pool) (pool_entries b pool)"
    "p_state p = CompletedPool \<longrightarrow> p_state p' = CompletedPool \<and> p_completed_at p' = p_completed_at p
       \<and> p_completion_delivery p' = p_completion_delivery p \<and> pool_entries b pool = pool_entries a pool"
    unfolding log_history_def by blast
  have "prefix (pool_entries a pool) (pool_entries c pool)" using p(2) p'(2) by (rule prefix_order.trans)
  with p p'(3) show "prefix (pool_entries a pool) (pool_entries c pool) \<and> (\<exists>p. pool_by_id a pool = Some p
      \<and> (p_state p = CompletedPool \<longrightarrow> p_state p'' = CompletedPool \<and> p_completed_at p'' = p_completed_at p
           \<and> p_completion_delivery p'' = p_completion_delivery p \<and> pool_entries c pool = pool_entries a pool))"
    by metis
qed

lemma stored_ids: "pool_by_id db pool \<noteq> None \<longleftrightarrow> pool \<in> set (map p_id (pools db))"
  by (auto simp: pool_by_id_def find_None_iff)

lemma extends_history:
  assumes "extends db db'"
  shows "log_history db db'"
  unfolding log_history_def
proof (intro allI impI conjI)
  fix pool p'
  assume p': "pool_by_id db' pool = Some p'"
  obtain es where "entries db' = entries db @ es" using assms by (auto simp: extends_def prefix_def)
  then show "prefix (pool_entries db pool) (pool_entries db' pool)" by (simp add: pool_entries_def)
  have "pool_by_id db pool \<noteq> None" using p' assms stored_ids [of db pool] stored_ids [of db' pool] by (simp add: extends_def)
  then obtain p where p: "pool_by_id db pool = Some p" by blast
  moreover have "p_state p = CompletedPool \<longrightarrow> p_state p' = CompletedPool \<and> p_completed_at p' = p_completed_at p
      \<and> p_completion_delivery p' = p_completion_delivery p \<and> pool_entries db' pool = pool_entries db pool"
    using assms p p' unfolding extends_def frozen_def by fastforce
  ultimately show "\<exists>p. pool_by_id db pool = Some p
      \<and> (p_state p = CompletedPool \<longrightarrow> p_state p' = CompletedPool \<and> p_completed_at p' = p_completed_at p
           \<and> p_completion_delivery p' = p_completion_delivery p \<and> pool_entries db' pool = pool_entries db pool)"
    by blast
qed

lemma release_tables:
  "entries (release_pools ids db) = filter (\<lambda>e. e_pool e \<notin> set ids) (entries db)"
  "entry_seq (release_pools ids db) = entry_seq db" "agents (release_pools ids db) = agents db"
  "pools (release_pools ids db) = filter (\<lambda>p. p_id p \<notin> set ids) (pools db)"
  by (simp_all add: release_pools_def expire_completion_def update_delivery_def Let_def)

lemma release_pool: "pool_by_id (release_pools ids db) pool = (if pool \<in> set ids then None else pool_by_id db pool)"
proof -
  have "find (\<lambda>p. p_id p = pool) (filter (\<lambda>p. p_id p \<notin> set ids) ps) =
      (if pool \<in> set ids then None else find (\<lambda>p. p_id p = pool) ps)" for ps :: "pool_row list"
    by (induction ps) auto
  then show ?thesis by (simp add: pool_by_id_def release_tables)
qed

lemma release_entries: "pool \<notin> set ids \<Longrightarrow> pool_entries (release_pools ids db) pool = pool_entries db pool"
  by (auto simp: pool_entries_def release_tables intro: filter_cong)

lemma release_log_inv:
  assumes "log_inv db"
  shows "log_inv (release_pools ids db)"
proof -
  have "sorted_wrt (<) (map e_seq (filter P (entries db)))" for P
    using assms by (simp add: log_inv_def log_wf_def sorted_wrt_map sorted_wrt_filter)
  moreover have "distinct (map idem_key (filter P (entries db)))" for P
    using assms by (simp add: log_inv_def log_wf_def distinct_map_filter)
  moreover have "distinct (map p_id (filter P (pools db)))" for P
    using assms by (simp add: log_inv_def distinct_map_filter)
  ultimately show ?thesis
    using assms by (fastforce simp: log_inv_def log_wf_def release_tables)
qed

lemma release_history: "log_history db (release_pools ids db)"
  by (auto simp: log_history_def release_pool release_entries split: if_splits)

lemma history_store_step:
  assumes "releases a = {}"
  shows "store_step db (history_exec a db)"
proof (cases a)
  case (Pair x op)
  have shared: "store_step db db'" if "shared db' = shared db" for db'
    using that log_tables_step by (simp add: shared_def)
  show ?thesis unfolding Pair
  proof (cases op)
    case (HBind agent r tm)
    have "log_tables (snd (bind_orchestrator x agent r tm db)) = log_tables db"
    proof -
      have "log_tables db' = log_tables db" if "bind_orchestrator_tx x agent r t db = Inr (sid, db')" for t sid db'
        using bind_shared [OF that] by (auto simp: shared_def set_agent_session_def log_tables_def)
      then show ?thesis
        by (auto simp: bind_orchestrator_def commit_def split: sum.splits option.splits prod.splits)
    qed
    with HBind log_tables_step show "store_step db (history_exec (x, op) db)" by simp
  next
    case (HSession pinned agent session)
    have "log_tables (snd (runtime_session x pinned agent session db)) = log_tables db"
      by (auto simp: runtime_session_def commit_def Let_def split: sum.splits prod.splits if_splits)
        (simp_all add: log_tables_def)
    with HSession log_tables_step show "store_step db (history_exec (x, op) db)" by simp
  next
    case (HRelease ids)
    then have "ids = []" using assms Pair by simp
    then have "release_pools ids db = db" by (simp add: release_pools_def expire_completion_def update_delivery_def Let_def list_ex_iff)
    with HRelease show "store_step db (history_exec (x, op) db)" by simp
  qed (simp_all add: exec_step log_tables_step [OF worker_tables] shared [OF outbox_shared])
qed

lemma history_step:
  assumes "log_inv db"
  shows "log_inv (history_exec a db) \<and> log_history db (history_exec a db)"
proof (cases "\<exists>x ids. a = (x, HRelease ids)")
  case True
  with release_log_inv [OF assms] release_history show ?thesis by auto
next
  case False
  then have "releases a = {}" by (cases a rule: releases.cases) auto
  from history_store_step [OF this, of db] assms extends_history show ?thesis by (auto simp: store_step_def)
qed

interpretation histories: kept_by_steps history_exec log_inv log_history
  by unfold_locales (rule log_history_refl, erule (1) log_history_trans, erule history_step)

text \<open>A pool leaves the store only by a release.\<close>

lemma stays_stored:
  assumes "log_inv db" and "pool_by_id db pool \<noteq> None" and "pool \<notin> released_pools steps"
  shows "pool_by_id (fold history_exec steps db) pool \<noteq> None"
  using assms
proof (induction steps arbitrary: db)
  case (Cons a steps)
  have "pool_by_id (history_exec a db) pool \<noteq> None"
  proof (cases "\<exists>x ids. a = (x, HRelease ids)")
    case True
    with Cons.prems show ?thesis by (auto simp: release_pool released_pools_def)
  next
    case False
    then have "releases a = {}" by (cases a rule: releases.cases) auto
    from history_store_step [OF this, of db] Cons.prems(1) have "extends db (history_exec a db)" by (simp add: store_step_def)
    with Cons.prems(2) show ?thesis using stored_ids [of db pool] stored_ids [of "history_exec a db" pool] by (simp add: extends_def)
  qed
  moreover have "log_inv (history_exec a db)" using history_step [OF Cons.prems(1)] by blast
  moreover have "pool \<notin> released_pools steps" using Cons.prems(3) by (simp add: released_pools_def)
  ultimately show ?case using Cons.IH by simp
qed simp

section \<open>What a history keeps of a result\<close>

text \<open>An execution apart from its two session references.\<close>

definition result_of :: "agent_row \<Rightarrow> agent_row" where
  "result_of a = a\<lparr> a_session := None, a_runtime_session := None \<rparr>"

definition results_history :: "db \<Rightarrow> db \<Rightarrow> bool" where
  "results_history db db' \<longleftrightarrow>
     (\<forall>i a. agent_by_id db i = Some a \<and> terminal (a_status a) \<longrightarrow>
        (\<exists>a'. agent_by_id db' i = Some a' \<and> result_of a' = result_of a))"

lemma result_of_status: "result_of a' = result_of a \<Longrightarrow> a_status a' = a_status a"
  by (metis agent_row.ext_inject agent_row.surjective agent_row.update_convs(7,22) result_of_def)

lemma results_history_trans:
  assumes "results_history a b" and "results_history b c"
  shows "results_history a c"
  unfolding results_history_def
proof (intro allI impI)
  fix i r
  assume r: "agent_by_id a i = Some r \<and> terminal (a_status r)"
  with assms(1) obtain r' where r': "agent_by_id b i = Some r'" "result_of r' = result_of r"
    unfolding results_history_def by blast
  with r have "terminal (a_status r')" using result_of_status [OF r'(2)] by simp
  with assms(2) r' show "\<exists>r''. agent_by_id c i = Some r'' \<and> result_of r'' = result_of r"
    unfolding results_history_def by metis
qed

lemma results_map:
  assumes "agents db' = map f (agents db)" and "\<And>a. a_id (f a) = a_id a \<and> result_of (f a) = result_of a"
  shows "results_history db db'"
  using assms by (simp add: results_history_def agent_by_id_def find_map_same)

lemma results_same: "agents db' = agents db \<Longrightarrow> results_history db db'"
  by (rule results_map [of _ "\<lambda>a. a"]) simp_all

lemma exec_results: "results_history db (exec a db)"
  unfolding results_history_def
proof (intro allI impI)
  fix i r
  assume r: "agent_by_id db i = Some r \<and> terminal (a_status r)"
  have "map agent_core (agents (exec a db)) = map agent_core (agents db)"
    using exec_callers [of db a] by (simp add: callers_kept_def)
  from find_agent_core [OF this, of "\<lambda>a. a_id a = i"] r
  show "\<exists>r'. agent_by_id (exec a db) i = Some r' \<and> result_of r' = result_of r"
    by (auto simp: agent_by_id_def result_of_def)
qed

lemma session_results: "results_history db (set_agent_session agent sid db)"
  by (rule results_map [of _ "\<lambda>a. if a_id a = agent then a\<lparr> a_session := Some sid \<rparr> else a"])
    (simp_all add: set_agent_session_def result_of_def)

lemma bind_results: "results_history db (snd (bind_orchestrator x agent r tm db))"
proof -
  have "results_history db db'" if "bind_orchestrator_tx x agent r t db = Inr (sid, db')" for t sid db'
  proof -
    from bind_shared [OF that] have "agents db' = agents db \<or> agents db' = agents (set_agent_session agent sid db)"
      by (auto simp: shared_def)
    then show ?thesis
    proof
      assume "agents db' = agents (set_agent_session agent sid db)"
      from results_history_trans [OF session_results results_same [OF this]] show ?thesis .
    qed (rule results_same)
  qed
  then show ?thesis
    by (auto simp: bind_orchestrator_def commit_def results_same split: sum.splits option.splits prod.splits)
qed

lemma runtime_results: "results_history db (snd (runtime_session x pinned agent session db))"
proof -
  have "results_history db (snd (insert_event v (db\<lparr> agents := map (\<lambda>a. if a_id a = agent
      then a\<lparr> a_runtime_session := Some session \<rparr> else a) (agents db) \<rparr>)))" for v
    by (rule results_map [of _ "\<lambda>a. if a_id a = agent then a\<lparr> a_runtime_session := Some session \<rparr> else a"])
      (simp_all add: insert_event_def Let_def result_of_def)
  then show ?thesis
    by (auto simp: runtime_session_def commit_def Let_def results_same split: sum.splits prod.splits if_splits)
qed

lemma history_results: "results_history db (history_exec a db)"
proof (cases a)
  case (Pair x op)
  have "agents (outbox_exec (x, o') db) = agents db" for o' using outbox_shared [of x o' db] by (simp add: shared_def)
  moreover have "results_history db (worker_exec (x, w) db)" for w
    using worker_step [of db "(x, w)"] unfolding kept_step_def worker_kept_def results_kept_def results_history_def by blast
  ultimately show ?thesis
    unfolding Pair by (cases op) (simp_all add: exec_results results_same bind_results runtime_results release_tables)
qed

interpretation outcomes: kept_by_steps history_exec "\<lambda>_. True" results_history
proof unfold_locales
  show "results_history s s" for s by (rule results_same) simp
qed (use results_history_trans history_results in auto)

section \<open>Properties of every history\<close>

text \<open>
  C2 (invariant). The log of a pool is append-only in every history of member writes, operator posts, worker
  reports, registrations, reconciliations, settlements, bindings, worker turns, finishes and results, outbox
  deliveries, native session reports and pool releases, in any order and with any outcome. Until retention
  releases the pool, its old log is a prefix of its new one. The whole log always has strictly increasing
  sequence numbers and unique idempotency keys, every entry keeps the shape of its kind, and a vote refers to
  an earlier entry of its own pool. The admission of a pool, the replacement of a member and the steps of a
  service restart are not among the operations of a history.
\<close>

theorem log_append_only:
  assumes "log_inv db" and "db' = fold history_exec steps db"
  shows "log_wf db' \<and> (\<forall>pool. pool_by_id db pool \<noteq> None \<and> pool \<notin> released_pools steps \<longrightarrow>
     prefix (pool_entries db pool) (pool_entries db' pool))"
proof -
  have k: "log_inv db'" "log_history db db'" using histories.run_keeps [OF assms(1)] by (simp_all add: assms(2))
  have "prefix (pool_entries db pool) (pool_entries db' pool)"
    if "pool_by_id db pool \<noteq> None" "pool \<notin> released_pools steps" for pool
    using stays_stored [OF assms(1) that] k(2) unfolding log_history_def assms(2) by blast
  with k(1) show ?thesis by (simp add: log_inv_def)
qed

theorem log_append_only_witness:
  "log_wf (fold history_exec [(sample_ext, HStore (OpPost sample_pool ''q'' ''hi'')), (sample_ext, HRelease [''old'']),
     (sample_ext, HOutbox (OutCancel ''d''))] sample_db)"
  using log_append_only [OF store_inv_log [OF sample_inv] refl] by blast

text \<open>
  C3 (safety). A completed pool is closed until retention releases it: after every history of pool, report,
  worker, outbox, binding and session operations and of releases of other pools, it is still completed, with the
  same completion time and delivery, and not one entry was added to its log.
\<close>

theorem completed_stays_closed:
  assumes "log_inv db" and "pool_by_id db pool = Some p" and "p_state p = CompletedPool"
    and "pool \<notin> released_pools steps" and "db' = fold history_exec steps db"
  shows "\<exists>p'. pool_by_id db' pool = Some p' \<and> p_state p' = CompletedPool
      \<and> p_completed_at p' = p_completed_at p \<and> p_completion_delivery p' = p_completion_delivery p
      \<and> pool_entries db' pool = pool_entries db pool"
proof -
  obtain p' where p': "pool_by_id db' pool = Some p'" using stays_stored [OF assms(1) _ assms(4)] assms(2,5) by auto
  have "log_history db db'" using histories.run_keeps [OF assms(1)] by (simp add: assms(5))
  with p' assms(2,3) show ?thesis unfolding log_history_def by fastforce
qed

definition closed_db :: db where
  "closed_db = sample_db\<lparr> pools := map (complete_pool sample_pool 9 ''d'') (pools sample_db) \<rparr>"

theorem completed_stays_closed_witness:
  "\<exists>p'. pool_by_id (fold history_exec [(sample_ext, HStore (OpPost sample_pool ''q'' ''hi''))] closed_db) sample_pool = Some p'
     \<and> p_state p' = CompletedPool
     \<and> pool_entries (fold history_exec [(sample_ext, HStore (OpPost sample_pool ''q'' ''hi''))] closed_db) sample_pool = []"
proof -
  have "pools_kept sample_db closed_db"
    by (rule pools_kept_complete [of _ sample_pool 9 "''d''"]) (simp add: closed_db_def)
  then have "store_step sample_db closed_db"
    by (intro log_untouched) (simp_all add: closed_db_def)
  then have inv: "log_inv closed_db" using store_inv_log [OF sample_inv] by (simp add: store_step_def)
  obtain p where p: "pool_by_id closed_db sample_pool = Some p" "p_state p = CompletedPool"
    by (simp add: closed_db_def pool_by_id_def complete_pool_def sample_db_def)
  have "pool_entries closed_db sample_pool = []" by (simp add: pool_entries_def closed_db_def sample_db_def)
  with completed_stays_closed [OF inv p _ refl, of "[(sample_ext, HStore (OpPost sample_pool ''q'' ''hi''))]"]
  show ?thesis by (auto simp: released_pools_def)
qed

text \<open>
  C8 (invariant). A result is final and follows the lifecycle. When a commit returns a time, the execution has a
  terminal status with that time, reached by status events that each are a legal transition, from the status
  before. After every history of pool, report, worker, outbox, binding, session and pool-release operations, the
  execution still has this result: status, times, exit code, failure, answer and every other column of the model are unchanged, except the two session
  references that a later binding or session report may set. No further commit changes anything. The removal of
  old executions by retention is not among the operations.
\<close>

theorem result_final:
  assumes "commit_terminal x run out pr usage db = (Inr (Some t), db1)"
  shows "\<exists>a a' steps. agent_by_id db run = Some a \<and> agent_by_id db1 run = Some a' \<and> terminal (a_status a')
     \<and> a_finished_at a' = Some t \<and> trail db1 run = trail db run @ steps \<and> path_ok (a_status a) steps (a_status a')
     \<and> (\<forall>ops. (\<exists>b. agent_by_id (fold history_exec ops db1) run = Some b \<and> result_of b = result_of a')
          \<and> (\<forall>x out pr usage. snd (commit_terminal x run out pr usage (fold history_exec ops db1)) = fold history_exec ops db1))"
proof -
  obtain a a' steps where a: "agent_by_id db run = Some a" "agent_by_id db1 run = Some a'" "terminal (a_status a')"
    "a_finished_at a' = Some t" "trail db1 run = trail db run @ steps" "path_ok (a_status a) steps (a_status a')"
    using commit_path [OF assms] by blast
  have later: "\<exists>b. agent_by_id (fold history_exec ops db1) run = Some b \<and> result_of b = result_of a'" for ops
    using outcomes.run_keeps [of db1 ops] a(2,3) unfolding results_history_def by blast
  have "snd (commit_terminal y run o' p u (fold history_exec ops db1)) = fold history_exec ops db1" for y o' p u ops
  proof -
    obtain b where b: "agent_by_id (fold history_exec ops db1) run = Some b" "result_of b = result_of a'"
      using later [of ops] by blast
    have ends: "terminal (a_status b)" using a(3) unfolding result_of_status [OF b(2)] .
    show ?thesis
    proof (cases "commit_terminal y run o' p u (fold history_exec ops db1)")
      case (Pair r d')
      then have "d' = fold history_exec ops db1" by (cases rule: commit_terminal_cases) (use b(1) ends in simp_all)
      then show ?thesis by (simp add: Pair)
    qed
  qed
  with a later show ?thesis by blast
qed

theorem result_final_witness:
  "\<exists>db1 a'. commit_terminal sample_ext ag_a (outcome_failure ''e'') None None (work_db None []) = (Inr (Some 100), db1)
    \<and> agent_by_id db1 ag_a = Some a' \<and> terminal (a_status a')
    \<and> (\<exists>b. agent_by_id (history_exec (sample_ext, HSession None ag_a ''n'') db1) ag_a = Some b \<and> result_of b = result_of a')"
proof -
  have n: "pending_cancel (work_db None []) work_agent (outcome_failure ''e'') = None" by (simp add: pending_cancel_def work_lookup)
  have "\<exists>db' a'. commit_terminal sample_ext ag_a (outcome_failure ''e'') None None (work_db None []) = (Inr (Some (x_now sample_ext)), db')
     \<and> agent_by_id db' ag_a = Some a' \<and> a_status a' = terminal_to work_agent Failed"
    by (rule commit_returns [OF work_lookup(1) work_agent_facts(1) _ _ _ work_failed work_agent_facts(4)])
      (simp_all add: outcome_failure_def n [unfolded outcome_failure_def] requested_status_def terminal_from_def terminal_to_def)
  then obtain db1 where c: "commit_terminal sample_ext ag_a (outcome_failure ''e'') None None (work_db None []) = (Inr (Some 100), db1)"
    by (auto simp: sample_ext_def)
  from result_final [OF c] obtain a' where a': "agent_by_id db1 ag_a = Some a'" "terminal (a_status a')"
    "\<forall>ops. \<exists>b. agent_by_id (fold history_exec ops db1) ag_a = Some b \<and> result_of b = result_of a'" by blast
  from spec [OF a'(3), of "[(sample_ext, HSession None ag_a ''n'')]"] a'(1,2) c show ?thesis by simp
qed

end
