(* ===== verification/Spec2Isabelle.thy ===== *)
theory Spec2Isabelle
  imports PoolRender PoolInput PoolSweep PoolVotes OutboxFacts PoolReadFacts RestartFacts Histories
begin

text \<open>
  Verification of agent-run: a broker that starts coding agents of several providers, keeps their executions
  in one SQLite store, and lets the agents of a pool work together through a shared log. This is the root
  theory; it imports the others and holds no definitions of its own.

  \<^bold>\<open>The program.\<close> A client asks the broker to start an execution (\<^verbatim>\<open>StartRequest\<close>, \<^verbatim>\<open>ProviderStartRequest\<close>) or a
  pool of them (\<^verbatim>\<open>PoolStartRequest\<close>). A supervisor runs each execution as one or more attempts. The worker inside
  an attempt calls back with a capability: it reports to its orchestrator, reads and writes the log of its
  pool, and finishes. Every such call is one transaction of \<^verbatim>\<open>crates/agent-run-store\<close>. Notices for orchestrators
  leave through an outbox that dispatchers lease from. A service restart warns and stops the workers, hands
  the store to the next process, and resumes what was running.

  \<^bold>\<open>How code becomes definitions.\<close> Text is the list of its UTF-8 bytes. An error is a value: \<open>'a res\<close> is a sum of
  \<open>error\<close>, with the constructors of \<^verbatim>\<open>error.rs\<close>, and \<open>'a\<close>. The store is the record \<open>db\<close> of its tables, a table the
  list of its rows in insertion order, and a JSON column the decoded document. A transaction body has type
  \<open>error + ('a \<times> db)\<close>; \<open>commit\<close> makes the operation of it, which keeps the old database on an error, as the rolled
  back transaction does. Loops over rows are structural recursions or folds, so every operation is total and
  needs no fuel. Times are rational numbers, and \<open>f64\<close> separates them from the values \<^verbatim>\<open>is_finite\<close> refuses; 32 and 64
  bit limits are written out where the code checks them. What the code takes from outside is an argument:
  \<open>ext\<close> has the clock, UUIDs, SHA-256, the date parser, the JSON parser and schema compiler, and the observation of
  processes; \<open>host\<close> has the file system and the Unicode tables.

  \<^bold>\<open>The theories.\<close>

  \<^item> \<open>Prelude\<close> and \<open>Text\<close>: lemmas on lists, options and results; UTF-8, \<^verbatim>\<open>trim\<close>, \<^verbatim>\<open>is_char_boundary\<close>, number printing and
    parsing. The locales \<open>wire_enum\<close> and \<open>normaliser\<close> state what an enumeration with a text form and an idempotent
    validator promise, and are interpreted on the enumerations and validators of the program.

  \<^item> \<open>Errors\<close> (\<^verbatim>\<open>error.rs\<close>), \<open>Domain\<close> (\<^verbatim>\<open>domain.rs\<close>, \<^verbatim>\<open>fsm.rs\<close>), \<open>ProviderStart\<close> (\<^verbatim>\<open>provider_start.rs\<close>), \<open>WorkerDomain\<close>
    (\<^verbatim>\<open>worker.rs\<close>), \<open>PoolDomain\<close> (\<^verbatim>\<open>pool.rs\<close>), all of \<^verbatim>\<open>crates/agent-run-domain/src\<close>: data, validators, renderers. \<open>PoolInput\<close>
    and \<open>PoolRender\<close> have the properties of the pool validators and renderers. \<open>Canonical\<close> (\<^verbatim>\<open>canonical.rs\<close>) is the
    serialiser whose bytes are hashed and compared.

  \<^item> \<open>Db\<close>: the tables of \<^verbatim>\<open>sql/schema.sql\<close> and the reads components share. \<open>Sample\<close>: a concrete database for witnesses.

  \<^item> \<open>PoolEntries\<close>, \<open>PoolLog\<close>, \<open>PoolLogFacts\<close>, \<open>PoolBudgets\<close>, \<open>PoolWrites\<close>, \<open>PoolVotes\<close> (\<^verbatim>\<open>pool_log.rs\<close>, writes),
    \<open>PoolRead\<close>, \<open>PoolReadFacts\<close> (\<^verbatim>\<open>pool_log.rs\<close>, reads): the shared log with its constraints, budgets, replay,
    withdrawal of votes and pages.

  \<^item> \<open>WorkerStore\<close>, \<open>WorkerReports\<close> (\<^verbatim>\<open>worker.rs\<close> of the store): capabilities, authentication, reports.

  \<^item> \<open>PoolEnrollment\<close> (\<^verbatim>\<open>pool_enrollment.rs\<close>), \<open>PoolSettle\<close>, \<open>PoolCompletion\<close>, \<open>PoolSweep\<close>, \<open>PoolBinding\<close> (\<^verbatim>\<open>pool_settle.rs\<close>):
    joining, completing, sweeping and binding a pool. \<open>team_done\<close> is the abstract specification that settlement
    is proved to implement.

  \<^item> \<open>StoreRuns\<close>: the operations of the pool and worker components as steps. The locale \<open>kept_by_steps\<close> carries an
    invariant and a preorder over runs; it is interpreted here and in the theories of runs below.

  \<^item> \<open>Evidence\<close>, \<open>Outbox\<close>, \<open>OutboxRuns\<close>, \<open>OutboxFacts\<close> (\<^verbatim>\<open>delivery.rs\<close>): notices, leases, attempts, evidence.

  \<^item> \<open>ServiceRestart\<close>, \<open>RestartRuns\<close>, \<open>RestartFacts\<close> (\<^verbatim>\<open>service_restart.rs\<close>): the restart protocol with its step relation
    \<open>restart_move\<close>, its invariant and its time bounds.

  \<^item> \<open>WorkerFinish\<close> (\<^verbatim>\<open>worker_finish.rs\<close>): turns, the finish of a worker, its receipt, and wake-ups.

  \<^item> \<open>ProcessOwnership\<close> (\<^verbatim>\<open>process_ownership.rs\<close>, with the identities of \<^verbatim>\<open>process.rs\<close>): the processes an attempt or
    a service was seen with, their restoration, and the bounded summary that replaces them.

  \<^item> \<open>Terminal\<close> (\<^verbatim>\<open>terminal.rs\<close>, \<^verbatim>\<open>lineage.rs\<close>): the one transaction that ends an execution, and the admission of a
    resumed one.

  \<^item> \<open>WorkerRuns\<close> has the operations of \<open>WorkerFinish\<close>, \<open>ProcessOwnership\<close> and \<open>Terminal\<close> as steps, with what every
    interleaving keeps; \<open>WorkerFacts\<close> has their properties: one finish per attempt, one wake-up per receipt, a
    proven success, cancellation before success, and process evidence that can always be restored.

  \<^item> \<open>Histories\<close> puts the pool, report, worker and outbox steps together with the binding of one agent and the report
    of a native session (\<^verbatim>\<open>bind_orchestrator\<close>, \<^verbatim>\<open>runtime_session\<close> of \<^verbatim>\<open>lib.rs\<close>) and the release of expired pools
    (\<^verbatim>\<open>retention.rs\<close>). A history keeps a pool's log and completion until the pool is released, and keeps a result.

  \<^bold>\<open>What the theorems show.\<close> Over every interleaving of the operations a theory of runs lists: the log of a pool
  only grows and stays well formed and a completed pool stays closed until retention releases them, budgets hold
  and never keep a member from withdrawing its agreement, a result is final, notices are handed out and recorded
  at most once, a notice that cannot be sent does not hold up the others, a restart is claimed once and stops no
  worker early. For single operations: what an accepted call changes, that a
  refused one changes nothing, and that repeating an accepted call returns its receipt. For validators,
  renderers and the serialiser: that output validates again, that rendered headers cannot be forged, and that
  bytes determine content. Each statement is under the text that names it, in the theory of its component.

  \<^bold>\<open>Not modelled.\<close> The start of single executions on provider accounts (\<^verbatim>\<open>admission.rs\<close>, \<^verbatim>\<open>provider_admission.rs\<close>,
  \<^verbatim>\<open>quota.rs\<close>), managed services, and the admission and replacement of pool members that build on it use tables the
  model does not have. Recovery of lost supervisors and the rest of retention (which pools are
  releasable, the removal of agents, services and sessions) follow the file system, the process table and tables
  outside the model. The health checks of \<^verbatim>\<open>health.rs\<close> after the first state of an attempt, statistics, incidents and transcripts
  are read by none of the operations above. The adapters, the configuration parser, the command line, the
  terminal interface and the asynchronous core call processes, sockets and third-party crates. Opening, migrating
  and locking the database are SQLite calls: an operation here runs alone, as the write lock ensures. Documents
  have integer numbers only, so the times a document repeats from its row and the printing of floating-point
  numbers are left out. Signalling processes is an operating-system call.
\<close>

end
